(* ===== verification/Prelude.thy ===== *)
theory Prelude
  imports
    "HOL-Library.Word"
    "HOL-Library.Char_ord"
    "HOL-Library.List_Lexorder"
    "HOL-Library.Multiset"
    "HOL-Library.Sublist"
begin

text \<open>
  What every component of the development shares: Rust's \<open>Result\<close> with the \<open>?\<close> operator, the
  machine integers, and the generic facts on lists and sorting that the component theories use.

  Conventions of the whole development:
  \<^item> a byte (\<open>u8\<close>) is HOL's \<^typ>\<open>char\<close>, which has exactly eight bits, so \<open>&[u8]\<close>, \<open>Vec<u8>\<close>,
    \<open>&str\<close> and \<open>String\<close> are all lists of bytes (\<^typ>\<open>string\<close>); a Rust string is its UTF-8
    encoding, as in memory, and \<open>len()\<close> is \<^const>\<open>length\<close>;
  \<^item> \<open>u64\<close> is \<^typ>\<open>64 word\<close> read with \<^const>\<open>unat\<close>; \<open>i64\<close> is \<^typ>\<open>64 word\<close> read with \<^const>\<open>sint\<close>;
  \<^item> \<open>usize\<close> lengths of in-memory lists are \<^typ>\<open>nat\<close>;
  \<^item> \<open>Result<T, E>\<close> is \<open>('t, 'e) result\<close>; \<open>e?\<close> followed by the rest of the function is
    \<open>and_then e (\<lambda>x. rest)\<close>; an early \<open>return Err(e)\<close> under a condition is
    \<open>and_then (reject_if c e) (\<lambda>_. rest)\<close>.
\<close>

named_theorems wire_simps \<open>how decoders see a value after canonical reordering\<close>
named_theorems valid_intros \<open>what a passed validation says of a document\<close>

section \<open>Results\<close>

datatype ('a, 'e) result = Ok 'a | Err 'e

primrec and_then :: "('a, 'e) result \<Rightarrow> ('a \<Rightarrow> ('b, 'e) result) \<Rightarrow> ('b, 'e) result" where
  "and_then (Ok x) f = f x"
| "and_then (Err e) f = Err e"

definition reject_if :: "bool \<Rightarrow> 'e \<Rightarrow> (unit, 'e) result" where
  "reject_if c e = (if c then Err e else Ok ())"

primrec ok_or :: "'a option \<Rightarrow> 'e \<Rightarrow> ('a, 'e) result" where
  "ok_or None e = Err e"
| "ok_or (Some x) e = Ok x"

primrec map_err :: "('e \<Rightarrow> 'f) \<Rightarrow> ('a, 'e) result \<Rightarrow> ('a, 'f) result" where
  "map_err g (Ok x) = Ok x"
| "map_err g (Err e) = Err (g e)"

primrec map_ok :: "('a \<Rightarrow> 'b) \<Rightarrow> ('a, 'e) result \<Rightarrow> ('b, 'e) result" where
  "map_ok g (Ok x) = Ok (g x)"
| "map_ok g (Err e) = Err e"

primrec is_ok :: "('a, 'e) result \<Rightarrow> bool" where
  "is_ok (Ok x) \<longleftrightarrow> True"
| "is_ok (Err e) \<longleftrightarrow> False"

text \<open>Collecting an iterator of results stops at the first error.\<close>

primrec collect_results :: "('a \<Rightarrow> ('b, 'e) result) \<Rightarrow> 'a list \<Rightarrow> ('b list, 'e) result" where
  "collect_results f [] = Ok []"
| "collect_results f (x # xs) =
     and_then (f x) (\<lambda>y. and_then (collect_results f xs) (\<lambda>ys. Ok (y # ys)))"

lemma and_then_cong [fundef_cong]:
  "\<lbrakk>r = r'; \<And>x. r' = Ok x \<Longrightarrow> f x = f' x\<rbrakk> \<Longrightarrow> and_then r f = and_then r' f'"
  by (cases r') simp_all

lemma and_then_eq_Ok [simp]: "and_then r f = Ok y \<longleftrightarrow> (\<exists>x. r = Ok x \<and> f x = Ok y)"
  by (cases r) simp_all

lemma and_then_eq_Err: "and_then r f = Err e \<longleftrightarrow> r = Err e \<or> (\<exists>x. r = Ok x \<and> f x = Err e)"
  by (cases r) simp_all

lemma reject_if_eq_Ok [simp]: "reject_if c e = Ok u \<longleftrightarrow> \<not> c"
  by (simp add: reject_if_def)

lemma reject_if_eq_Err [simp]: "reject_if c e = Err e' \<longleftrightarrow> c \<and> e' = e"
  by (auto simp: reject_if_def)

lemma reject_if_False [simp]: "reject_if False e = Ok ()"
  by (simp add: reject_if_def)

lemma reject_if_True [simp]: "reject_if True e = Err e"
  by (simp add: reject_if_def)

lemma ok_or_eq_Ok [simp]: "ok_or x e = Ok y \<longleftrightarrow> x = Some y"
  by (cases x) simp_all

lemma ok_or_eq_Err [simp]: "ok_or x e = Err e' \<longleftrightarrow> x = None \<and> e' = e"
  by (cases x) auto

lemma map_err_eq_Ok [simp]: "map_err g r = Ok y \<longleftrightarrow> r = Ok y"
  by (cases r) simp_all

lemma map_ok_eq_Ok [simp]: "map_ok g r = Ok y \<longleftrightarrow> (\<exists>x. r = Ok x \<and> y = g x)"
  by (cases r) auto

lemma map_ok_eq_Err [simp]: "map_ok g r = Err e \<longleftrightarrow> r = Err e"
  by (cases r) auto

lemma is_ok_iff: "is_ok r \<longleftrightarrow> (\<exists>x. r = Ok x)"
  by (cases r) simp_all

lemma not_Err_iff: "(\<forall>e. r \<noteq> Err e) \<longleftrightarrow> (\<exists>x. r = Ok x)"
  by (cases r) simp_all

lemma and_then_assoc [simp]: "and_then (and_then r f) g = and_then r (\<lambda>x. and_then (f x) g)"
  by (cases r) simp_all

lemma collect_results_Ok_length:
  "collect_results f xs = Ok ys \<Longrightarrow> length ys = length xs"
  by (induction xs arbitrary: ys) auto

lemma collect_results_Ok_iff:
  "collect_results f xs = Ok ys \<longleftrightarrow> list_all2 (\<lambda>x y. f x = Ok y) xs ys"
  by (induction xs arbitrary: ys) (auto simp: list_all2_Cons1)

lemma collect_results_map:
  "(\<And>x. x \<in> set xs \<Longrightarrow> f x = Ok (g x)) \<Longrightarrow> collect_results f xs = Ok (map g xs)"
  by (induction xs) auto

section \<open>Machine integers\<close>

type_synonym u64 = "64 word"
type_synonym i64 = "64 word"
type_synonym u32 = "32 word"

definition i64_min :: int where "i64_min = - (2 ^ 63)"
definition i64_max :: int where "i64_max = 2 ^ 63 - 1"

text \<open>\<open>i64::saturating_add\<close>, \<open>i64::checked_add\<close>, \<open>u64::saturating_add\<close> and \<open>u64::checked_add\<close>.\<close>

definition saturating_add_i64 :: "i64 \<Rightarrow> i64 \<Rightarrow> i64" where
  "saturating_add_i64 a b = word_of_int (max i64_min (min i64_max (sint a + sint b)))"

definition checked_add_i64 :: "i64 \<Rightarrow> i64 \<Rightarrow> i64 option" where
  "checked_add_i64 a b =
     (if i64_min \<le> sint a + sint b \<and> sint a + sint b \<le> i64_max then Some (a + b) else None)"

definition checked_add_u64 :: "u64 \<Rightarrow> u64 \<Rightarrow> u64 option" where
  "checked_add_u64 a b = (if unat a + unat b < 2 ^ 64 then Some (a + b) else None)"

definition saturating_add_u64 :: "u64 \<Rightarrow> u64 \<Rightarrow> u64" where
  "saturating_add_u64 a b = (if unat a + unat b < 2 ^ 64 then a + b else - 1)"

definition saturating_sub_u64 :: "u64 \<Rightarrow> u64 \<Rightarrow> u64" where
  "saturating_sub_u64 a b = (if a < b then 0 else a - b)"

lemma sint_i64_range: "i64_min \<le> sint (a :: i64)" "sint (a :: i64) \<le> i64_max"
  using sint_greater_eq [of a] sint_less [of a] by (simp_all add: i64_min_def i64_max_def)

lemma sint_of_i64:
  assumes "i64_min \<le> k" and "k \<le> i64_max"
  shows "sint (word_of_int k :: i64) = k"
proof -
  have "- (2 ^ 63) \<le> k" and "k < 2 ^ 63"
    using assms by (simp_all add: i64_min_def i64_max_def)
  then show ?thesis
    by (simp add: sint_sbintrunc' signed_take_bit_int_eq_self)
qed

lemma sint_saturating_add:
  "sint (saturating_add_i64 a b) = max i64_min (min i64_max (sint a + sint b))"
proof -
  have "i64_min \<le> i64_max"
    by (simp add: i64_min_def i64_max_def)
  then show ?thesis
    unfolding saturating_add_i64_def by (intro sint_of_i64) auto
qed

lemma unat_checked_add_u64: "checked_add_u64 a b = Some c \<Longrightarrow> unat c = unat a + unat b"
  by (auto simp: checked_add_u64_def unat_word_ariths split: if_splits)

lemma unat_u64_sub: "b \<le> (a :: u64) \<Longrightarrow> unat (a - b) = unat a - unat b"
  by (rule unat_sub)

lemma unat_u64_lt: "unat (a :: u64) < 2 ^ 64"
  using unsigned_less [of a] by simp

section \<open>Lists, association lists and sorting\<close>

lemma takeWhile_dropWhile_split: "xs = takeWhile P xs @ dropWhile P xs"
  by simp

lemma size_list_sort_key [simp]: "size_list f (sort_key k xs) = size_list f xs"
proof -
  have "sum_list (map f (sort_key k xs)) = sum_list (map f xs)"
    by (metis mset_map mset_sort sum_mset_sum_list)
  then show ?thesis
    by (simp add: size_list_conv_sum_list)
qed

lemma map_of_eq_find:
  "map_of xs k = map_option snd (List.find (\<lambda>(a, b). a = k) xs)"
  by (induction xs) auto

lemma map_of_map_snd: "map_of (map (\<lambda>(k, v). (k, f v)) xs) k = map_option f (map_of xs k)"
  by (induction xs) auto

lemma filter_sort_key: "filter P (sort_key k xs) = sort_key k (filter P xs)"
  by (induction xs) (auto simp: filter_insort_triv filter_insort)

text \<open>A stable sort by an injective function of the key keeps the first entry of each key first.\<close>

lemma map_of_filter_key: "map_of (filter (\<lambda>e. fst e = k) xs) k = map_of xs k"
  by (induction xs) auto

lemma map_of_sort_key:
  assumes inj: "inj_on f (insert k (fst ` set xs))"
  shows "map_of (sort_key (\<lambda>e. f (fst e)) xs) k = map_of xs k"
proof -
  have eq: "filter (\<lambda>e. fst e = k) ys = filter (\<lambda>e. f (fst e) = f k) ys"
    if "set ys = set xs" for ys :: "('a \<times> 'c) list"
    using that inj by (auto intro!: filter_cong simp: inj_on_def)
  have "map_of (sort_key (\<lambda>e. f (fst e)) xs) k
      = map_of (filter (\<lambda>e. fst e = k) (sort_key (\<lambda>e. f (fst e)) xs)) k"
    by (simp add: map_of_filter_key)
  also have "\<dots> = map_of (filter (\<lambda>e. f (fst e) = f k) (sort_key (\<lambda>e. f (fst e)) xs)) k"
    by (simp add: eq)
  also have "\<dots> = map_of (filter (\<lambda>e. f (fst e) = f k) xs) k"
    by (simp add: sort_key_stable)
  also have "\<dots> = map_of xs k"
    using eq [of xs] by (simp add: map_of_filter_key flip: eq)
  finally show ?thesis .
qed

lemma distinct_map_fst_mset:
  "distinct (map fst xs) \<Longrightarrow> mset xs = mset ys \<Longrightarrow> distinct (map fst ys)"
  by (metis distinct_count_atmost_1 mset_map mset_eq_setD set_map)

end
