(* ===== verification/Rust_Str.thy ===== *)
theory Rust_Str
  imports Prelude
begin

text \<open>
  The parts of Rust's standard library on bytes and strings that the modelled code uses: the
  ASCII classes, UTF-8 validation and decoding (\<open>str::from_utf8\<close>, \<open>chars\<close>, \<open>encode_utf8\<close>), UTF-16
  code units (\<open>encode_utf16\<close>), \<open>trim\<close>, \<open>split\<close>, \<open>split_once\<close>, \<open>strip_prefix\<close>, and decimal and
  hexadecimal text. A Rust \<open>char\<close> is its scalar value, a \<^typ>\<open>nat\<close>.
\<close>

section \<open>Bytes\<close>

abbreviation byte :: "char \<Rightarrow> nat" where
  "byte c \<equiv> of_char c"

definition is_ascii_digit :: "char \<Rightarrow> bool" where
  "is_ascii_digit c \<longleftrightarrow> 48 \<le> byte c \<and> byte c \<le> 57"

definition is_ascii_lowercase :: "char \<Rightarrow> bool" where
  "is_ascii_lowercase c \<longleftrightarrow> 97 \<le> byte c \<and> byte c \<le> 122"

definition is_ascii_uppercase :: "char \<Rightarrow> bool" where
  "is_ascii_uppercase c \<longleftrightarrow> 65 \<le> byte c \<and> byte c \<le> 90"

definition is_ascii_alphanumeric :: "char \<Rightarrow> bool" where
  "is_ascii_alphanumeric c \<longleftrightarrow> is_ascii_digit c \<or> is_ascii_lowercase c \<or> is_ascii_uppercase c"

definition is_ascii_hexdigit :: "char \<Rightarrow> bool" where
  "is_ascii_hexdigit c \<longleftrightarrow> is_ascii_digit c \<or> (97 \<le> byte c \<and> byte c \<le> 102)
     \<or> (65 \<le> byte c \<and> byte c \<le> 70)"

definition is_ascii_control :: "char \<Rightarrow> bool" where
  "is_ascii_control c \<longleftrightarrow> byte c < 32 \<or> byte c = 127"

text \<open>\<open>u8::is_ascii_whitespace\<close>: space, tab, line feed, form feed, carriage return.\<close>

definition is_ascii_whitespace :: "char \<Rightarrow> bool" where
  "is_ascii_whitespace c \<longleftrightarrow> byte c \<in> {32, 9, 10, 12, 13}"

lemmas ascii_defs =
  is_ascii_digit_def is_ascii_lowercase_def is_ascii_uppercase_def is_ascii_alphanumeric_def
  is_ascii_hexdigit_def is_ascii_control_def is_ascii_whitespace_def

section \<open>UTF-8\<close>

definition is_scalar :: "nat \<Rightarrow> bool" where
  "is_scalar c \<longleftrightarrow> c < 0xD800 \<or> (0xE000 \<le> c \<and> c \<le> 0x10FFFF)"

definition utf8_encode :: "nat \<Rightarrow> string" where
  "utf8_encode c =
     (if c < 0x80 then [char_of c]
      else if c < 0x800 then [char_of (0xC0 + c div 64), char_of (0x80 + c mod 64)]
      else if c < 0x10000 then
        [char_of (0xE0 + c div 4096), char_of (0x80 + c div 64 mod 64), char_of (0x80 + c mod 64)]
      else
        [char_of (0xF0 + c div 262144), char_of (0x80 + c div 4096 mod 64),
         char_of (0x80 + c div 64 mod 64), char_of (0x80 + c mod 64)])"

definition is_cont :: "char \<Rightarrow> bool" where
  "is_cont b \<longleftrightarrow> 0x80 \<le> byte b \<and> byte b < 0xC0"

text \<open>
  The first character of a byte string and the bytes after it; \<^const>\<open>None\<close> where
  \<open>str::from_utf8\<close> refuses the bytes (stray continuation bytes, overlong forms, surrogates,
  values over \<open>0x10FFFF\<close>, truncation) and at the end of the string.
\<close>

definition utf8_next :: "string \<Rightarrow> (nat \<times> string) option" where
  "utf8_next s =
     (case s of [] \<Rightarrow> None
      | b # r \<Rightarrow>
        let x = byte b in
        if x < 0x80 then Some (x, r)
        else if 0xC0 \<le> x \<and> x < 0xE0 then
          (case r of b1 # r1 \<Rightarrow>
             let c = (x - 0xC0) * 64 + (byte b1 - 0x80)
             in if is_cont b1 \<and> 0x80 \<le> c then Some (c, r1) else None
           | _ \<Rightarrow> None)
        else if 0xE0 \<le> x \<and> x < 0xF0 then
          (case r of b1 # b2 # r2 \<Rightarrow>
             let c = (x - 0xE0) * 4096 + (byte b1 - 0x80) * 64 + (byte b2 - 0x80)
             in if is_cont b1 \<and> is_cont b2 \<and> 0x800 \<le> c \<and> is_scalar c then Some (c, r2) else None
           | _ \<Rightarrow> None)
        else if 0xF0 \<le> x \<and> x < 0xF8 then
          (case r of b1 # b2 # b3 # r3 \<Rightarrow>
             let c = (x - 0xF0) * 262144 + (byte b1 - 0x80) * 4096 + (byte b2 - 0x80) * 64
                     + (byte b3 - 0x80)
             in if is_cont b1 \<and> is_cont b2 \<and> is_cont b3 \<and> 0x10000 \<le> c \<and> is_scalar c
                then Some (c, r3) else None
           | _ \<Rightarrow> None)
        else None)"

lemma utf8_encode_ne [simp]: "utf8_encode c \<noteq> []"
  by (simp add: utf8_encode_def)

lemma split_64: "(c :: nat) = c div 64 * 64 + c mod 64"
  by simp

lemma split_4096: "(c :: nat) = c div 4096 * 4096 + c div 64 mod 64 * 64 + c mod 64"
proof -
  have "c div 64 = c div 4096 * 64 + c div 64 mod 64"
    using split_64 [of "c div 64"] by (simp add: div_mult2_eq [symmetric])
  then show ?thesis
    using split_64 [of c] by linarith
qed

lemma split_262144:
  "(c :: nat) = c div 262144 * 262144 + c div 4096 mod 64 * 4096 + c div 64 mod 64 * 64 + c mod 64"
proof -
  have "c div 4096 = c div 262144 * 64 + c div 4096 mod 64"
    using split_64 [of "c div 4096"] by (simp add: div_mult2_eq [symmetric])
  then show ?thesis
    using split_4096 [of c] by linarith
qed

text \<open>The decoder on a lead byte and continuation bytes built from their payloads.\<close>

lemma utf8_next_1: "x < 0x80 \<Longrightarrow> utf8_next (char_of x # r) = Some (x, r)"
  by (simp add: utf8_next_def)

lemma utf8_next_2:
  assumes "p < 32" "q < 64"
  shows "utf8_next (char_of (0xC0 + p) # char_of (0x80 + q) # r) =
    (if 0x80 \<le> p * 64 + q then Some (p * 64 + q, r) else None)"
  using assms by (simp add: utf8_next_def is_cont_def Let_def)

lemma utf8_next_3:
  assumes "p < 16" "q < 64" "t < 64"
  shows "utf8_next (char_of (0xE0 + p) # char_of (0x80 + q) # char_of (0x80 + t) # r) =
    (let c = p * 4096 + q * 64 + t
     in if 0x800 \<le> c \<and> is_scalar c then Some (c, r) else None)"
  using assms by (simp add: utf8_next_def is_cont_def Let_def)

lemma utf8_next_4:
  assumes "p < 8" "q < 64" "t < 64" "u < 64"
  shows "utf8_next
      (char_of (0xF0 + p) # char_of (0x80 + q) # char_of (0x80 + t) # char_of (0x80 + u) # r) =
    (let c = p * 262144 + q * 4096 + t * 64 + u
     in if 0x10000 \<le> c \<and> is_scalar c then Some (c, r) else None)"
  using assms by (simp add: utf8_next_def is_cont_def Let_def)

lemma utf8_next_encode [simp]:
  assumes "is_scalar c"
  shows "utf8_next (utf8_encode c @ r) = Some (c, r)"
proof -
  consider "c < 0x80" | "0x80 \<le> c" "c < 0x800" | "0x800 \<le> c" "c < 0x10000"
    | "0x10000 \<le> c" "c \<le> 0x10FFFF"
    using assms by (force simp: is_scalar_def)
  then show ?thesis
  proof cases
    case 1
    then show ?thesis by (simp add: utf8_encode_def utf8_next_1)
  next
    case 2
    then have "c div 64 < 32" by (simp add: less_mult_imp_div_less)
    then show ?thesis
      using utf8_next_2 [of "c div 64" "c mod 64" r] 2
      by (simp add: utf8_encode_def del: char_of_mod_256)
  next
    case 3
    then have "c div 4096 < 16" by (simp add: less_mult_imp_div_less)
    then show ?thesis
      using utf8_next_3 [of "c div 4096" "c div 64 mod 64" "c mod 64" r] 3 assms
        split_4096 [of c]
      by (simp add: utf8_encode_def Let_def del: char_of_mod_256)
  next
    case 4
    then have "c div 262144 < 8" by (simp add: less_mult_imp_div_less)
    then show ?thesis
      using utf8_next_4 [of "c div 262144" "c div 4096 mod 64" "c div 64 mod 64" "c mod 64" r]
        4 assms split_262144 [of c]
      by (simp add: utf8_encode_def Let_def del: char_of_mod_256)
  qed
qed

lemma mult_64_div_mod: "(u :: nat) < 64 \<Longrightarrow> (a * 64 + u) div 64 = a \<and> (a * 64 + u) mod 64 = u"
  by simp

lemma utf8_encode_2:
  assumes "p < 32" "q < 64" "0x80 \<le> p * 64 + q"
  shows "utf8_encode (p * 64 + q) = [char_of (0xC0 + p), char_of (0x80 + q)]"
  using assms by (simp add: utf8_encode_def)

lemma utf8_encode_3:
  assumes "p < 16" "q < 64" "t < 64" "0x800 \<le> p * 4096 + q * 64 + t"
  shows "utf8_encode (p * 4096 + q * 64 + t) =
    [char_of (0xE0 + p), char_of (0x80 + q), char_of (0x80 + t)]"
proof -
  define c where "c = p * 4096 + q * 64 + t"
  have "c = (p * 64 + q) * 64 + t" by (simp add: c_def)
  then have d: "c div 64 = p * 64 + q" "c mod 64 = t"
    using mult_64_div_mod assms(3) by blast+
  moreover have "c div 4096 = c div 64 div 64"
    by (simp add: div_mult2_eq [symmetric])
  ultimately have "c div 4096 = p" "c div 64 mod 64 = q"
    using mult_64_div_mod assms(2) by auto
  with d have "utf8_encode c = [char_of (0xE0 + p), char_of (0x80 + q), char_of (0x80 + t)]"
    using assms by (simp add: utf8_encode_def c_def)
  then show ?thesis by (simp add: c_def)
qed

lemma utf8_encode_4:
  assumes "p < 8" "q < 64" "t < 64" "u < 64" "0x10000 \<le> p * 262144 + q * 4096 + t * 64 + u"
  shows "utf8_encode (p * 262144 + q * 4096 + t * 64 + u) =
    [char_of (0xF0 + p), char_of (0x80 + q), char_of (0x80 + t), char_of (0x80 + u)]"
proof -
  define c where "c = p * 262144 + q * 4096 + t * 64 + u"
  have "c = ((p * 64 + q) * 64 + t) * 64 + u" by (simp add: c_def)
  then have d: "c div 64 = (p * 64 + q) * 64 + t" "c mod 64 = u"
    using mult_64_div_mod assms(4) by blast+
  moreover have "c div 4096 = c div 64 div 64" "c div 262144 = c div 4096 div 64"
    by (simp_all add: div_mult2_eq [symmetric])
  ultimately have "c div 4096 = p * 64 + q" "c div 64 mod 64 = t" "c div 262144 = p"
      "c div 4096 mod 64 = q"
    using mult_64_div_mod [OF assms(3), of "p * 64 + q"] mult_64_div_mod [OF assms(2), of p]
    by (simp_all only: d)
  with d have "utf8_encode c =
      [char_of (0xF0 + p), char_of (0x80 + q), char_of (0x80 + t), char_of (0x80 + u)]"
    using assms by (simp add: utf8_encode_def c_def)
  then show ?thesis by (simp add: c_def)
qed

lemma cont_payload: "is_cont b \<Longrightarrow> byte b - 0x80 < 64 \<and> char_of (0x80 + (byte b - 0x80)) = b"
  by (auto simp: is_cont_def)

lemma utf8_next_SomeD:
  assumes "utf8_next s = Some (c, r)"
  shows "s = utf8_encode c @ r \<and> is_scalar c"
proof -
  obtain b t where s: "s = b # t" using assms by (cases s) (auto simp: utf8_next_def)
  consider (one) "byte b < 0x80" | (two) "0xC0 \<le> byte b" "byte b < 0xE0"
    | (three) "0xE0 \<le> byte b" "byte b < 0xF0" | (four) "0xF0 \<le> byte b" "byte b < 0xF8"
    using assms by (auto simp: s utf8_next_def Let_def split: if_splits)
  then show ?thesis
  proof cases
    case one
    with assms show ?thesis
      by (auto simp: s utf8_next_def utf8_encode_def is_scalar_def)
  next
    case two
    with assms obtain b1 where t: "t = b1 # r" "is_cont b1"
      and c: "c = (byte b - 0xC0) * 64 + (byte b1 - 0x80)" "0x80 \<le> c"
      by (auto simp: s utf8_next_def Let_def split: list.splits if_splits)
    have p: "byte b - 0xC0 < 32" "char_of (0xC0 + (byte b - 0xC0)) = b" using two by auto
    have "utf8_encode c = [b, b1]"
      unfolding c(1) using utf8_encode_2 [OF p(1)] cont_payload [OF t(2)] p(2) c by metis
    moreover have "c < 0x800" using cont_payload [OF t(2)] p(1) c by linarith
    ultimately show ?thesis by (simp add: s t is_scalar_def)
  next
    case three
    with assms obtain b1 b2 where t: "t = b1 # b2 # r" "is_cont b1" "is_cont b2"
      and c: "c = (byte b - 0xE0) * 4096 + (byte b1 - 0x80) * 64 + (byte b2 - 0x80)"
        "0x800 \<le> c" "is_scalar c"
      by (auto simp: s utf8_next_def Let_def split: list.splits if_splits)
    have p: "byte b - 0xE0 < 16" "char_of (0xE0 + (byte b - 0xE0)) = b" using three by auto
    have "utf8_encode c = [b, b1, b2]"
      unfolding c(1)
      using utf8_encode_3 [OF p(1)] cont_payload [OF t(2)] cont_payload [OF t(3)] p(2) c by metis
    with c(3) show ?thesis by (simp add: s t)
  next
    case four
    with assms obtain b1 b2 b3 where t: "t = b1 # b2 # b3 # r" "is_cont b1" "is_cont b2" "is_cont b3"
      and c: "c = (byte b - 0xF0) * 262144 + (byte b1 - 0x80) * 4096 + (byte b2 - 0x80) * 64
          + (byte b3 - 0x80)" "0x10000 \<le> c" "is_scalar c"
      by (auto simp: s utf8_next_def Let_def split: list.splits if_splits)
    have p: "byte b - 0xF0 < 8" "char_of (0xF0 + (byte b - 0xF0)) = b" using four by auto
    have "utf8_encode c = [b, b1, b2, b3]"
      unfolding c(1)
      using utf8_encode_4 [OF p(1)] cont_payload [OF t(2)] cont_payload [OF t(3)]
        cont_payload [OF t(4)] p(2) c by metis
    with c(3) show ?thesis by (simp add: s t)
  qed
qed

lemma utf8_next_shorter: "utf8_next s = Some (c, r) \<Longrightarrow> length r < length s"
  using utf8_next_SomeD [of s c r] by simp

text \<open>All the characters of a string, \<^const>\<open>None\<close> when it is not valid UTF-8.\<close>

function utf8_decode :: "string \<Rightarrow> nat list option" where
  "utf8_decode s =
     (if s = [] then Some []
      else case utf8_next s of None \<Rightarrow> None
        | Some (c, r) \<Rightarrow> map_option (Cons c) (utf8_decode r))"
  by pat_completeness auto
termination
  by (relation "measure length") (auto dest: utf8_next_shorter)

declare utf8_decode.simps [simp del]

definition utf8_valid :: "string \<Rightarrow> bool" where
  "utf8_valid s \<longleftrightarrow> utf8_decode s \<noteq> None"

text \<open>\<open>str::chars\<close>: a \<open>str\<close> is valid UTF-8 by its type.\<close>

definition chars :: "string \<Rightarrow> nat list" where
  "chars s = (case utf8_decode s of None \<Rightarrow> [] | Some cs \<Rightarrow> cs)"

definition utf8_string :: "nat list \<Rightarrow> string" where
  "utf8_string cs = concat (map utf8_encode cs)"

lemma utf8_string_simps [simp]:
  "utf8_string [] = []" "utf8_string (c # cs) = utf8_encode c @ utf8_string cs"
  "utf8_string (cs @ ds) = utf8_string cs @ utf8_string ds"
  by (simp_all add: utf8_string_def)

lemma utf8_decode_encode: "\<forall>c \<in> set cs. is_scalar c \<Longrightarrow> utf8_decode (utf8_string cs) = Some cs"
proof (induction cs)
  case Nil
  then show ?case by (simp add: utf8_decode.simps)
next
  case (Cons c cs)
  then show ?case by (subst utf8_decode.simps) simp
qed

lemma utf8_decode_SomeD:
  "utf8_decode s = Some cs \<Longrightarrow> s = utf8_string cs \<and> (\<forall>c \<in> set cs. is_scalar c)"
proof (induction s arbitrary: cs rule: utf8_decode.induct)
  case (1 s)
  show ?case
  proof (cases "s = []")
    case True
    with "1.prems" show ?thesis by (simp add: utf8_decode.simps)
  next
    case False
    with "1.prems" obtain c r ds where
      n: "utf8_next s = Some (c, r)" and d: "utf8_decode r = Some ds" and cs: "cs = c # ds"
      by (auto simp: utf8_decode.simps [of s] split: option.splits)
    from "1.IH" [OF False n refl d] have "r = utf8_string ds" "\<forall>c \<in> set ds. is_scalar c"
      by auto
    with utf8_next_SomeD [OF n] show ?thesis by (simp add: cs)
  qed
qed

lemma utf8_valid_iff:
  "utf8_valid s \<longleftrightarrow> (\<exists>cs. s = utf8_string cs \<and> (\<forall>c \<in> set cs. is_scalar c))"
  by (auto simp: utf8_valid_def utf8_decode_encode dest: utf8_decode_SomeD)

lemma utf8_validE:
  assumes "utf8_valid s"
  obtains cs where "s = utf8_string cs" "\<forall>c \<in> set cs. is_scalar c" "chars s = cs"
  using assms by (auto simp: utf8_valid_iff chars_def utf8_decode_encode)

lemma chars_utf8_string [simp]: "\<forall>c \<in> set cs. is_scalar c \<Longrightarrow> chars (utf8_string cs) = cs"
  by (simp add: chars_def utf8_decode_encode)

lemma utf8_string_chars [simp]: "utf8_valid s \<Longrightarrow> utf8_string (chars s) = s"
  by (erule utf8_validE) simp

lemma utf8_valid_utf8_string [simp]: "\<forall>c \<in> set cs. is_scalar c \<Longrightarrow> utf8_valid (utf8_string cs)"
  by (auto simp: utf8_valid_iff)

lemma scalar_chars: "c \<in> set (chars s) \<Longrightarrow> is_scalar c"
  by (cases "utf8_decode s") (auto simp: chars_def dest!: utf8_decode_SomeD)

lemma utf8_valid_Nil [simp]: "utf8_valid []"
  using utf8_valid_utf8_string [of "[]"] by simp

lemma utf8_valid_append [simp]: "utf8_valid s \<Longrightarrow> utf8_valid t \<Longrightarrow> utf8_valid (s @ t)"
  by (metis utf8_string_simps(3) utf8_valid_iff Un_iff set_append)

lemma utf8_valid_encode [simp]: "is_scalar c \<Longrightarrow> utf8_valid (utf8_encode c)"
  using utf8_valid_utf8_string [of "[c]"] by simp

text \<open>ASCII strings decode byte by byte.\<close>

definition is_ascii :: "string \<Rightarrow> bool" where
  "is_ascii s \<longleftrightarrow> (\<forall>b \<in> set s. byte b < 128)"

lemma utf8_encode_byte: "byte b < 128 \<Longrightarrow> utf8_encode (byte b) = [b]"
  by (simp add: utf8_encode_def)

lemma ascii_utf8_string: "is_ascii s \<Longrightarrow> s = utf8_string (map byte s)"
  by (induction s) (auto simp: is_ascii_def utf8_encode_byte)

lemma ascii_scalars: "is_ascii s \<Longrightarrow> \<forall>c \<in> set (map byte s). is_scalar c"
  by (auto simp: is_ascii_def is_scalar_def)

lemma ascii_valid [simp]: "is_ascii s \<Longrightarrow> utf8_valid s"
  using ascii_utf8_string ascii_scalars utf8_valid_iff by metis

lemma chars_ascii [simp]: "is_ascii s \<Longrightarrow> chars s = map byte s"
  using ascii_utf8_string ascii_scalars chars_utf8_string by metis

section \<open>UTF-16 code units\<close>

definition utf16_encode :: "nat \<Rightarrow> nat list" where
  "utf16_encode c =
     (if c < 0x10000 then [c]
      else [0xD800 + (c - 0x10000) div 1024, 0xDC00 + (c - 0x10000) mod 1024])"

definition utf16 :: "string \<Rightarrow> nat list" where
  "utf16 s = concat (map utf16_encode (chars s))"

lemma utf16_encode_append_inj:
  assumes "is_scalar c" "is_scalar d" "utf16_encode c @ u = utf16_encode d @ v"
  shows "c = d \<and> u = v"
proof -
  have split: "k = k div 1024 * 1024 + k mod 1024" for k :: nat by simp
  consider "c < 0x10000" "d < 0x10000" | "c < 0x10000" "0x10000 \<le> d"
    | "0x10000 \<le> c" "d < 0x10000" | "0x10000 \<le> c" "0x10000 \<le> d"
    by linarith
  then show ?thesis
  proof cases
    case 2
    with assms have "(d - 0x10000) div 1024 < 1024" and "c = 0xD800 + (d - 0x10000) div 1024"
      by (auto simp: utf16_encode_def is_scalar_def)
    then have "\<not> is_scalar c" by (simp add: is_scalar_def)
    with assms show ?thesis by simp
  next
    case 3
    with assms have "(c - 0x10000) div 1024 < 1024" and "d = 0xD800 + (c - 0x10000) div 1024"
      by (auto simp: utf16_encode_def is_scalar_def)
    then have "\<not> is_scalar d" by (simp add: is_scalar_def)
    with assms show ?thesis by simp
  next
    case 4
    with assms have "(c - 0x10000) div 1024 = (d - 0x10000) div 1024"
      "(c - 0x10000) mod 1024 = (d - 0x10000) mod 1024" "u = v"
      by (auto simp: utf16_encode_def)
    then have "c - 0x10000 = d - 0x10000"
      using split [of "c - 0x10000"] split [of "d - 0x10000"] by simp
    with 4 \<open>u = v\<close> show ?thesis by simp
  qed (use assms in \<open>auto simp: utf16_encode_def\<close>)
qed

lemma utf16_encode_ne [simp]: "utf16_encode c \<noteq> []"
  by (simp add: utf16_encode_def)

lemma utf16_units_inj:
  "\<lbrakk>\<forall>c \<in> set cs. is_scalar c; \<forall>d \<in> set ds. is_scalar d;
    concat (map utf16_encode cs) = concat (map utf16_encode ds)\<rbrakk> \<Longrightarrow> cs = ds"
proof (induction cs arbitrary: ds)
  case Nil
  then show ?case by (cases ds) auto
next
  case (Cons c cs)
  from Cons.prems obtain d es where ds: "ds = d # es" by (cases ds) simp_all
  have "c = d \<and> concat (map utf16_encode cs) = concat (map utf16_encode es)"
    using Cons.prems by (intro utf16_encode_append_inj) (simp_all add: ds)
  then have cd: "c = d" and eq: "concat (map utf16_encode cs) = concat (map utf16_encode es)"
    by blast+
  have "cs = es"
    using Cons.prems by (intro Cons.IH [OF _ _ eq]) (simp_all add: ds)
  with cd show ?case by (simp add: ds)
qed

lemma utf16_inj:
  assumes "utf8_valid s" "utf8_valid t" "utf16 s = utf16 t"
  shows "s = t"
proof -
  have "chars s = chars t"
    by (rule utf16_units_inj) (use assms(3) in \<open>simp_all add: utf16_def scalar_chars\<close>)
  then show ?thesis using assms(1,2) utf8_string_chars by metis
qed

lemma utf16_inj_on: "inj_on utf16 {s. utf8_valid s}"
  by (auto intro!: inj_onI utf16_inj)

section \<open>Trimming, splitting and prefixes\<close>

text \<open>Unicode \<open>White_Space\<close>, as \<open>char::is_whitespace\<close> has it.\<close>

definition is_whitespace :: "nat \<Rightarrow> bool" where
  "is_whitespace c \<longleftrightarrow> (9 \<le> c \<and> c \<le> 13) \<or> c = 0x20 \<or> c = 0x85 \<or> c = 0xA0 \<or> c = 0x1680
     \<or> (0x2000 \<le> c \<and> c \<le> 0x200A) \<or> c = 0x2028 \<or> c = 0x2029 \<or> c = 0x202F \<or> c = 0x205F
     \<or> c = 0x3000"

definition trim_chars :: "nat list \<Rightarrow> nat list" where
  "trim_chars cs = rev (dropWhile is_whitespace (rev (dropWhile is_whitespace cs)))"

definition trim :: "string \<Rightarrow> string" where
  "trim s = utf8_string (trim_chars (chars s))"

fun split_on :: "char \<Rightarrow> string \<Rightarrow> string list" where
  "split_on c [] = [[]]"
| "split_on c (x # xs) =
     (if x = c then [] # split_on c xs
      else case split_on c xs of [] \<Rightarrow> [[x]] | y # ys \<Rightarrow> (x # y) # ys)"

fun join :: "string \<Rightarrow> string list \<Rightarrow> string" where
  "join sep [] = []"
| "join sep [x] = x"
| "join sep (x # y # zs) = x @ sep @ join sep (y # zs)"

fun split_once :: "string \<Rightarrow> string \<Rightarrow> (string \<times> string) option" where
  "split_once p [] = (if p = [] then Some ([], []) else None)"
| "split_once p (x # xs) =
     (if prefix p (x # xs) then Some ([], drop (length p) (x # xs))
      else map_option (\<lambda>(a, b). (x # a, b)) (split_once p xs))"

definition strip_prefix :: "string \<Rightarrow> string \<Rightarrow> string option" where
  "strip_prefix p s = (if prefix p s then Some (drop (length p) s) else None)"

definition strip_suffix :: "string \<Rightarrow> string \<Rightarrow> string option" where
  "strip_suffix p s = (if suffix p s then Some (take (length s - length p) s) else None)"

lemma dropWhile_idem [simp]: "dropWhile P (dropWhile P xs) = dropWhile P xs"
  by (induction xs) auto

lemma trim_chars_idem [simp]: "trim_chars (trim_chars cs) = trim_chars cs"
proof -
  define a where "a = dropWhile is_whitespace cs"
  define b where "b = rev (dropWhile is_whitespace (rev a))"
  have "dropWhile is_whitespace b = b"
  proof (cases b)
    case (Cons x xs)
    have "prefix b a"
      unfolding b_def by (metis rev_rev_ident suffix_dropWhile suffix_to_prefix)
    then have "a = x # tl a" using Cons by (cases a) auto
    moreover have "a = [] \<or> \<not> is_whitespace (hd a)"
      unfolding a_def by (metis hd_dropWhile)
    ultimately have "\<not> is_whitespace x" by (metis list.distinct(1) list.sel(1))
    then show ?thesis by (simp add: Cons)
  qed simp
  then have "trim_chars b = rev (dropWhile is_whitespace (rev b))" by (simp add: trim_chars_def)
  also have "\<dots> = b" by (simp add: b_def)
  finally show ?thesis by (simp add: trim_chars_def a_def b_def)
qed

lemma set_trim_chars: "set (trim_chars cs) \<subseteq> set cs"
  by (auto simp: trim_chars_def dest!: set_dropWhileD)

lemma scalar_trim: "\<forall>c \<in> set (trim_chars (chars s)). is_scalar c"
  using set_trim_chars scalar_chars by blast

lemma chars_trim [simp]: "chars (trim s) = trim_chars (chars s)"
  by (simp add: trim_def scalar_trim)

lemma utf8_valid_trim [simp]: "utf8_valid (trim s)"
  by (simp add: trim_def scalar_trim)

lemma trim_trim [simp]: "trim (trim s) = trim s"
  by (simp add: trim_def [of "trim s"]) (simp add: trim_def)

lemma split_on_ne [simp]: "split_on c s \<noteq> []"
  by (induction s) (auto split: list.splits)

lemma join_split_on: "join [c] (split_on c s) = s"
proof (induction s)
  case (Cons x xs)
  obtain y ys where sp: "split_on c xs = y # ys" by (cases "split_on c xs") auto
  with Cons show ?case by (cases ys) auto
qed simp

lemma split_on_no_sep: "f \<in> set (split_on c s) \<Longrightarrow> c \<notin> set f"
proof (induction s arbitrary: f)
  case (Cons x xs)
  obtain y ys where sp: "split_on c xs = y # ys" by (cases "split_on c xs") auto
  with Cons show ?case by (auto split: if_splits)
qed simp

lemma set_split_on: "f \<in> set (split_on c s) \<Longrightarrow> set f \<subseteq> set s"
proof (induction s arbitrary: f)
  case (Cons x xs)
  obtain y ys where sp: "split_on c xs = y # ys" by (cases "split_on c xs") auto
  with Cons show ?case by (fastforce split: if_splits)
qed simp

lemma split_on_word: "c \<notin> set x \<Longrightarrow> split_on c x = [x]"
  by (induction x) auto

lemma split_on_append: "c \<notin> set x \<Longrightarrow> split_on c (x @ c # s) = x # split_on c s"
  by (induction x) auto

lemma split_on_join:
  "fs \<noteq> [] \<Longrightarrow> (\<And>f. f \<in> set fs \<Longrightarrow> c \<notin> set f) \<Longrightarrow> split_on c (join [c] fs) = fs"
proof (induction "[c]" fs rule: join.induct)
  case (3 x y zs)
  then show ?case by (simp add: split_on_append)
qed (simp_all add: split_on_word)

lemma split_once_Some: "split_once p s = Some (a, b) \<Longrightarrow> s = a @ p @ b"
proof (induction s arbitrary: a)
  case (Cons x xs)
  then show ?case by (cases "prefix p (x # xs)") (auto simp: prefix_def)
qed (simp split: if_splits)

lemma split_once_char:
  assumes "x \<notin> set a"
  shows "split_once [x] (a @ x # b) = Some (a, b)"
  using assms by (induction a) auto

lemma split_once_char_fst: "split_once [x] s = Some (a, b) \<Longrightarrow> x \<notin> set a"
  by (induction s arbitrary: a) (auto split: if_splits)

lemma strip_prefix_Some: "strip_prefix p s = Some r \<longleftrightarrow> s = p @ r"
  by (auto simp: strip_prefix_def prefix_def)

lemma strip_suffix_Some: "strip_suffix p s = Some r \<longleftrightarrow> s = r @ p"
  by (auto simp: strip_suffix_def suffix_def)

section \<open>Decimal and hexadecimal text\<close>

fun dec :: "nat \<Rightarrow> string" where
  "dec n = (if n < 10 then [char_of (48 + n)] else dec (n div 10) @ [char_of (48 + n mod 10)])"

declare dec.simps [simp del]

definition dec_value :: "string \<Rightarrow> nat" where
  "dec_value s = foldl (\<lambda>a c. a * 10 + (byte c - 48)) 0 s"

text \<open>\<open>str::parse::<u64>\<close>: an optional plus sign, then at least one digit, and no overflow.\<close>

definition parse_u64 :: "string \<Rightarrow> u64 option" where
  "parse_u64 s =
     (let t = (case s of c # r \<Rightarrow> if c = CHR ''+'' then r else s | [] \<Rightarrow> s)
      in if t \<noteq> [] \<and> list_all is_ascii_digit t \<and> dec_value t < 2 ^ 64
         then Some (of_nat (dec_value t)) else None)"

definition hex_digit :: "nat \<Rightarrow> char" where
  "hex_digit n = (if n < 10 then char_of (48 + n) else char_of (87 + n))"

definition hex2 :: "char \<Rightarrow> string" where
  "hex2 b = [hex_digit (byte b div 16), hex_digit (byte b mod 16)]"

definition hex :: "string \<Rightarrow> string" where
  "hex bs = concat (map hex2 bs)"

lemma dec_value_snoc: "dec_value (s @ [c]) = dec_value s * 10 + (byte c - 48)"
  by (simp add: dec_value_def)

lemma dec_value_Nil [simp]: "dec_value [] = 0"
  by (simp add: dec_value_def)

lemma dec_value_dec [simp]: "dec_value (dec n) = n"
proof (induction n rule: dec.induct)
  case (1 n)
  show ?case
  proof (cases "n < 10")
    case True
    then show ?thesis by (simp add: dec.simps [of n] dec_value_def)
  next
    case False
    with 1 have "dec_value (dec (n div 10)) = n div 10" by blast
    with False show ?thesis by (simp add: dec.simps [of n] dec_value_snoc)
  qed
qed

lemma dec_ne [simp]: "dec n \<noteq> []"
  by (subst dec.simps) simp

lemma dec_digits: "c \<in> set (dec n) \<Longrightarrow> is_ascii_digit c"
proof (induction n rule: dec.induct)
  case (1 n)
  have "n mod 10 < 10" by simp
  with 1 show ?case
    by (cases "n < 10") (auto simp: dec.simps [of n] is_ascii_digit_def)
qed

lemma list_all_dec [simp]: "list_all is_ascii_digit (dec n)"
  by (auto simp: list_all_iff dec_digits)

lemma dec_inj: "dec m = dec n \<Longrightarrow> m = n"
  by (metis dec_value_dec)

lemma dec_hd: "n \<noteq> 0 \<Longrightarrow> hd (dec n) \<noteq> CHR ''0''"
proof (induction n rule: dec.induct)
  case (1 n)
  show ?case
  proof (cases "n < 10")
    case True
    with "1.prems" have "byte (char_of (48 + n)) \<noteq> byte (CHR ''0'')" by simp
    then have "char_of (48 + n) \<noteq> CHR ''0''" by metis
    with True show ?thesis by (simp add: dec.simps [of n])
  next
    case False
    moreover have "hd (dec (n div 10)) \<noteq> CHR ''0''"
      using False by (intro "1.IH") auto
    ultimately show ?thesis by (simp add: dec.simps [of n])
  qed
qed

lemma dec_0: "dec 0 = ''0''"
  by (simp add: dec.simps [of 0] char_of_eq_iff)

lemma digit_not_plus [simp]: "is_ascii_digit c \<Longrightarrow> c \<noteq> CHR ''+''"
  by (auto simp: is_ascii_digit_def)

lemma parse_u64_dec [simp]: "parse_u64 (dec (unat x)) = Some x"
proof -
  obtain c r where d: "dec (unat x) = c # r" by (cases "dec (unat x)") auto
  have "c \<noteq> CHR ''+''" using dec_digits [of c "unat x"] by (auto simp: d)
  moreover have "dec_value (c # r) = unat x" "list_all is_ascii_digit (c # r)"
    using dec_value_dec [of "unat x"] list_all_dec [of "unat x"] by (simp_all only: d)
  ultimately show ?thesis using unat_u64_lt [of x] by (simp add: parse_u64_def d)
qed

lemma parse_u64_bound: "parse_u64 s = Some x \<Longrightarrow> \<exists>t. list_all is_ascii_digit t \<and> t \<noteq> [] \<and> dec_value t = unat x
    \<and> (s = t \<or> s = CHR ''+'' # t)"
  by (auto simp: parse_u64_def Let_def unat_of_nat split: if_splits list.splits)

lemma length_hex [simp]: "length (hex bs) = 2 * length bs"
  by (induction bs) (simp_all add: hex_def hex2_def)

lemma hex_digit_inj: "m < 16 \<Longrightarrow> n < 16 \<Longrightarrow> hex_digit m = hex_digit n \<Longrightarrow> m = n"
proof -
  assume "m < 16" "n < 16" "hex_digit m = hex_digit n"
  then have "byte (hex_digit m) = byte (hex_digit n)" by simp
  with \<open>m < 16\<close> \<open>n < 16\<close> show ?thesis by (simp add: hex_digit_def split: if_splits)
qed

lemma hex2_inj: "hex2 a = hex2 b \<Longrightarrow> a = b"
proof -
  assume "hex2 a = hex2 b"
  then have "byte a div 16 = byte b div 16" "byte a mod 16 = byte b mod 16"
    by (auto simp: hex2_def intro!: hex_digit_inj less_mult_imp_div_less)
  then have "byte a = byte b" by (metis div_mult_mod_eq)
  then show "a = b" by simp
qed

lemma hex_inj: "hex a = hex b \<Longrightarrow> a = b"
proof (induction a arbitrary: b)
  case Nil
  then show ?case by (cases b) (auto simp: hex_def hex2_def)
next
  case (Cons x xs)
  then obtain y ys where b: "b = y # ys" by (cases b) (auto simp: hex_def hex2_def)
  from Cons.prems have "hex2 x @ hex xs = hex2 y @ hex ys" by (simp add: b hex_def)
  then have "hex2 x = hex2 y" and "hex xs = hex ys" by (simp_all add: hex2_def)
  then show ?case using Cons.IH hex2_inj by (auto simp: b)
qed

end
