(* ===== verification/Canon.thy ===== *)
theory Canon
  imports Rust_Str
begin

text \<open>
  The canonical JSON subset of the signed fleet documents (\<open>crates/blindpass-core/src/canon.rs\<close>):
  the value type, the writer (\<open>write_value\<close>, \<open>canonicalize_value\<close>) and the parser (\<open>parse_json\<close>
  with its \<open>Parser\<close> methods). The parser's state is the unread rest of the source and the number
  of values read; \<open>self.offset\<close> is the length of the source minus the length of the rest. The
  recursive parser methods take fuel; \<open>2 * len + 1\<close> is enough for every source (proved in
  \<open>Canon_Parse\<close>), and only then do they return \<^const>\<open>None\<close>.
\<close>

section \<open>Limits, errors and values\<close>

definition MAX_CANONICAL_JSON_BYTES :: nat where "MAX_CANONICAL_JSON_BYTES = 1024 * 1024"
definition MAX_DEPTH :: nat where "MAX_DEPTH = 64"
definition MAX_VALUES :: nat where "MAX_VALUES = 100000"
definition MAX_SAFE_INTEGER :: nat where "MAX_SAFE_INTEGER = 9007199254740991"

datatype canonical_error =
    TooLarge | TooDeep | TooManyValues | InvalidJson | InvalidString | InvalidNumber
  | DuplicateProperty

datatype json_value =
    Null
  | Bool bool
  | Integer i64
  | Unsigned u64
  | String string
  | Array "json_value list"
  | Object "(string \<times> json_value) list"

fun get :: "json_value \<Rightarrow> string \<Rightarrow> json_value option" where
  "get (Object fields) key = map_of fields key"
| "get _ key = None"

fun as_str :: "json_value \<Rightarrow> string option" where
  "as_str (String v) = Some v"
| "as_str _ = None"

fun as_u64 :: "json_value \<Rightarrow> u64 option" where
  "as_u64 (Unsigned v) = Some v"
| "as_u64 (Integer v) = (if 0 \<le> sint v then Some v else None)"
| "as_u64 _ = None"

fun as_object :: "json_value \<Rightarrow> (string \<times> json_value) list option" where
  "as_object (Object fields) = Some fields"
| "as_object _ = None"

fun as_array :: "json_value \<Rightarrow> json_value list option" where
  "as_array (Array vs) = Some vs"
| "as_array _ = None"

section \<open>The writer\<close>

abbreviation quote :: char where "quote \<equiv> CHR 0x22"
abbreviation backslash :: char where "backslash \<equiv> CHR 0x5C"

definition write_char :: "nat \<Rightarrow> string" where
  "write_char c =
     (if c = 0x22 then [backslash, quote]
      else if c = 0x5C then [backslash, backslash]
      else if c = 0x08 then [backslash, CHR ''b'']
      else if c = 0x09 then [backslash, CHR ''t'']
      else if c = 0x0A then [backslash, CHR ''n'']
      else if c = 0x0C then [backslash, CHR ''f'']
      else if c = 0x0D then [backslash, CHR ''r'']
      else if c \<le> 0x1F then
        [backslash, CHR ''u'', CHR ''0'', CHR ''0'', hex_digit (c div 16), hex_digit (c mod 16)]
      else utf8_encode c)"

definition write_string :: "string \<Rightarrow> string" where
  "write_string v = [quote] @ concat (map write_char (chars v)) @ [quote]"

text \<open>\<open>i64::unsigned_abs\<close> and \<open>i64::to_string\<close>.\<close>

definition unsigned_abs :: "i64 \<Rightarrow> nat" where
  "unsigned_abs v = nat \<bar>sint v\<bar>"

definition i64_to_string :: "i64 \<Rightarrow> string" where
  "i64_to_string v = (if sint v < 0 then CHR ''-'' # dec (unsigned_abs v) else dec (unsigned_abs v))"

text \<open>
  The bytes that \<open>write_value\<close> appends to its output buffer. \<open>write_items\<close> and \<open>write_members\<close>
  are its two loops; the argument \<open>previous\<close> is the loop's variable of that name and is
  \<^const>\<open>None\<close> exactly at index 0.
\<close>

function (sequential)
      write_value :: "json_value \<Rightarrow> nat \<Rightarrow> (string, canonical_error) result"
  and write_items :: "json_value list \<Rightarrow> nat \<Rightarrow> bool \<Rightarrow> (string, canonical_error) result"
  and write_members :: "(string \<times> json_value) list \<Rightarrow> nat \<Rightarrow> string option
        \<Rightarrow> (string, canonical_error) result"
where
  "write_value v depth =
     (if MAX_DEPTH < depth then Err TooDeep
      else case v of
        Null \<Rightarrow> Ok ''null''
      | Bool b \<Rightarrow> Ok (if b then ''true'' else ''false'')
      | Integer i \<Rightarrow>
          if MAX_SAFE_INTEGER < unsigned_abs i then Err InvalidNumber else Ok (i64_to_string i)
      | Unsigned u \<Rightarrow>
          if MAX_SAFE_INTEGER < unat u then Err InvalidNumber else Ok (dec (unat u))
      | String s \<Rightarrow> Ok (write_string s)
      | Array vs \<Rightarrow>
          and_then (write_items vs depth True) (\<lambda>out. Ok (''['' @ out @ '']''))
      | Object fields \<Rightarrow>
          and_then (write_members (sort_key (\<lambda>e. utf16 (fst e)) fields) depth None)
            (\<lambda>out. Ok (''{'' @ out @ ''}'')))"
| "write_items [] depth first = Ok []"
| "write_items (child # vs) depth first =
     and_then (write_value child (depth + 1)) (\<lambda>out.
     and_then (write_items vs depth False) (\<lambda>rest.
     Ok ((if first then [] else '','') @ out @ rest)))"
| "write_members [] depth previous = Ok []"
| "write_members ((key, child) # fields) depth previous =
     (if previous = Some key then Err DuplicateProperty
      else
        and_then (write_value child (depth + 1)) (\<lambda>out.
        and_then (write_members fields depth (Some key)) (\<lambda>rest.
        Ok ((if previous = None then [] else '','') @ write_string key @ '':'' @ out @ rest))))"
  by pat_completeness auto
termination
  by (relation "measure (case_sum (\<lambda>(v, d). size v)
        (case_sum (\<lambda>(vs, d, b). size_list size vs)
          (\<lambda>(fs, d, p). size_list (size_prod (\<lambda>_. 0) size) fs)))")
    (auto simp: less_Suc_eq_le)

declare write_value.simps [simp del]

definition canonicalize_value :: "json_value \<Rightarrow> (string, canonical_error) result" where
  "canonicalize_value v =
     and_then (write_value v 0) (\<lambda>output.
     and_then (reject_if (MAX_CANONICAL_JSON_BYTES < length output) TooLarge) (\<lambda>_.
     Ok output))"

section \<open>The parser\<close>

definition is_json_ws :: "char \<Rightarrow> bool" where
  "is_json_ws b \<longleftrightarrow> b = CHR '' '' \<or> b = CHR 0x0A \<or> b = CHR 0x0D \<or> b = CHR 0x09"

definition whitespace :: "string \<Rightarrow> string" where
  "whitespace s = dropWhile is_json_ws s"

fun peek :: "string \<Rightarrow> char option" where
  "peek [] = None"
| "peek (b # r) = Some b"

text \<open>\<open>consume\<close>: \<^const>\<open>Some\<close> of the rest when the expected byte is next.\<close>

fun consume :: "char \<Rightarrow> string \<Rightarrow> string option" where
  "consume e [] = None"
| "consume e (b # r) = (if b = e then Some r else None)"

definition literal :: "string \<Rightarrow> string \<Rightarrow> (string, canonical_error) result" where
  "literal lit s = (if take (length lit) s = lit then Ok (drop (length lit) s) else Err InvalidJson)"

fun hex_value :: "char \<Rightarrow> nat option" where
  "hex_value b =
     (if CHR ''0'' \<le> b \<and> b \<le> CHR ''9'' then Some (byte b - 48)
      else if CHR ''a'' \<le> b \<and> b \<le> CHR ''f'' then Some (byte b - 97 + 10)
      else if CHR ''A'' \<le> b \<and> b \<le> CHR ''F'' then Some (byte b - 65 + 10)
      else None)"

fun hex_quad :: "string \<Rightarrow> (nat \<times> string, canonical_error) result" where
  "hex_quad (a # b # c # d # r) =
     (case (hex_value a, hex_value b, hex_value c, hex_value d) of
        (Some w, Some x, Some y, Some z) \<Rightarrow> Ok (((w * 16 + x) * 16 + y) * 16 + z, r)
      | _ \<Rightarrow> Err InvalidString)"
| "hex_quad _ = Err InvalidString"

text \<open>The \<open>\u\<close> escape: one code unit, or a surrogate pair in two escapes.\<close>

definition unicode_escape :: "string \<Rightarrow> (nat \<times> string, canonical_error) result" where
  "unicode_escape s =
     and_then (hex_quad s) (\<lambda>(first, r).
     if 0xD800 \<le> first \<and> first \<le> 0xDBFF then
       and_then (ok_or (Option.bind (consume backslash r) (consume (CHR ''u''))) InvalidString) (\<lambda>r.
       and_then (hex_quad r) (\<lambda>(second, r).
       if 0xDC00 \<le> second \<and> second \<le> 0xDFFF then
         (let scalar = 0x10000 + (first - 0xD800) * 1024 + (second - 0xDC00)
          in if is_scalar scalar then Ok (scalar, r) else Err InvalidString)
       else Err InvalidString))
     else if 0xDC00 \<le> first \<and> first \<le> 0xDFFF then Err InvalidString
     else if is_scalar first then Ok (first, r) else Err InvalidString)"

text \<open>The escaped character after a backslash.\<close>

definition escape :: "string \<Rightarrow> (nat \<times> string, canonical_error) result" where
  "escape s =
     (case s of
        [] \<Rightarrow> Err InvalidString
      | e # r \<Rightarrow>
          if e = quote then Ok (0x22, r)
          else if e = backslash then Ok (0x5C, r)
          else if e = CHR ''/'' then Ok (0x2F, r)
          else if e = CHR ''b'' then Ok (0x08, r)
          else if e = CHR ''f'' then Ok (0x0C, r)
          else if e = CHR ''n'' then Ok (0x0A, r)
          else if e = CHR ''r'' then Ok (0x0D, r)
          else if e = CHR ''t'' then Ok (0x09, r)
          else if e = CHR ''u'' then unicode_escape r
          else Err InvalidString)"

text \<open>
  One turn of the loop of \<open>Parser::string\<close>: \<^const>\<open>None\<close> at the closing quote, otherwise the
  character pushed to the result, and the rest of the source.
\<close>

definition string_item :: "string \<Rightarrow> (nat option \<times> string, canonical_error) result" where
  "string_item s =
     (case s of
        [] \<Rightarrow> Err InvalidString
      | b # r \<Rightarrow>
          if b = quote then Ok (None, r)
          else if b = backslash then and_then (escape r) (\<lambda>(c, r). Ok (Some c, r))
          else if byte b \<le> 0x1F then Err InvalidString
          else if byte b \<le> 0x7F then Ok (Some (byte b), r)
          else (case utf8_next s of None \<Rightarrow> Err InvalidString | Some (c, r) \<Rightarrow> Ok (Some c, r)))"

lemma hex_quad_shorter: "hex_quad s = Ok (n, r) \<Longrightarrow> length r < length s"
  by (cases s rule: hex_quad.cases) (auto split: option.splits)

lemma consume_Some: "consume e s = Some r \<longleftrightarrow> s = e # r"
  by (cases s) auto

lemma unicode_escape_shorter: "unicode_escape s = Ok (n, r) \<Longrightarrow> length r < length s"
  by (auto simp: unicode_escape_def Let_def bind_eq_Some_conv consume_Some
      split: if_splits dest!: hex_quad_shorter)

lemma escape_shorter: "escape s = Ok (n, r) \<Longrightarrow> length r < length s"
  by (auto simp: escape_def split: list.splits if_splits dest: unicode_escape_shorter)

lemma string_item_shorter: "string_item s = Ok (x, r) \<Longrightarrow> length r < length s"
  by (auto simp: string_item_def split: list.splits if_splits option.splits
      dest: escape_shorter utf8_next_shorter)

function string_loop :: "string \<Rightarrow> string \<Rightarrow> (string \<times> string, canonical_error) result" where
  "string_loop s acc =
     (case string_item s of
        Err e \<Rightarrow> Err e
      | Ok (None, r) \<Rightarrow> Ok (acc, r)
      | Ok (Some c, r) \<Rightarrow> string_loop r (acc @ utf8_encode c))"
  by pat_completeness auto
termination
  by (relation "measure (\<lambda>(s, acc). length s)") (auto dest: string_item_shorter)

declare string_loop.simps [simp del]

definition parse_string :: "string \<Rightarrow> (string \<times> string, canonical_error) result" where
  "parse_string s = and_then (ok_or (consume quote s) InvalidString) (\<lambda>r. string_loop r [])"

definition digit_next :: "string \<Rightarrow> bool" where
  "digit_next s = (case s of b # r \<Rightarrow> is_ascii_digit b | [] \<Rightarrow> False)"

definition number :: "string \<Rightarrow> (json_value \<times> string, canonical_error) result" where
  "number s =
     (let (negative, s1) = (case consume (CHR ''-'') s of Some r \<Rightarrow> (True, r) | None \<Rightarrow> (False, s)) in
      and_then
        (case s1 of
           [] \<Rightarrow> Err InvalidNumber
         | b # r \<Rightarrow>
             if b = CHR ''0'' then (if digit_next r then Err InvalidNumber else Ok ([b], r))
             else if CHR ''1'' \<le> b \<and> b \<le> CHR ''9'' then
               Ok (b # takeWhile is_ascii_digit r, dropWhile is_ascii_digit r)
             else Err InvalidNumber)
        (\<lambda>(raw, r).
           if peek r = Some (CHR ''.'') \<or> peek r = Some (CHR ''e'') \<or> peek r = Some (CHR ''E'')
           then Err InvalidNumber
           else
             let n = dec_value raw in
             if negative then
               (if 2 ^ 63 < n then Err InvalidNumber
                else if MAX_SAFE_INTEGER < n then Err InvalidNumber
                else Ok (Integer (word_of_int (- int n)), r))
             else
               (if 2 ^ 64 \<le> n then Err InvalidNumber
                else if MAX_SAFE_INTEGER < n then Err InvalidNumber
                else Ok (Unsigned (of_nat n), r))))"

text \<open>The arms of \<open>Parser::value\<close> that read no container.\<close>

definition scalar :: "string \<Rightarrow> (json_value \<times> string, canonical_error) result" where
  "scalar s =
     (case peek s of
        None \<Rightarrow> Err InvalidJson
      | Some b \<Rightarrow>
          if b = CHR ''n'' then map_ok (\<lambda>r. (Null, r)) (literal ''null'' s)
          else if b = CHR ''t'' then map_ok (\<lambda>r. (Bool True, r)) (literal ''true'' s)
          else if b = CHR ''f'' then map_ok (\<lambda>r. (Bool False, r)) (literal ''false'' s)
          else if b = quote then map_ok (\<lambda>(str, r). (String str, r)) (parse_string s)
          else if b = CHR ''-'' \<or> is_ascii_digit b then number s
          else Err InvalidJson)"

text \<open>
  The end of a turn of the loops of \<open>Parser::array\<close> and \<open>Parser::object\<close>: whitespace, then the
  closing byte (\<^const>\<open>True\<close>) or a comma (\<^const>\<open>False\<close>).
\<close>

definition separator :: "char \<Rightarrow> string \<Rightarrow> (bool \<times> string, canonical_error) result" where
  "separator close s =
     (case consume close (whitespace s) of
        Some r \<Rightarrow> Ok (True, r)
      | None \<Rightarrow>
          (case consume (CHR '','') (whitespace s) of
             Some r \<Rightarrow> Ok (False, r)
           | None \<Rightarrow> Err InvalidJson))"

text \<open>The start of a turn of the loop of \<open>Parser::object\<close>: a fresh key and its colon.\<close>

definition member_key :: "string set \<Rightarrow> string \<Rightarrow> (string \<times> string, canonical_error) result" where
  "member_key keys s =
     and_then (reject_if (peek (whitespace s) \<noteq> Some quote) InvalidJson) (\<lambda>_.
     and_then (parse_string (whitespace s)) (\<lambda>(key, r).
     and_then (reject_if (key \<in> keys) DuplicateProperty) (\<lambda>_.
     and_then (ok_or (consume (CHR '':'') (whitespace r)) InvalidJson) (\<lambda>r.
     Ok (key, r)))))"

text \<open>
  The recursive methods. The state is the rest of the source and the count \<open>values\<close>; the loops also
  carry the values or fields read so far, and the set \<open>keys\<close> is the set of the fields' keys.
  \<^const>\<open>None\<close> is the end of the fuel.
\<close>

type_synonym parse_result = "(json_value \<times> string \<times> nat, canonical_error) result option"

definition parsed_then :: "parse_result \<Rightarrow> (json_value \<Rightarrow> string \<Rightarrow> nat \<Rightarrow> parse_result) \<Rightarrow> parse_result" where
  "parsed_then p f =
     (case p of
        None \<Rightarrow> None
      | Some (Err e) \<Rightarrow> Some (Err e)
      | Some (Ok (v, s, n)) \<Rightarrow> f v s n)"

fun parse_value :: "nat \<Rightarrow> nat \<Rightarrow> string \<Rightarrow> nat \<Rightarrow> parse_result"
  and array_loop :: "nat \<Rightarrow> nat \<Rightarrow> string \<Rightarrow> nat \<Rightarrow> json_value list \<Rightarrow> parse_result"
  and object_loop :: "nat \<Rightarrow> nat \<Rightarrow> string \<Rightarrow> nat \<Rightarrow> (string \<times> json_value) list \<Rightarrow> parse_result"
where
  "parse_value 0 depth s n = None"
| "parse_value (Suc fuel) depth s n =
     (if MAX_DEPTH < depth then Some (Err TooDeep)
      else if MAX_VALUES < n + 1 then Some (Err TooManyValues)
      else if peek (whitespace s) = Some (CHR ''['') then
        (case consume (CHR '']'') (whitespace (tl (whitespace s))) of
           Some r \<Rightarrow> Some (Ok (Array [], r, n + 1))
         | None \<Rightarrow> array_loop fuel depth (whitespace (tl (whitespace s))) (n + 1) [])
      else if peek (whitespace s) = Some (CHR ''{'') then
        (case consume (CHR ''}'') (whitespace (tl (whitespace s))) of
           Some r \<Rightarrow> Some (Ok (Object [], r, n + 1))
         | None \<Rightarrow> object_loop fuel depth (whitespace (tl (whitespace s))) (n + 1) [])
      else Some (map_ok (\<lambda>(v, r). (v, r, n + 1)) (scalar (whitespace s))))"
| "array_loop 0 depth s n vs = None"
| "array_loop (Suc fuel) depth s n vs =
     parsed_then (parse_value fuel (depth + 1) s n) (\<lambda>v s n.
       (case separator (CHR '']'') s of
          Err e \<Rightarrow> Some (Err e)
        | Ok (closed, r) \<Rightarrow>
            if closed then Some (Ok (Array (vs @ [v]), r, n))
            else array_loop fuel depth r n (vs @ [v])))"
| "object_loop 0 depth s n fields = None"
| "object_loop (Suc fuel) depth s n fields =
     (case member_key (fst ` set fields) s of
        Err e \<Rightarrow> Some (Err e)
      | Ok (key, s) \<Rightarrow>
          parsed_then (parse_value fuel (depth + 1) s n) (\<lambda>v s n.
            (case separator (CHR ''}'') s of
               Err e \<Rightarrow> Some (Err e)
             | Ok (closed, r) \<Rightarrow>
                 if closed then Some (Ok (Object (fields @ [(key, v)]), r, n))
                 else object_loop fuel depth r n (fields @ [(key, v)]))))"

definition parse_fuel :: "string \<Rightarrow> nat" where
  "parse_fuel s = 2 * length s + 1"

definition parse_json :: "string \<Rightarrow> (json_value, canonical_error) result" where
  "parse_json source =
     (if MAX_CANONICAL_JSON_BYTES < length source then Err TooLarge
      else case parse_value (parse_fuel source) 0 source 0 of
        None \<Rightarrow> Err InvalidJson
      | Some (Err e) \<Rightarrow> Err e
      | Some (Ok (v, s, n)) \<Rightarrow> if whitespace s \<noteq> [] then Err InvalidJson else Ok v)"

definition canonicalize_json :: "string \<Rightarrow> (string, canonical_error) result" where
  "canonicalize_json source = and_then (parse_json source) canonicalize_value"

end
