(* ===== verification/Canon_Parse.thy ===== *)
theory Canon_Parse
  imports Canon
begin

text \<open>
  What the parser of \<open>canon.rs\<close> guarantees: with the fuel of \<^const>\<open>parse_json\<close> it always returns,
  it reads a strict part of its source, and every value it returns is well formed (bounded depth,
  bounded number of values, safe integers, valid UTF-8, distinct keys) and has a canonical form no
  longer than the source read.
\<close>

section \<open>Measures and well-formedness of values\<close>

lemma size_snd_member [termination_simp]:
  "e \<in> set fields \<Longrightarrow> size (snd e) < Suc (size_list (size_prod (\<lambda>_. 0) size) fields)"
  by (induction fields) (auto simp: less_Suc_eq_le)

text \<open>The number of values (the writer's recursion, the parser's count \<open>values\<close>).\<close>

fun value_count :: "json_value \<Rightarrow> nat" where
  "value_count (Array vs) = Suc (sum_list (map value_count vs))"
| "value_count (Object fields) = Suc (sum_list (map (\<lambda>e. value_count (snd e)) fields))"
| "value_count _ = 1"

text \<open>The length of the canonical form.\<close>

fun written_length :: "json_value \<Rightarrow> nat" where
  "written_length Null = 4"
| "written_length (Bool b) = (if b then 4 else 5)"
| "written_length (Integer i) = length (i64_to_string i)"
| "written_length (Unsigned u) = length (dec (unat u))"
| "written_length (String s) = length (write_string s)"
| "written_length (Array vs) =
     2 + (length vs - 1) + sum_list (map written_length vs)"
| "written_length (Object fields) =
     2 + (length fields - 1)
     + sum_list (map (\<lambda>e. length (write_string (fst e)) + 1 + written_length (snd e)) fields)"

fun well_formed :: "nat \<Rightarrow> json_value \<Rightarrow> bool" where
  "well_formed d Null \<longleftrightarrow> d \<le> MAX_DEPTH"
| "well_formed d (Bool b) \<longleftrightarrow> d \<le> MAX_DEPTH"
| "well_formed d (Integer i) \<longleftrightarrow> d \<le> MAX_DEPTH \<and> unsigned_abs i \<le> MAX_SAFE_INTEGER"
| "well_formed d (Unsigned u) \<longleftrightarrow> d \<le> MAX_DEPTH \<and> unat u \<le> MAX_SAFE_INTEGER"
| "well_formed d (String s) \<longleftrightarrow> d \<le> MAX_DEPTH \<and> utf8_valid s"
| "well_formed d (Array vs) \<longleftrightarrow> d \<le> MAX_DEPTH \<and> (\<forall>v \<in> set vs. well_formed (d + 1) v)"
| "well_formed d (Object fields) \<longleftrightarrow>
     d \<le> MAX_DEPTH \<and> distinct (map fst fields) \<and>
     (\<forall>e \<in> set fields. utf8_valid (fst e) \<and> well_formed (d + 1) (snd e))"

section \<open>The scanners\<close>

lemma length_whitespace: "length (whitespace s) \<le> length s"
  by (simp add: whitespace_def length_dropWhile_le)

lemma whitespace_idem [simp]: "whitespace (whitespace s) = whitespace s"
  by (simp add: whitespace_def)

lemma peek_Some: "peek s = Some b \<longleftrightarrow> (\<exists>r. s = b # r)"
  by (cases s) auto

lemma hex_value_bound: "hex_value b = Some x \<Longrightarrow> x < 16"
  by (auto split: if_splits simp: less_eq_char_def)

lemma write_char_length: "is_scalar c \<Longrightarrow> length (write_char c) \<le> 6"
  by (auto simp: write_char_def utf8_encode_def)

lemma utf8_encode_length: "c < 0x10000 \<Longrightarrow> length (utf8_encode c) \<le> 3" "length (utf8_encode c) \<le> 4"
  by (auto simp: utf8_encode_def)

lemma hex_quad_length: "hex_quad s = Ok (x, r) \<Longrightarrow> length r + 4 \<le> length s"
  by (cases s rule: hex_quad.cases) (auto split: option.splits)

lemma unicode_escape_length: "unicode_escape s = Ok (c, r) \<Longrightarrow> length r + 4 \<le> length s"
proof (cases "hex_quad s")
  case (Ok p)
  assume u: "unicode_escape s = Ok (c, r)"
  obtain first r1 where p: "p = (first, r1)" by fastforce
  from u have "r = r1 \<or> (\<exists>x r2. r1 = backslash # CHR ''u'' # r2 \<and> hex_quad r2 = Ok (x, r))"
    by (auto simp: unicode_escape_def Let_def bind_eq_Some_conv consume_Some Ok p split: if_splits)
  then have "length r \<le> length r1" by (auto dest: hex_quad_length)
  with Ok p show ?thesis using hex_quad_length by fastforce
qed (simp add: unicode_escape_def)

lemma unicode_escape_scalar: "unicode_escape s = Ok (c, r) \<Longrightarrow> is_scalar c"
  by (auto simp: unicode_escape_def Let_def split: if_splits)

lemma unicode_escape_Ok:
  assumes "unicode_escape s = Ok (c, r)"
  shows "is_scalar c \<and> length (write_char c) + length r \<le> length s + 2"
  using unicode_escape_scalar [OF assms] unicode_escape_length [OF assms] write_char_length [of c]
  by simp

lemma escape_Ok:
  assumes "escape s = Ok (c, r)"
  shows "is_scalar c \<and> length (write_char c) + length r \<le> length s + 1"
  using assms
  by (auto simp: escape_def is_scalar_def write_char_def utf8_encode_def split: list.splits if_splits
      dest!: unicode_escape_Ok)

lemma byte_special [simp]: "byte b = 34 \<longleftrightarrow> b = quote" "byte b = 92 \<longleftrightarrow> b = backslash"
proof -
  have "byte quote = 34" "byte backslash = 92" by simp_all
  then show "byte b = 34 \<longleftrightarrow> b = quote" "byte b = 92 \<longleftrightarrow> b = backslash"
    by (metis of_char_eq_iff)+
qed

lemma string_item_Ok:
  assumes "string_item s = Ok (Some c, r)"
  shows "is_scalar c \<and> length (write_char c) + length r \<le> length s"
  using assms
  by (auto simp: string_item_def is_scalar_def write_char_def utf8_encode_byte utf8_encode_def
      split: list.splits if_splits option.splits dest!: escape_Ok utf8_next_SomeD)

lemma string_loop_Ok:
  "string_loop s acc = Ok (t, r) \<Longrightarrow>
     \<exists>cs. (\<forall>c \<in> set cs. is_scalar c) \<and> t = acc @ utf8_string cs \<and>
       length (concat (map write_char cs)) + 1 + length r \<le> length s"
proof (induction s acc rule: string_loop.induct)
  case (1 s acc)
  show ?case
  proof (cases "string_item s")
    case (Ok p)
    obtain x r1 where p: "p = (x, r1)" by fastforce
    show ?thesis
    proof (cases x)
      case None
      with "1.prems" Ok p string_item_shorter show ?thesis
        by (fastforce simp: string_loop.simps [of s] intro!: exI [of _ "[]"])
    next
      case (Some c)
      then have "string_loop r1 (acc @ utf8_encode c) = Ok (t, r)"
        using "1.prems" Ok p by (simp add: string_loop.simps [of s])
      with "1.IH" Ok p Some obtain cs where
        "\<forall>c \<in> set cs. is_scalar c" "t = acc @ utf8_string (c # cs)"
        "length (concat (map write_char cs)) + 1 + length r \<le> length r1" by fastforce
      moreover from string_item_Ok [of s c r1] Ok p Some
      have "is_scalar c" "length (write_char c) + length r1 \<le> length s" by simp_all
      ultimately show ?thesis by (intro exI [of _ "c # cs"]) simp
    qed
  next
    case (Err e)
    with "1.prems" show ?thesis by (simp add: string_loop.simps [of s])
  qed
qed

lemma parse_string_Ok:
  assumes "parse_string s = Ok (t, r)"
  shows "utf8_valid t" "length (write_string t) + length r \<le> length s"
proof -
  from assms obtain s1 where s: "s = quote # s1" and "string_loop s1 [] = Ok (t, r)"
    by (auto simp: parse_string_def consume_Some)
  from string_loop_Ok [OF this(2)] obtain cs where
    "\<forall>c \<in> set cs. is_scalar c" "t = utf8_string cs"
    "length (concat (map write_char cs)) + 1 + length r \<le> length s1" by auto
  with s show "utf8_valid t" "length (write_string t) + length r \<le> length s"
    by (simp_all add: write_string_def)
qed

text \<open>Decimal text is never longer than the digits it was read from.\<close>

lemma dec_length_mono: "m \<le> n \<Longrightarrow> length (dec m) \<le> length (dec n)"
proof (induction n arbitrary: m rule: dec.induct)
  case (1 n)
  show ?case
  proof (cases "n < 10")
    case True
    with "1.prems" show ?thesis by (simp add: dec.simps [of m] dec.simps [of n])
  next
    case False
    then have "length (dec (m div 10)) \<le> length (dec (n div 10))"
      using "1.IH" "1.prems" by (simp add: div_le_mono)
    with False show ?thesis by (simp add: dec.simps [of m] dec.simps [of n])
  qed
qed

lemma dec_length_power: "n < 10 ^ k \<Longrightarrow> 0 < k \<Longrightarrow> length (dec n) \<le> k"
proof (induction k arbitrary: n)
  case (Suc k)
  show ?case
  proof (cases "n < 10")
    case False
    then have "n div 10 < 10 ^ k" "0 < k" using Suc.prems by (auto intro!: less_mult_imp_div_less Suc_leI gr0I)
    with Suc.IH False show ?thesis by (simp add: dec.simps [of n])
  qed (simp add: dec.simps [of n])
qed simp

lemma dec_value_bound: "list_all is_ascii_digit s \<Longrightarrow> dec_value s < 10 ^ length s"
proof (induction s rule: rev_induct)
  case (snoc c s)
  then have "byte c - 48 < 10" by (auto simp: is_ascii_digit_def less_eq_char_def)
  with snoc show ?case by (simp add: dec_value_snoc)
qed simp

lemma length_dec_dec_value:
  "list_all is_ascii_digit s \<Longrightarrow> s \<noteq> [] \<Longrightarrow> length (dec (dec_value s)) \<le> length s"
  by (simp add: dec_length_power dec_value_bound)

lemma number_text:
  assumes "number s = Ok (v, r)"
  shows "\<exists>raw. raw \<noteq> [] \<and> list_all is_ascii_digit raw \<and> dec_value raw \<le> MAX_SAFE_INTEGER \<and>
    (v = Unsigned (of_nat (dec_value raw)) \<and> s = raw @ r \<or>
     v = Integer (word_of_int (- int (dec_value raw))) \<and> s = CHR ''-'' # raw @ r)"
proof -
  define neg s1 where "neg = (consume (CHR ''-'') s \<noteq> None)"
    and "s1 = (case consume (CHR ''-'') s of Some r \<Rightarrow> r | None \<Rightarrow> s)"
  have s: "s = (if neg then CHR ''-'' # s1 else s1)"
    by (auto simp: neg_def s1_def consume_Some split: option.splits)
  have "(case consume (CHR ''-'') s of Some r \<Rightarrow> (True, r) | None \<Rightarrow> (False, s)) = (neg, s1)"
    by (auto simp: neg_def s1_def split: option.splits)
  with assms obtain raw where raw: "dec_value raw \<le> MAX_SAFE_INTEGER"
      "v = (if neg then Integer (word_of_int (- int (dec_value raw)))
            else Unsigned (of_nat (dec_value raw)))"
    and s1: "\<exists>b t. s1 = b # t \<and> (b = CHR ''0'' \<and> raw = [b] \<and> r = t \<or>
      CHR ''1'' \<le> b \<and> b \<le> CHR ''9'' \<and> raw = b # takeWhile is_ascii_digit t \<and> r = dropWhile is_ascii_digit t)"
    by (auto simp: number_def Let_def split: list.splits if_splits)
  have digit: "CHR ''1'' \<le> b \<Longrightarrow> b \<le> CHR ''9'' \<Longrightarrow> is_ascii_digit b" "is_ascii_digit CHR ''0''" for b
    by (auto simp: is_ascii_digit_def less_eq_char_def)
  from s1 digit have "s1 = raw @ r" "raw \<noteq> []" "list_all is_ascii_digit raw"
    by (auto simp: list_all_iff dest: set_takeWhileD)
  with raw s show ?thesis by (intro exI [of _ raw]) auto
qed

lemma unsigned_abs_neg:
  assumes "n \<le> MAX_SAFE_INTEGER"
  shows "unsigned_abs (- of_nat n) = n" "sint (- of_nat n :: i64) = - int n"
proof -
  have "sint (word_of_int (- int n) :: i64) = - int n"
    using assms by (intro sint_of_i64) (auto simp: MAX_SAFE_INTEGER_def i64_min_def i64_max_def)
  then show "sint (- of_nat n :: i64) = - int n" by simp
  then show "unsigned_abs (- of_nat n) = n" by (simp add: unsigned_abs_def)
qed

lemma unat_safe: "n \<le> MAX_SAFE_INTEGER \<Longrightarrow> unat (of_nat n :: u64) = n"
  by (simp add: MAX_SAFE_INTEGER_def unsigned_of_nat take_bit_nat_eq_self)

lemma number_Ok:
  assumes "number s = Ok (v, r)"
  shows "d \<le> MAX_DEPTH \<Longrightarrow> well_formed d v" "value_count v = 1"
    "written_length v + length r \<le> length s"
proof -
  obtain raw where raw: "raw \<noteq> []" "list_all is_ascii_digit raw" "dec_value raw \<le> MAX_SAFE_INTEGER"
    and "v = Unsigned (of_nat (dec_value raw)) \<and> s = raw @ r \<or>
     v = Integer (word_of_int (- int (dec_value raw))) \<and> s = CHR ''-'' # raw @ r"
    using number_text [OF assms] by blast
  then show "d \<le> MAX_DEPTH \<Longrightarrow> well_formed d v" "value_count v = 1"
    "written_length v + length r \<le> length s"
    using length_dec_dec_value [OF raw(2,1)]
    by (auto simp: unat_safe unsigned_abs_neg i64_to_string_def unsigned_abs_def)
qed

lemma literal_Ok: "literal l s = Ok r \<Longrightarrow> s = l @ r"
  by (auto simp: literal_def split: if_splits) (metis append_take_drop_id)

lemma scalar_cases:
  assumes "scalar s = Ok (v, r)"
  obtains (null) "v = Null" "s = ''null'' @ r"
    | (true) "v = Bool True" "s = ''true'' @ r"
    | (false) "v = Bool False" "s = ''false'' @ r"
    | (string) t where "v = String t" "parse_string s = Ok (t, r)"
    | (number) "number s = Ok (v, r)"
  using assms by (auto simp: scalar_def split: option.splits if_splits dest!: literal_Ok)

lemma scalar_Ok:
  assumes "scalar s = Ok (v, r)"
  shows "d \<le> MAX_DEPTH \<Longrightarrow> well_formed d v" "value_count v = 1"
    "written_length v + length r \<le> length s"
  using assms by (cases rule: scalar_cases; simp add: parse_string_Ok number_Ok)+

lemma written_length_pos: "0 < written_length v"
  by (cases v) (auto simp: i64_to_string_def write_string_def)

lemma scalar_shorter: "scalar s = Ok (v, r) \<Longrightarrow> length r < length s"
  using scalar_Ok(3) [of s v r] written_length_pos [of v] by simp

lemma length_whitespace_Cons: "whitespace s = b # r \<Longrightarrow> length r < length s"
  using length_whitespace [of s] by simp

lemma separator_shorter: "separator c s = Ok (x, r) \<Longrightarrow> length r < length s"
  by (auto simp: separator_def consume_Some split: option.splits dest: length_whitespace_Cons)

lemma member_key_Ok:
  assumes "member_key keys s = Ok (key, r)"
  shows "utf8_valid key" "key \<notin> keys" "length (write_string key) + 1 + length r \<le> length s"
proof -
  from assms obtain r1 where p: "parse_string (whitespace s) = Ok (key, r1)"
    and w: "whitespace r1 = CHR '':'' # r" and "key \<notin> keys"
    by (auto simp: member_key_def consume_Some)
  then show "utf8_valid key" "key \<notin> keys" by (auto dest: parse_string_Ok)
  show "length (write_string key) + 1 + length r \<le> length s"
    using parse_string_Ok(2) [OF p] length_whitespace_Cons [OF w] length_whitespace [of s] by linarith
qed

section \<open>The fuel is enough\<close>

text \<open>The parse returned, and what it left unread is shorter than \<open>l\<close>.\<close>

definition returns_within :: "nat \<Rightarrow> parse_result \<Rightarrow> bool" where
  "returns_within l p \<longleftrightarrow>
     (case p of None \<Rightarrow> False | Some (Err e) \<Rightarrow> True | Some (Ok (v, s, n)) \<Rightarrow> length s < l)"

lemma returns_within_simps [simp]:
  "returns_within l (Some (Err e))" "\<not> returns_within l None"
  "returns_within l (Some (Ok (v, s, n))) \<longleftrightarrow> length s < l"
  by (simp_all add: returns_within_def)

lemma returns_within_mono: "returns_within k p \<Longrightarrow> k \<le> l \<Longrightarrow> returns_within l p"
  by (auto simp: returns_within_def split: option.splits result.splits)

lemma returns_within_parsed_then:
  "returns_within l p \<Longrightarrow> (\<And>v s n. p = Some (Ok (v, s, n)) \<Longrightarrow> length s < l \<Longrightarrow> returns_within m (f v s n))
    \<Longrightarrow> returns_within m (parsed_then p f)"
  by (auto simp: returns_within_def parsed_then_def split: option.splits result.splits prod.splits)

lemma returns_within_map_ok:
  "(\<And>v s n. r = Ok (v, s) \<Longrightarrow> length s < l) \<Longrightarrow> returns_within l (Some (map_ok (\<lambda>(v, s). (v, s, n)) r))"
  by (cases r) auto

lemma returns_within_separator:
  "length s \<le> l \<Longrightarrow> (\<And>r. separator c s = Ok (False, r) \<Longrightarrow> length r < length s \<Longrightarrow> returns_within l (g r))
    \<Longrightarrow> returns_within l
      (case separator c s of
         Err e \<Rightarrow> Some (Err e)
       | Ok (closed, r) \<Rightarrow> if closed then Some (Ok (v, r, n)) else g r)"
  by (auto split: result.splits dest: separator_shorter)

lemma parse_returns:
  "2 * length s + 1 \<le> fuel \<Longrightarrow> returns_within (length s) (parse_value fuel depth s n)"
  "2 * length s + 2 \<le> fuel \<Longrightarrow> returns_within (length s) (array_loop fuel depth s n vs)"
  "2 * length s + 2 \<le> fuel \<Longrightarrow> returns_within (length s) (object_loop fuel depth s n fields)"
proof (induction fuel depth s n and fuel depth s n vs and fuel depth s n fields
    rule: parse_value_array_loop_object_loop.induct)
  case (2 fuel depth s n)
  have ws: "2 * length (whitespace r) + 2 \<le> 2 * length s" if "whitespace s = b # r" for b r
    using length_whitespace_Cons [OF that] length_whitespace [of r] by linarith
  have inner: "returns_within (length s) p"
    if "whitespace s = b # r" "returns_within (length (whitespace r)) p" for b r p
    using returns_within_mono [OF that(2)] ws [OF that(1)] by simp
  have scalar: "length r < length s" if "scalar (whitespace s) = Ok (v, r)" for v r
    using scalar_shorter [OF that] length_whitespace [of s] by linarith
  consider r where "whitespace s = CHR ''['' # r" | r where "whitespace s = CHR ''{'' # r"
    | "\<forall>r. whitespace s \<noteq> CHR ''['' # r \<and> whitespace s \<noteq> CHR ''{'' # r" by blast
  then show ?case
  proof cases
    case 1
    with "2.IH"(1) "2.prems" inner [OF 1] ws [OF 1] show ?thesis
      by (auto simp: consume_Some split: option.splits)
  next
    case 2
    with "2.IH"(2) "2.prems" inner [OF 2] ws [OF 2] show ?thesis
      by (auto simp: consume_Some split: option.splits)
  next
    case 3
    then show ?thesis by (auto simp: peek_Some scalar intro!: returns_within_map_ok)
  qed
next
  case (4 fuel depth s n vs)
  show ?case
    unfolding array_loop.simps
  proof (intro returns_within_parsed_then [of "length s"] returns_within_separator)
    show "returns_within (length s) (parse_value fuel (depth + 1) s n)" using 4 by simp
  next
    fix v s1 n1 r
    assume "length s1 < length s" "separator CHR '']'' s1 = Ok (False, r)" "length r < length s1"
    with "4.prems" show "returns_within (length s) (array_loop fuel depth r n1 (vs @ [v]))"
      by (intro returns_within_mono [OF "4.IH"(2)]) auto
  qed simp
next
  case (6 fuel depth s n fields)
  show ?case
  proof (cases "member_key (fst ` set fields) s")
    case (Ok p)
    obtain key s1 where p: "p = (key, s1)" by fastforce
    with Ok member_key_Ok(3) have s1: "length s1 < length s" by fastforce
    have "returns_within (length s)
        (parsed_then (parse_value fuel (depth + 1) s1 n) (\<lambda>v s n.
            (case separator (CHR ''}'') s of
               Err e \<Rightarrow> Some (Err e)
             | Ok (closed, r) \<Rightarrow>
                 if closed then Some (Ok (Object (fields @ [(key, v)]), r, n))
                 else object_loop fuel depth r n (fields @ [(key, v)]))))"
    proof (intro returns_within_parsed_then [of "length s1"] returns_within_separator)
      show "returns_within (length s1) (parse_value fuel (depth + 1) s1 n)"
        using "6.IH"(1) [OF Ok] "6.prems" p s1 by simp
    next
      fix v s2 n2 r
      assume "length s2 < length s1" "separator CHR ''}'' s2 = Ok (False, r)" "length r < length s2"
      with "6.prems" s1
      show "returns_within (length s) (object_loop fuel depth r n2 (fields @ [(key, v)]))"
        by (intro returns_within_mono [OF "6.IH"(2) [OF Ok p [symmetric]]]) auto
    qed (use s1 in simp)
    with Ok p show ?thesis by simp
  qed simp
qed auto

section \<open>What is parsed is well formed\<close>

lemma parsed_then_Ok:
  "parsed_then p f = Some (Ok x) \<longleftrightarrow> (\<exists>v s n. p = Some (Ok (v, s, n)) \<and> f v s n = Some (Ok x))"
  by (auto simp: parsed_then_def split: option.splits result.splits)

lemma separator_case_Ok:
  "(case separator c s of
      Err e \<Rightarrow> Some (Err e)
    | Ok (closed, r) \<Rightarrow> if closed then Some (Ok (v, r, n)) else g r) = Some (Ok x) \<longleftrightarrow>
   (\<exists>r. separator c s = Ok (True, r) \<and> x = (v, r, n)) \<or> (\<exists>r. separator c s = Ok (False, r) \<and> g r = Some (Ok x))"
  by (auto split: result.splits)

abbreviation items_ok :: "nat \<Rightarrow> nat \<Rightarrow> nat \<Rightarrow> nat \<Rightarrow> nat \<Rightarrow> json_value list \<Rightarrow> bool" where
  "items_ok d k n l m ws \<equiv>
     ws \<noteq> [] \<and> (\<forall>w \<in> set ws. well_formed (d + 1) w) \<and> k = n + sum_list (map value_count ws) \<and>
     k \<le> MAX_VALUES \<and> sum_list (map written_length ws) + length ws + l \<le> m"

abbreviation members_ok :: "nat \<Rightarrow> nat \<Rightarrow> nat \<Rightarrow> nat \<Rightarrow> nat \<Rightarrow> (string \<times> json_value) list \<Rightarrow> bool" where
  "members_ok d k n l m ws \<equiv>
     ws \<noteq> [] \<and> (\<forall>e \<in> set ws. utf8_valid (fst e) \<and> well_formed (d + 1) (snd e)) \<and>
     k = n + sum_list (map (\<lambda>e. value_count (snd e)) ws) \<and> k \<le> MAX_VALUES \<and>
     sum_list (map (\<lambda>e. length (write_string (fst e)) + 1 + written_length (snd e)) ws)
       + length ws + l \<le> m"

lemma parse_value_Ok:
  "parse_value fuel d s n = Some (Ok (v, r, k)) \<Longrightarrow>
     well_formed d v \<and> k = n + value_count v \<and> k \<le> MAX_VALUES \<and>
     written_length v + length r \<le> length s"
  "array_loop fuel d s n vs = Some (Ok (v, r, k)) \<Longrightarrow>
     \<exists>ws. v = Array (vs @ ws) \<and> items_ok d k n (length r) (length s) ws"
  "object_loop fuel d s n fields = Some (Ok (v, r, k)) \<Longrightarrow> distinct (map fst fields) \<Longrightarrow>
     \<exists>ws. v = Object (fields @ ws) \<and> distinct (map fst (fields @ ws)) \<and>
       members_ok d k n (length r) (length s) ws"
proof (induction fuel d s n and fuel d s n vs and fuel d s n fields
    arbitrary: v r k and v r k and v r k
    rule: parse_value_array_loop_object_loop.induct)
  case (2 fuel d s n)
  from "2.prems" have d: "d \<le> MAX_DEPTH" and n: "n + 1 \<le> MAX_VALUES" by (auto split: if_splits)
  have ws: "length (whitespace t) + 1 \<le> length s" if "whitespace s = b # t" for b t
    using length_whitespace_Cons [OF that] length_whitespace [of t] by linarith
  consider t where "whitespace s = CHR ''['' # t" | t where "whitespace s = CHR ''{'' # t"
    | "\<forall>t. whitespace s \<noteq> CHR ''['' # t \<and> whitespace s \<noteq> CHR ''{'' # t" by blast
  then show ?case
  proof cases
    case 1
    show ?thesis
    proof (cases "consume CHR '']'' (whitespace t)")
      case None
      with 1 d n "2.prems" have l: "array_loop fuel d (whitespace t) (n + 1) [] = Some (Ok (v, r, k))" by simp
      from "2.IH"(1) [of v r k] 1 d n None l obtain ws where "v = Array ws"
        "items_ok d k (n + 1) (length r) (length (whitespace t)) ws" by auto
      with d ws [OF 1] show ?thesis by (auto simp: Suc_le_eq)
    next
      case (Some t1)
      with 1 d n "2.prems" ws [OF 1] show ?thesis by (auto simp: consume_Some)
    qed
  next
    case 2
    show ?thesis
    proof (cases "consume CHR ''}'' (whitespace t)")
      case None
      with 2 d n "2.prems" have l: "object_loop fuel d (whitespace t) (n + 1) [] = Some (Ok (v, r, k))" by simp
      from "2.IH"(2) [of v r k] 2 d n None l obtain ws where "v = Object ws" "distinct (map fst ws)"
        "members_ok d k (n + 1) (length r) (length (whitespace t)) ws" by auto
      with d ws [OF 2] show ?thesis by (auto simp: Suc_le_eq)
    next
      case (Some t1)
      with 2 d n "2.prems" ws [OF 2] show ?thesis by (auto simp: consume_Some)
    qed
  next
    case 3
    with "2.prems" d n have "scalar (whitespace s) = Ok (v, r)" "k = n + 1" by (auto simp: peek_Some)
    with scalar_Ok [of "whitespace s" v r] d n length_whitespace [of s] show ?thesis by simp
  qed
next
  case (4 fuel d s n vs)
  from "4.prems" obtain w s1 n1 where p: "parse_value fuel (d + 1) s n = Some (Ok (w, s1, n1))"
    and sep: "separator CHR '']'' s1 = Ok (True, r) \<and> (v, k) = (Array (vs @ [w]), n1) \<or>
      (\<exists>t. separator CHR '']'' s1 = Ok (False, t) \<and> array_loop fuel d t n1 (vs @ [w]) = Some (Ok (v, r, k)))"
    by (auto simp: parsed_then_Ok separator_case_Ok)
  note w = "4.IH"(1) [OF p]
  from sep show ?case
  proof (elim disjE exE)
    assume "separator CHR '']'' s1 = Ok (True, r) \<and> (v, k) = (Array (vs @ [w]), n1)"
    with w show ?thesis by (intro exI [of _ "[w]"]) (auto dest: separator_shorter)
  next
    fix t assume "separator CHR '']'' s1 = Ok (False, t) \<and> array_loop fuel d t n1 (vs @ [w]) = Some (Ok (v, r, k))"
    with "4.IH"(2) [of s1 "(False, t)" False t n1 w v r k] obtain ws where
      "v = Array ((vs @ [w]) @ ws)" "items_ok d k n1 (length r) (length t) ws" "length t < length s1"
      by (auto dest: separator_shorter)
    with w show ?thesis by (intro exI [of _ "w # ws"]) auto
  qed
next
  case (6 fuel d s n fields)
  from "6.prems" obtain key s0 w s1 n1 where mk: "member_key (fst ` set fields) s = Ok (key, s0)"
    and p: "parse_value fuel (d + 1) s0 n = Some (Ok (w, s1, n1))"
    and sep: "separator CHR ''}'' s1 = Ok (True, r) \<and> (v, k) = (Object (fields @ [(key, w)]), n1) \<or>
      (\<exists>t. separator CHR ''}'' s1 = Ok (False, t) \<and>
         object_loop fuel d t n1 (fields @ [(key, w)]) = Some (Ok (v, r, k)))"
    by (auto simp: parsed_then_Ok separator_case_Ok split: result.splits)
  note w = "6.IH"(1) [OF mk refl p] and key = member_key_Ok [OF mk]
  have dist: "distinct (map fst (fields @ [(key, w)]))" using "6.prems"(2) key(2) by simp
  from sep show ?case
  proof (elim disjE exE)
    assume "separator CHR ''}'' s1 = Ok (True, r) \<and> (v, k) = (Object (fields @ [(key, w)]), n1)"
    with w key dist show ?thesis by (intro exI [of _ "[(key, w)]"]) (auto dest: separator_shorter)
  next
    fix t assume "separator CHR ''}'' s1 = Ok (False, t) \<and>
      object_loop fuel d t n1 (fields @ [(key, w)]) = Some (Ok (v, r, k))"
    with "6.IH"(2) [OF mk refl, of s1 "(False, t)" False t n1 w v r k] dist obtain ws where
      "v = Object ((fields @ [(key, w)]) @ ws)" "distinct (map fst ((fields @ [(key, w)]) @ ws))"
      "members_ok d k n1 (length r) (length t) ws" "length t < length s1"
      by (auto dest: separator_shorter)
    with w key show ?thesis by (intro exI [of _ "(key, w) # ws"]) auto
  qed
qed auto

section \<open>The entry point\<close>

lemma parse_json_Ok:
  assumes "parse_json s = Ok v"
  shows "well_formed 0 v" "value_count v \<le> MAX_VALUES" "written_length v \<le> length s"
    "length s \<le> MAX_CANONICAL_JSON_BYTES"
proof -
  from assms obtain r n where "parse_value (parse_fuel s) 0 s 0 = Some (Ok (v, r, n))"
    and l: "length s \<le> MAX_CANONICAL_JSON_BYTES"
    by (auto simp: parse_json_def split: if_splits option.splits result.splits)
  from parse_value_Ok(1) [OF this(1)] l
  show "well_formed 0 v" "value_count v \<le> MAX_VALUES" "written_length v \<le> length s"
    "length s \<le> MAX_CANONICAL_JSON_BYTES" by simp_all
qed

end
