(* ===== verification/Canon_Roundtrip.thy ===== *)
theory Canon_Roundtrip
  imports Canon_Parse
begin

text \<open>
  Round trips of \<open>canon.rs\<close>: the parser reads back what the writer wrote, up to the order of the
  members and the constructor of a non-negative integer; canonicalising twice changes nothing; and
  two values have the same canonical bytes exactly when they are equal up to that.
\<close>

section \<open>Values up to what canonical bytes do not show\<close>

lemma json_induct [case_names Null Bool Integer Unsigned String Array Object]:
  assumes "P Null" "\<And>b. P (Bool b)" "\<And>i. P (Integer i)" "\<And>u. P (Unsigned u)" "\<And>s. P (String s)"
    "\<And>vs. (\<And>v. v \<in> set vs \<Longrightarrow> P v) \<Longrightarrow> P (Array vs)"
    "\<And>fields. (\<And>e. e \<in> set fields \<Longrightarrow> P (snd e)) \<Longrightarrow> P (Object fields)"
  shows "P v"
proof (induction v)
  case (Object fields)
  then show ?case by (intro assms(7)) (auto elim: snds.cases)
qed (use assms in auto)

fun norm :: "json_value \<Rightarrow> json_value" where
  "norm (Integer i) = (if 0 \<le> sint i then Unsigned i else Integer i)"
| "norm (Array vs) = Array (map norm vs)"
| "norm (Object fields) =
     Object (sort_key (\<lambda>e. utf16 (fst e)) (map (\<lambda>e. (fst e, norm (snd e))) fields))"
| "norm v = v"

abbreviation by_key :: "(string \<times> 'a) list \<Rightarrow> (string \<times> 'a) list" where
  "by_key \<equiv> sort_key (\<lambda>e. utf16 (fst e))"

abbreviation norm_member :: "string \<times> json_value \<Rightarrow> string \<times> json_value" where
  "norm_member \<equiv> \<lambda>e. (fst e, norm (snd e))"

lemma insort_key_map: "(\<And>x. k (h x) = k' x) \<Longrightarrow> insort_key k (h x) (map h xs) = map h (insort_key k' x xs)"
  by (induction xs) auto

lemma sort_key_map: "(\<And>x. k (h x) = k' x) \<Longrightarrow> sort_key k (map h xs) = map h (sort_key k' xs)"
  by (induction xs) (auto simp: insort_key_map)

lemma norm_Object: "norm (Object fields) = Object (map norm_member (by_key fields))"
  by (simp add: sort_key_map [where k' = "\<lambda>e. utf16 (fst e)"])

lemma by_key_by_key [simp]: "by_key (by_key xs) = by_key xs"
  by (simp add: sort_key_id_if_sorted)

lemma norm_norm [simp]: "norm (norm v) = norm v"
proof (induction v rule: json_induct)
  case (Object fields)
  have "norm (norm (Object fields)) = Object (map norm_member (by_key (map norm_member (by_key fields))))"
    by (simp only: norm_Object)
  also have "\<dots> = Object (map norm_member (map norm_member (by_key fields)))"
    by (simp add: sort_key_map [where k' = "\<lambda>e. utf16 (fst e)"])
  also have "\<dots> = norm (Object fields)"
    using Object by (auto simp: norm_Object simp del: norm.simps)
  finally show ?case .
qed auto

lemma sum_list_sort_key: "sum_list (map f (sort_key k xs)) = (sum_list (map f xs) :: nat)"
proof -
  have "sum_mset (mset (map f (sort_key k xs))) = sum_mset (mset (map f xs))" by simp
  then show ?thesis by (simp only: sum_mset_sum_list)
qed

lemma value_count_norm [simp]: "value_count (norm v) = value_count v"
proof (induction v rule: json_induct)
  case (Object fields)
  then show ?case
    by (simp add: norm_Object sum_list_sort_key [where f = "\<lambda>e. value_count (norm (snd e))"] o_def
        cong: map_cong del: norm.simps)
next
  case (Array vs)
  then show ?case by (simp add: o_def cong: map_cong)
qed auto

section \<open>The writer as joined parts\<close>

lemma sint_nonneg_unat: "0 \<le> sint (i :: i64) \<Longrightarrow> nat (sint i) = unat i"
proof -
  assume "0 \<le> sint i"
  moreover have "sint i < 2 ^ 64" using sint_i64_range(2) [of i] by (simp add: i64_max_def)
  ultimately have "uint i = sint i" by (simp add: uint_sint take_bit_int_eq_self)
  then show ?thesis by (metis unat_eq_nat_uint)
qed

lemma write_items_False:
  "write_items (v # vs) d False = map_ok (Cons CHR '','') (write_items (v # vs) d True)"
  by (cases "write_value v (d + 1)"; cases "write_items vs d False") auto

lemma join_Cons: "ys \<noteq> [] \<Longrightarrow> join sep (x # ys) = x @ sep @ join sep ys"
  by (cases ys) auto

lemma collect_results_ne: "collect_results f xs = Ok ys \<Longrightarrow> xs \<noteq> [] \<Longrightarrow> ys \<noteq> []"
  by (cases xs) auto

lemma write_items_join:
  "write_items vs d True = map_ok (join '','') (collect_results (\<lambda>c. write_value c (d + 1)) vs)"
proof (induction vs)
  case (Cons v vs)
  show ?case
  proof (cases "vs = []")
    case True
    then show ?thesis by (cases "write_value v (d + 1)") auto
  next
    case False
    then have "write_items vs d False = map_ok (Cons CHR '','') (write_items vs d True)"
      by (metis list.exhaust write_items_False)
    with Cons.IH False show ?thesis
      by (cases "write_value v (d + 1)"; cases "collect_results (\<lambda>c. write_value c (d + 1)) vs")
        (auto simp: join_Cons dest: collect_results_ne)
  qed
qed simp

definition write_member :: "nat \<Rightarrow> string \<times> json_value \<Rightarrow> (string, canonical_error) result" where
  "write_member d e = map_ok (\<lambda>out. write_string (fst e) @ '':'' @ out) (write_value (snd e) (d + 1))"

lemma write_members_Some:
  "fs \<noteq> [] \<Longrightarrow> k \<notin> fst ` set fs \<Longrightarrow>
     write_members fs d (Some k) = map_ok (Cons CHR '','') (write_members fs d None)"
  by (cases fs; cases "write_value (snd (hd fs)) (d + 1)"; cases "write_members (tl fs) d (Some (fst (hd fs)))") auto

lemma write_members_join:
  "distinct (map fst fs) \<Longrightarrow>
   write_members fs d None = map_ok (join '','') (collect_results (write_member d) fs)"
proof (induction fs)
  case (Cons e fs)
  obtain key v where e: "e = (key, v)" by fastforce
  have m: "write_member d e = map_ok (\<lambda>out. write_string key @ '':'' @ out) (write_value v (d + 1))"
    by (simp add: write_member_def e)
  show ?case
  proof (cases "fs = []")
    case True
    with m e show ?thesis by (cases "write_value v (d + 1)") auto
  next
    case False
    with Cons e have "write_members fs d (Some key) =
        map_ok (Cons CHR '','') (map_ok (join '','') (collect_results (write_member d) fs))"
      by (simp add: write_members_Some)
    with False e m show ?thesis
      by (cases "write_value v (d + 1)"; cases "collect_results (write_member d) fs")
        (auto simp: join_Cons dest: collect_results_ne)
  qed
qed simp

text \<open>Adjacent equal keys are all equal keys, once the members are sorted.\<close>

lemma write_members_distinct:
  "write_members fs d prev = Ok out \<Longrightarrow> sorted (map (\<lambda>e. utf16 (fst e)) fs) \<Longrightarrow>
   \<forall>e \<in> set fs. utf8_valid (fst e) \<Longrightarrow>
   \<forall>k. prev = Some k \<longrightarrow> utf8_valid k \<and> (\<forall>e \<in> set fs. utf16 k \<le> utf16 (fst e)) \<Longrightarrow>
   distinct (map fst fs) \<and> (\<forall>k. prev = Some k \<longrightarrow> k \<notin> fst ` set fs)"
proof (induction fs arbitrary: prev out)
  case (Cons e fs)
  obtain key v where e: "e = (key, v)" by fastforce
  from Cons.prems(1) e obtain rest where "write_members fs d (Some key) = Ok rest" and ne: "prev \<noteq> Some key"
    by (auto split: if_splits)
  from Cons.IH [OF this(1)] Cons.prems e
  have *: "distinct (map fst fs)" "key \<notin> fst ` set fs" by auto
  have "k \<notin> fst ` set fs" if "prev = Some k" for k
  proof
    assume "k \<in> fst ` set fs"
    then have "utf16 key \<le> utf16 k" using Cons.prems(2) e by auto
    moreover have "utf16 k \<le> utf16 key" "utf8_valid k" "utf8_valid key" using that Cons.prems e by auto
    ultimately have "k = key" by (intro utf16_inj) auto
    with that ne show False by simp
  qed
  with * ne e show ?case by auto
qed simp

lemma write_value_Object:
  assumes "distinct (map fst fields)" "d \<le> MAX_DEPTH"
  shows "write_value (Object fields) d =
    map_ok (\<lambda>out. ''{'' @ join '','' out @ ''}'') (collect_results (write_member d) (by_key fields))"
proof -
  have "distinct (map fst (by_key fields))"
    using assms(1) distinct_map_fst_mset [of fields "by_key fields"] by simp
  from write_members_join [OF this] assms(2) show ?thesis
    by (cases "collect_results (write_member d) (by_key fields)") (simp_all add: write_value.simps)
qed

lemma write_value_Array:
  "d \<le> MAX_DEPTH \<Longrightarrow> write_value (Array vs) d =
     map_ok (\<lambda>out. ''['' @ join '','' out @ '']'') (collect_results (\<lambda>c. write_value c (d + 1)) vs)"
  by (cases "collect_results (\<lambda>c. write_value c (d + 1)) vs")
    (simp_all add: write_value.simps write_items_join)

section \<open>When the writer succeeds\<close>

text \<open>Every string of the value is a Rust \<open>String\<close>, that is valid UTF-8.\<close>

fun utf8_strings :: "json_value \<Rightarrow> bool" where
  "utf8_strings (String s) \<longleftrightarrow> utf8_valid s"
| "utf8_strings (Array vs) \<longleftrightarrow> (\<forall>v \<in> set vs. utf8_strings v)"
| "utf8_strings (Object fields) \<longleftrightarrow> (\<forall>e \<in> set fields. utf8_valid (fst e) \<and> utf8_strings (snd e))"
| "utf8_strings _ \<longleftrightarrow> True"

lemma collect_results_Ok_mem: "collect_results f xs = Ok ys \<Longrightarrow> x \<in> set xs \<Longrightarrow> \<exists>y. f x = Ok y"
  by (induction xs arbitrary: ys) auto

lemma write_members_Ok_mem:
  "write_members fs d prev = Ok out \<Longrightarrow> e \<in> set fs \<Longrightarrow> \<exists>y. write_value (snd e) (d + 1) = Ok y"
proof (induction fs arbitrary: prev out)
  case (Cons e2 fs)
  then show ?case by (cases e2) (auto split: if_splits)
qed simp

lemma write_value_depth: "write_value v d = Ok out \<Longrightarrow> d \<le> MAX_DEPTH"
  by (auto simp: write_value.simps split: if_splits)

lemma write_value_well_formed:
  "write_value v d = Ok out \<Longrightarrow> utf8_strings v \<Longrightarrow> well_formed d v"
proof (induction v arbitrary: d out rule: json_induct)
  case (Array vs)
  from Array.prems(1) have d: "d \<le> MAX_DEPTH" by (rule write_value_depth)
  with Array show ?case by (auto simp: write_value_Array dest!: collect_results_Ok_mem)
next
  case (Object fields)
  from Object.prems(1) have d: "d \<le> MAX_DEPTH" by (rule write_value_depth)
  from Object.prems(1) obtain o2 where w: "write_members (by_key fields) d None = Ok o2"
    by (auto simp: write_value.simps split: if_splits)
  have "distinct (map fst (by_key fields))"
    using write_members_distinct [OF w] Object.prems(2) by simp
  then have "distinct (map fst fields)" using distinct_map_fst_mset [of "by_key fields" fields] by simp
  with d Object write_members_Ok_mem [OF w] show ?case by fastforce
qed (auto simp: write_value.simps split: if_splits)

section \<open>The parser reads the writer's bytes\<close>

lemma hex_value_hex_digit: "n < 16 \<Longrightarrow> hex_value (hex_digit n) = Some n"
  by (auto simp: hex_digit_def less_eq_char_def)

lemma utf8_encode_hd:
  assumes "0x80 \<le> c" "is_scalar c"
  obtains b t where "utf8_encode c = b # t" "0x80 \<le> byte b"
proof -
  have "c < 0x800 \<Longrightarrow> c div 64 < 32" "c < 0x10000 \<Longrightarrow> c div 4096 < 16" "c div 262144 < 16"
    using assms(2) by (auto simp: is_scalar_def less_mult_imp_div_less)
  with assms(1) that show thesis
    by (cases "c < 0x800"; cases "c < 0x10000") (auto simp: utf8_encode_def)
qed

lemma string_item_write_char:
  assumes "is_scalar c"
  shows "string_item (write_char c @ r) = Ok (Some c, r)"
proof -
  consider "c \<in> {0x22, 0x5C, 8, 9, 10, 12, 13}" | "c \<le> 0x1F" "c \<notin> {8, 9, 10, 12, 13}"
    | "0x20 \<le> c" "c < 0x80" "c \<notin> {0x22, 0x5C}" | "0x80 \<le> c" by fastforce
  then show ?thesis
  proof cases
    case 1
    then show ?thesis by (auto simp: write_char_def string_item_def escape_def)
  next
    case 2
    then have "c div 16 < 16" "c mod 16 < 16" "is_scalar c" by (auto simp: is_scalar_def)
    then have "hex_quad (''00'' @ hex_digit (c div 16) # hex_digit (c mod 16) # r) = Ok (c, r)"
      by (simp add: hex_value_hex_digit del: hex_value.simps) (simp add: less_eq_char_def)
    with 2 assms show ?thesis
      by (auto simp: write_char_def string_item_def escape_def unicode_escape_def simp del: hex_quad.simps)
  next
    case 3
    then have "byte (char_of c) = c" "char_of c \<noteq> quote" "char_of c \<noteq> backslash"
      by (auto simp: char_of_eq_iff take_bit_eq_mod)
    with 3 show ?thesis by (simp add: write_char_def string_item_def utf8_encode_def)
  next
    case 4
    obtain b t where b: "utf8_encode c = b # t" "0x80 \<le> byte b" using utf8_encode_hd 4 assms by blast
    then have "utf8_next (b # t @ r) = Some (c, r)" using utf8_next_encode [OF assms, of r] by simp
    moreover have "b \<noteq> quote" "b \<noteq> backslash" using b(2) by auto
    moreover have "write_char c = b # t" using 4 b(1) by (simp add: write_char_def)
    ultimately show ?thesis using b(2) by (simp add: string_item_def)
  qed
qed

lemma string_loop_write:
  "\<forall>c \<in> set cs. is_scalar c \<Longrightarrow>
   string_loop (concat (map write_char cs) @ quote # r) acc = Ok (acc @ utf8_string cs, r)"
proof (induction cs arbitrary: acc)
  case Nil
  then show ?case by (simp add: string_loop.simps [of "quote # r"] string_item_def)
next
  case (Cons c cs)
  then show ?case
    using string_item_write_char [of c "concat (map write_char cs) @ quote # r"]
    by (simp add: string_loop.simps [of "write_char c @ _"])
qed

lemma parse_string_write [simp]: "utf8_valid s \<Longrightarrow> parse_string (write_string s @ r) = Ok (s, r)"
  using string_loop_write [of "chars s" r "[]"] scalar_chars
  by (simp add: parse_string_def write_string_def)

text \<open>What may follow a value: the end, or one of the three structural bytes.\<close>

definition delimited :: "string \<Rightarrow> bool" where
  "delimited r = (case r of [] \<Rightarrow> True | b # _ \<Rightarrow> b \<in> set '',]}'')"

lemma delimited_simps [simp]:
  "delimited []" "delimited (CHR '','' # r)" "delimited (CHR '']'' # r)" "delimited (CHR ''}'' # r)"
  by (simp_all add: delimited_def)

lemma delimitedD:
  assumes "delimited r"
  shows "\<not> digit_next r" "dropWhile is_ascii_digit r = r" "takeWhile is_ascii_digit r = []"
    "peek r \<notin> {Some (CHR ''.''), Some (CHR ''e''), Some (CHR ''E'')}"
  using assms by (cases r; auto simp: delimited_def digit_next_def is_ascii_digit_def)+

lemma dec_first:
  "\<exists>b t. dec n = b # t \<and> list_all is_ascii_digit t \<and>
    (b = CHR ''0'' \<and> t = [] \<and> n = 0 \<or> CHR ''1'' \<le> b \<and> b \<le> CHR ''9'')"
proof (induction n rule: dec.induct)
  case (1 n)
  show ?case
  proof (cases "n < 10")
    case True
    then have "dec n = [char_of (48 + n)]" "byte (char_of (48 + n)) = 48 + n" by (simp_all add: dec.simps [of n])
    with True show ?thesis by (cases "n = 0") (auto simp: less_eq_char_def dec_0)
  next
    case False
    then have "n div 10 \<noteq> 0" "n mod 10 < 10" by auto
    with 1 False show ?thesis by (auto simp: dec.simps [of n] is_ascii_digit_def)
  qed
qed

lemma number_dec:
  assumes "n \<le> MAX_SAFE_INTEGER" "delimited r"
  shows "number (dec n @ r) = Ok (Unsigned (of_nat n), r)"
    "number (CHR ''-'' # dec n @ r) = Ok (Integer (- of_nat n), r)"
proof -
  obtain b t where d: "dec n = b # t" "list_all is_ascii_digit t"
    and b: "b = CHR ''0'' \<and> t = [] \<or> CHR ''1'' \<le> b \<and> b \<le> CHR ''9''"
    using dec_first [of n] by blast
  have b: "b = CHR ''0'' \<and> t = [] \<or> b \<noteq> CHR ''0'' \<and> CHR ''1'' \<le> b \<and> b \<le> CHR ''9''"
    using b by (auto simp: less_eq_char_def)
  have m: "b \<noteq> CHR ''-''" using b by (auto simp: less_eq_char_def)
  have tw: "takeWhile is_ascii_digit (t @ r) = t" "dropWhile is_ascii_digit (t @ r) = r"
    using d(2) delimitedD [OF assms(2)] by (simp_all add: list_all_iff)
  have v: "dec_value (b # t) = n" using d(1) dec_value_dec [of n] by simp
  have n: "n < 2 ^ 64" "n \<le> 2 ^ 63" using assms(1) by (simp_all add: MAX_SAFE_INTEGER_def)
  have p: "\<not> (peek r = Some (CHR ''.'') \<or> peek r = Some (CHR ''e'') \<or> peek r = Some (CHR ''E''))"
    using delimitedD(4) [OF assms(2)] by simp
  note f = p v tw n assms(1) m d(1) delimitedD(1) [OF assms(2)]
  have c: "consume (CHR ''-'') (b # t @ r) = None" using m by simp
  show "number (dec n @ r) = Ok (Unsigned (of_nat n), r)"
  proof (cases "b = CHR ''0''")
    case True
    with b have "t = []" by (auto simp: less_eq_char_def)
    with True show ?thesis using f c by (simp add: number_def Let_def)
  next
    case False
    with b have "CHR ''1'' \<le> b" "b \<le> CHR ''9''" by auto
    with False show ?thesis using f c by (simp add: number_def Let_def)
  qed
  show "number (CHR ''-'' # dec n @ r) = Ok (Integer (- of_nat n), r)"
  proof (cases "b = CHR ''0''")
    case True
    with b have "t = []" by (auto simp: less_eq_char_def)
    with True show ?thesis using f by (simp add: number_def Let_def)
  next
    case False
    with b have "CHR ''1'' \<le> b" "b \<le> CHR ''9''" by auto
    with False show ?thesis using f by (simp add: number_def Let_def)
  qed
qed

text \<open>The bytes \<open>out\<close> parse at depth \<open>d\<close> to the value \<open>v\<close>, whatever delimited text follows.\<close>

definition value_start :: "char \<Rightarrow> bool" where
  "value_start b \<longleftrightarrow> \<not> is_json_ws b \<and> b \<notin> set '',]}:''"

definition parses_as :: "nat \<Rightarrow> string \<Rightarrow> json_value \<Rightarrow> bool" where
  "parses_as d out v \<longleftrightarrow>
     (\<exists>b t. out = b # t \<and> value_start b) \<and>
     (\<forall>fuel r n. 2 * length (out @ r) + 1 \<le> fuel \<and> delimited r \<and> n + value_count v \<le> MAX_VALUES \<longrightarrow>
        parse_value fuel d (out @ r) n = Some (Ok (v, r, n + value_count v)))"

lemma whitespace_start [simp]: "value_start b \<Longrightarrow> whitespace (b # t) = b # t"
  by (simp add: value_start_def whitespace_def)

lemma whitespace_struct [simp]:
  "whitespace (CHR '','' # r) = CHR '','' # r" "whitespace (CHR '']'' # r) = CHR '']'' # r"
  "whitespace (CHR ''}'' # r) = CHR ''}'' # r" "whitespace (CHR '':'' # r) = CHR '':'' # r"
  "whitespace (quote # r) = quote # r" "whitespace (CHR ''['' # r) = CHR ''['' # r"
  "whitespace (CHR ''{'' # r) = CHR ''{'' # r"
  by (simp_all add: whitespace_def is_json_ws_def)

lemma separator_struct [simp]:
  "separator (CHR '']'') (CHR '']'' # r) = Ok (True, r)" "separator (CHR ''}'') (CHR ''}'' # r) = Ok (True, r)"
  "separator (CHR '']'') (CHR '','' # r) = Ok (False, r)" "separator (CHR ''}'') (CHR '','' # r) = Ok (False, r)"
  by (simp_all add: separator_def)

lemma parses_as_scalar:
  assumes "out = b # t" "value_start b" "b \<noteq> CHR ''[''" "b \<noteq> CHR ''{''" "d \<le> MAX_DEPTH" "value_count v = 1"
    "\<And>r. delimited r \<Longrightarrow> scalar (out @ r) = Ok (v, r)"
  shows "parses_as d out v"
proof -
  have "parse_value fuel d (out @ r) n = Some (Ok (v, r, n + value_count v))"
    if "2 * length (out @ r) + 1 \<le> fuel" "delimited r" "n + value_count v \<le> MAX_VALUES" for fuel r n
    using assms that by (cases fuel) (auto simp: assms(1) simp flip: assms(7))
  with assms show ?thesis by (auto simp: parses_as_def)
qed

lemma parses_as_dec:
  assumes "n \<le> MAX_SAFE_INTEGER" "d \<le> MAX_DEPTH"
  shows "parses_as d (dec n) (Unsigned (of_nat n))" "parses_as d (CHR ''-'' # dec n) (Integer (- of_nat n))"
proof -
  obtain b t where b: "dec n = b # t" "is_ascii_digit b" using dec_digits [of _ n] by (cases "dec n") auto
  have s: "value_start b" "b \<noteq> CHR ''[''" "b \<noteq> CHR ''{''" "b \<notin> set ''ntf''" "b \<noteq> quote"
    using b(2) by (auto simp: value_start_def is_ascii_digit_def is_json_ws_def)
  show "parses_as d (dec n) (Unsigned (of_nat n))"
    by (rule parses_as_scalar [OF b(1)])
      (use s b(2) assms(2) number_dec [OF assms(1)] in \<open>auto simp: scalar_def b(1)\<close>)
  show "parses_as d (CHR ''-'' # dec n) (Integer (- of_nat n))"
    by (rule parses_as_scalar [OF refl])
      (use assms(2) number_dec [OF assms(1)] in
        \<open>auto simp: scalar_def value_start_def is_json_ws_def\<close>)
qed

lemma parses_asD:
  "parses_as d out v \<Longrightarrow> 2 * length (out @ r) + 1 \<le> fuel \<Longrightarrow> delimited r \<Longrightarrow>
     n + value_count v \<le> MAX_VALUES \<Longrightarrow> parse_value fuel d (out @ r) n = Some (Ok (v, r, n + value_count v))"
  by (simp add: parses_as_def)

lemma array_loop_join:
  "list_all2 (parses_as (d + 1)) outs vs \<Longrightarrow> outs \<noteq> [] \<Longrightarrow>
   2 * length (join '','' outs @ CHR '']'' # r) + 2 \<le> fuel \<Longrightarrow>
   n + sum_list (map value_count vs) \<le> MAX_VALUES \<Longrightarrow>
   array_loop fuel d (join '','' outs @ CHR '']'' # r) n acc =
     Some (Ok (Array (acc @ vs), r, n + sum_list (map value_count vs)))"
proof (induction outs arbitrary: vs fuel n acc)
  case (Cons out outs)
  then obtain v ws where vs: "vs = v # ws" and p: "parses_as (d + 1) out v"
    and ps: "list_all2 (parses_as (d + 1)) outs ws" by (auto simp: list_all2_Cons1)
  from Cons.prems(3) obtain f where f: "fuel = Suc f" by (cases fuel) auto
  show ?case
  proof (cases "outs = []")
    case True
    with ps p Cons.prems f vs show ?thesis
      using parses_asD [OF p, of "CHR '']'' # r" f n] by (simp add: parsed_then_def)
  next
    case False
    with ps p Cons.prems f vs show ?thesis
      using parses_asD [OF p, of "CHR '','' # join '','' outs @ CHR '']'' # r" f n]
        Cons.IH [OF ps False, of f "n + value_count v" "acc @ [v]"]
      by (simp add: parsed_then_def join_Cons)
  qed
qed simp

lemma member_key_write:
  "utf8_valid key \<Longrightarrow> key \<notin> keys \<Longrightarrow> member_key keys (write_string key @ CHR '':'' # r) = Ok (key, r)"
proof -
  assume "utf8_valid key" "key \<notin> keys"
  moreover have "whitespace (write_string key @ CHR '':'' # r) = write_string key @ CHR '':'' # r"
    "peek (write_string key @ CHR '':'' # r) = Some quote"
    by (simp_all add: write_string_def)
  ultimately show ?thesis by (simp add: member_key_def)
qed

text \<open>The bytes \<open>out\<close> are a member's key, colon and value.\<close>

definition member_parses :: "nat \<Rightarrow> string \<Rightarrow> string \<times> json_value \<Rightarrow> bool" where
  "member_parses d out e \<longleftrightarrow>
     (\<exists>o2. out = write_string (fst e) @ CHR '':'' # o2 \<and> parses_as (d + 1) o2 (snd e)) \<and> utf8_valid (fst e)"

lemma object_loop_join:
  "list_all2 (member_parses d) outs es \<Longrightarrow> outs \<noteq> [] \<Longrightarrow> distinct (map fst (fields @ es)) \<Longrightarrow>
   2 * length (join '','' outs @ CHR ''}'' # r) + 2 \<le> fuel \<Longrightarrow>
   n + sum_list (map (\<lambda>e. value_count (snd e)) es) \<le> MAX_VALUES \<Longrightarrow>
   object_loop fuel d (join '','' outs @ CHR ''}'' # r) n fields =
     Some (Ok (Object (fields @ es), r, n + sum_list (map (\<lambda>e. value_count (snd e)) es)))"
proof (induction outs arbitrary: es fuel n fields)
  case (Cons out outs)
  then obtain e ws where es: "es = e # ws" and p: "member_parses d out e"
    and ps: "list_all2 (member_parses d) outs ws" by (auto simp: list_all2_Cons1)
  from p obtain key v o2 where e: "e = (key, v)" and out: "out = write_string key @ CHR '':'' # o2"
    and o2: "parses_as (d + 1) o2 v" and key: "utf8_valid key" by (cases e) (auto simp: member_parses_def)
  from Cons.prems(4) obtain f where f: "fuel = Suc f" by (cases fuel) auto
  have fresh: "key \<notin> fst ` set fields" using Cons.prems(3) by (auto simp: es e)
  show ?case
  proof (cases "outs = []")
    case True
    with ps e out Cons.prems f es show ?thesis
      using parses_asD [OF o2, of "CHR ''}'' # r" f n]
        member_key_write [OF key fresh, of "o2 @ CHR ''}'' # r"] by (simp add: parsed_then_def)
  next
    case False
    with ps e out Cons.prems f es show ?thesis
      using parses_asD [OF o2, of "CHR '','' # join '','' outs @ CHR ''}'' # r" f n]
        member_key_write [OF key fresh, of "o2 @ CHR '','' # join '','' outs @ CHR ''}'' # r"]
        Cons.IH [OF ps False, of "fields @ [(key, v)]" f "n + value_count v"]
      by (simp add: parsed_then_def join_Cons)
  qed
qed simp

lemma join_start: "outs \<noteq> [] \<Longrightarrow> hd outs = b # t \<Longrightarrow> \<exists>t2. join sep outs = b # t2"
  by (cases outs; cases "tl outs") auto

lemma parses_as_Array:
  assumes ps: "list_all2 (parses_as (d + 1)) outs vs" and d: "d \<le> MAX_DEPTH"
  shows "parses_as d (''['' @ join '','' outs @ '']'') (Array vs)"
proof -
  have "parse_value fuel d (''['' @ (join '','' outs @ CHR '']'' # r)) n =
      Some (Ok (Array vs, r, n + value_count (Array vs)))"
    if l: "2 * length (''['' @ join '','' outs @ CHR '']'' # r) + 1 \<le> fuel"
      and n: "n + value_count (Array vs) \<le> MAX_VALUES" for fuel r n
  proof -
    obtain f where f: "fuel = Suc f" using l by (cases fuel) auto
    show ?thesis
    proof (cases "outs = []")
      case True
      with ps f d n show ?thesis by simp
    next
      case False
      with ps have "parses_as (d + 1) (hd outs) (hd vs)" by (cases outs) (auto simp: list_all2_Cons1)
      then obtain b t where b: "join '','' outs = b # t" "value_start b"
        using join_start [OF False] by (fastforce simp: parses_as_def)
      with array_loop_join [OF ps False, of r f "n + 1" "[]"] l n f d show ?thesis
        by (auto simp: value_start_def)
    qed
  qed
  then show ?thesis by (auto simp: parses_as_def value_start_def is_json_ws_def)
qed

lemma parses_as_Object:
  assumes ps: "list_all2 (member_parses d) outs es" and d: "d \<le> MAX_DEPTH" and di: "distinct (map fst es)"
  shows "parses_as d (''{'' @ join '','' outs @ ''}'') (Object es)"
proof -
  have "parse_value fuel d (''{'' @ (join '','' outs @ CHR ''}'' # r)) n =
      Some (Ok (Object es, r, n + value_count (Object es)))"
    if l: "2 * length (''{'' @ join '','' outs @ CHR ''}'' # r) + 1 \<le> fuel"
      and n: "n + value_count (Object es) \<le> MAX_VALUES" for fuel r n
  proof -
    obtain f where f: "fuel = Suc f" using l by (cases fuel) auto
    show ?thesis
    proof (cases "outs = []")
      case True
      with ps f d n show ?thesis by simp
    next
      case False
      with ps have "member_parses d (hd outs) (hd es)" by (cases outs) (auto simp: list_all2_Cons1)
      then obtain t where b: "join '','' outs = quote # t"
        using join_start [OF False] by (fastforce simp: member_parses_def write_string_def)
      with object_loop_join [OF ps False, of "[]" r f "n + 1"] l n f d di show ?thesis by simp
    qed
  qed
  then show ?thesis by (auto simp: parses_as_def value_start_def is_json_ws_def)
qed

text \<open>A list of successful writes, with the property each result has.\<close>

lemma collect_results_all:
  "(\<And>x. x \<in> set xs \<Longrightarrow> \<exists>y. f x = Ok y \<and> Q x y) \<Longrightarrow>
     \<exists>ys. collect_results f xs = Ok ys \<and> list_all2 Q xs ys"
proof (induction xs)
  case (Cons x xs)
  then obtain y ys where "f x = Ok y" "Q x y" "collect_results f xs = Ok ys" "list_all2 Q xs ys"
    by (metis list.set_intros(1) list.set_intros(2))
  then show ?case by simp
qed simp

lemma length_join: "length (join '','' outs) = sum_list (map length outs) + (length outs - 1)"
  by (induction "'',''" outs rule: join.induct) auto

lemma list_all2_sum: "list_all2 (\<lambda>x y. f y = (g x :: nat)) xs ys \<Longrightarrow> sum_list (map f ys) = sum_list (map g xs)"
  by (induction rule: list_all2_induct) auto

definition writes :: "nat \<Rightarrow> json_value \<Rightarrow> string \<Rightarrow> bool" where
  "writes d v out \<longleftrightarrow> length out = written_length v \<and> parses_as d out (norm v)"

lemma writes_Array:
  assumes "list_all2 (writes (d + 1)) vs outs" "d \<le> MAX_DEPTH"
  shows "writes d (Array vs) (''['' @ join '','' outs @ '']'')"
proof -
  have "list_all2 (parses_as (d + 1)) outs (map norm vs)"
    using assms(1) by (auto simp: list_all2_conv_all_nth writes_def)
  moreover have "sum_list (map length outs) = sum_list (map written_length vs)"
    using assms(1) by (intro list_all2_sum) (auto simp: writes_def elim!: list_all2_mono)
  moreover have "length outs = length vs" using list_all2_lengthD [OF assms(1)] by simp
  ultimately show ?thesis using assms(2) by (simp add: writes_def parses_as_Array length_join del: append.simps)
qed

definition writes_member :: "nat \<Rightarrow> string \<times> json_value \<Rightarrow> string \<Rightarrow> bool" where
  "writes_member d e out \<longleftrightarrow>
     utf8_valid (fst e) \<and> (\<exists>o2. out = write_string (fst e) @ CHR '':'' # o2 \<and> writes (d + 1) (snd e) o2)"

lemma writes_Object:
  assumes w: "list_all2 (writes_member d) (by_key fields) outs" and d: "d \<le> MAX_DEPTH"
    and di: "distinct (map fst fields)"
  shows "writes d (Object fields) (''{'' @ join '','' outs @ ''}'')"
proof -
  let ?len = "\<lambda>e. length (write_string (fst e)) + 1 + written_length (snd e)"
  have "list_all2 (member_parses d) outs (map norm_member (by_key fields))"
    using w by (auto simp: list_all2_conv_all_nth writes_member_def writes_def member_parses_def)
  moreover have "distinct (map fst (map norm_member (by_key fields)))"
    using distinct_map_fst_mset [OF di, of "by_key fields"] by (simp add: o_def)
  moreover have "length outs = length fields" using list_all2_lengthD [OF w] by simp
  moreover have "sum_list (map length outs) = sum_list (map ?len (by_key fields))"
    using w by (intro list_all2_sum) (auto simp: writes_member_def writes_def elim!: list_all2_mono)
  ultimately show ?thesis
    using d parses_as_Object [of d outs "map norm_member (by_key fields)"]
    by (simp add: writes_def length_join norm_Object sum_list_sort_key del: append.simps norm.simps)
qed

lemma write_value_writes: "well_formed d v \<Longrightarrow> \<exists>out. write_value v d = Ok out \<and> writes d v out"
proof (induction v arbitrary: d rule: json_induct)
  case (Array vs)
  then obtain outs where "collect_results (\<lambda>c. write_value c (d + 1)) vs = Ok outs"
      "list_all2 (writes (d + 1)) vs outs"
    using collect_results_all [of vs "\<lambda>c. write_value c (d + 1)" "writes (d + 1)"] by auto
  with Array.prems show ?case by (simp add: write_value_Array writes_Array del: append.simps)
next
  case (Object fields)
  have "\<exists>y. write_member d e = Ok y \<and> writes_member d e y" if "e \<in> set (by_key fields)" for e
  proof -
    from that Object obtain o2 where "write_value (snd e) (d + 1) = Ok o2" "writes (d + 1) (snd e) o2"
      by fastforce
    with that Object.prems show ?thesis by (simp add: write_member_def writes_member_def)
  qed
  then obtain outs where "collect_results (write_member d) (by_key fields) = Ok outs"
      "list_all2 (writes_member d) (by_key fields) outs" using collect_results_all by blast
  with Object.prems show ?case
    by (simp add: write_value_Object writes_Object del: append.simps)
next
  case Null
  then show ?case
    by (auto simp: write_value.simps writes_def scalar_def literal_def value_start_def is_json_ws_def
        intro!: parses_as_scalar)
next
  case (Bool b)
  then show ?case
    by (auto simp: write_value.simps writes_def scalar_def literal_def value_start_def is_json_ws_def
        intro!: parses_as_scalar)
next
  case (String s)
  have "parses_as d (write_string s) (String s)"
  proof (rule parses_as_scalar [of _ quote "concat (map write_char (chars s)) @ [quote]"])
    fix r
    have "peek (write_string s @ r) = Some quote" by (simp add: write_string_def)
    with String show "scalar (write_string s @ r) = Ok (String s, r)" by (simp add: scalar_def)
  qed (use String in \<open>simp_all add: write_string_def value_start_def is_json_ws_def\<close>)
  with String show ?case by (simp add: write_value.simps writes_def)
next
  case (Unsigned u)
  then show ?case using parses_as_dec(1) [of "unat u" d] by (simp add: write_value.simps writes_def)
next
  case (Integer i)
  show ?case
  proof (cases "0 \<le> sint i")
    case True
    then have "unsigned_abs i = unat i" by (simp add: unsigned_abs_def sint_nonneg_unat)
    with True Integer show ?thesis using parses_as_dec(1) [of "unat i" d]
      by (simp add: write_value.simps writes_def i64_to_string_def)
  next
    case False
    then have "- of_nat (unsigned_abs i) = i" by (simp add: unsigned_abs_def)
    with False Integer show ?thesis using parses_as_dec(2) [of "unsigned_abs i" d]
      by (simp add: write_value.simps writes_def i64_to_string_def)
  qed
qed

section \<open>The writer does not see what \<^const>\<open>norm\<close> changes\<close>

lemma write_items_norm:
  "(\<And>v d. v \<in> set vs \<Longrightarrow> write_value (norm v) d = write_value v d) \<Longrightarrow>
     write_items (map norm vs) d first = write_items vs d first"
  by (induction vs arbitrary: first) auto

lemma write_members_norm:
  "(\<And>e d. e \<in> set fs \<Longrightarrow> write_value (norm (snd e)) d = write_value (snd e) d) \<Longrightarrow>
     write_members (map norm_member fs) d prev = write_members fs d prev"
proof (induction fs arbitrary: prev)
  case (Cons e fs)
  have "write_value (norm (snd e)) (d + 1) = write_value (snd e) (d + 1)" using Cons.prems by simp
  with Cons show ?case by (cases e) simp
qed simp

lemma write_value_norm: "write_value (norm v) d = write_value v d"
proof (induction v arbitrary: d rule: json_induct)
  case (Integer i)
  have "0 \<le> sint i \<Longrightarrow> unsigned_abs i = unat i" by (simp add: unsigned_abs_def sint_nonneg_unat)
  then show ?case by (auto simp: write_value.simps i64_to_string_def)
next
  case (Array vs)
  then show ?case by (simp add: write_value.simps write_items_norm)
next
  case (Object fields)
  have "by_key (map norm_member (by_key fields)) = map norm_member (by_key fields)"
    by (simp add: sort_key_map [where k' = "\<lambda>e. utf16 (fst e)"])
  moreover have "write_members (map norm_member (by_key fields)) d None = write_members (by_key fields) d None"
    using Object by (intro write_members_norm) simp
  ultimately show ?case by (simp add: norm_Object write_value.simps del: norm.simps)
qed auto

lemma canonicalize_value_norm: "canonicalize_value (norm v) = canonicalize_value v"
  by (simp add: canonicalize_value_def write_value_norm)

lemma well_formed_utf8_strings: "well_formed d v \<Longrightarrow> utf8_strings v"
  by (induction v arbitrary: d rule: json_induct) auto

lemma canonicalize_value_Ok:
  assumes "canonicalize_value v = Ok c" "utf8_strings v"
  shows "well_formed 0 v" "writes 0 v c" "length c \<le> MAX_CANONICAL_JSON_BYTES"
proof -
  from assms(1) have w: "write_value v 0 = Ok c" and "length c \<le> MAX_CANONICAL_JSON_BYTES"
    by (auto simp: canonicalize_value_def)
  moreover have "well_formed 0 v" using w assms(2) by (rule write_value_well_formed)
  moreover from write_value_writes [OF this] w have "writes 0 v c" by auto
  ultimately show "well_formed 0 v" "writes 0 v c" "length c \<le> MAX_CANONICAL_JSON_BYTES" by simp_all
qed

lemma parse_json_writes:
  assumes "writes 0 v c" "length c \<le> MAX_CANONICAL_JSON_BYTES" "value_count v \<le> MAX_VALUES"
  shows "parse_json c = Ok (norm v)"
proof -
  have "parse_value (parse_fuel c) 0 (c @ []) 0 = Some (Ok (norm v, [], 0 + value_count (norm v)))"
    using assms by (intro parses_asD) (auto simp: writes_def parse_fuel_def)
  with assms show ?thesis by (simp add: parse_json_def whitespace_def)
qed

lemma canonicalize_well_formed:
  assumes "well_formed 0 v" "written_length v \<le> MAX_CANONICAL_JSON_BYTES"
  shows "\<exists>c. canonicalize_value v = Ok c \<and> length c = written_length v"
proof -
  from write_value_writes [OF assms(1)] obtain c where "write_value v 0 = Ok c" "writes 0 v c" by blast
  with assms(2) show ?thesis by (auto simp: canonicalize_value_def writes_def)
qed

text \<open>An array of more than \<^const>\<open>MAX_VALUES\<close> values is written but not read.\<close>

lemma write_nulls: "collect_results (\<lambda>c. write_value c (Suc 0)) (replicate k Null) = Ok (replicate k ''null'')"
  by (induction k) (auto simp: write_value.simps MAX_DEPTH_def)

lemma array_loop_nulls:
  "0 < k \<Longrightarrow> n \<le> MAX_VALUES \<Longrightarrow> MAX_VALUES < n + k \<Longrightarrow>
   2 * length (join '','' (replicate k ''null'') @ CHR '']'' # r) + 2 \<le> fuel \<Longrightarrow>
   array_loop fuel 0 (join '','' (replicate k ''null'') @ CHR '']'' # r) n acc = Some (Err TooManyValues)"
proof (induction k arbitrary: n fuel acc)
  case (Suc k)
  obtain f where f: "fuel = Suc f" using Suc.prems(4) by (cases fuel) auto
  have p: "parses_as 1 ''null'' Null"
    by (auto simp: scalar_def literal_def value_start_def is_json_ws_def MAX_DEPTH_def intro!: parses_as_scalar)
  show ?case
  proof (cases "n = MAX_VALUES")
    case True
    from Suc.prems(4) f obtain g where "f = Suc g" by (cases f) auto
    with True f show ?thesis by (simp add: parsed_then_def MAX_DEPTH_def)
  next
    case False
    then have k: "0 < k" "replicate k ''null'' \<noteq> []" using Suc.prems by auto
    with False Suc.prems f show ?thesis
      using parses_asD [OF p, of "CHR '','' # join '','' (replicate k ''null'') @ CHR '']'' # r" f n]
        Suc.IH [of "n + 1" f "acc @ [Null]"]
      by (simp add: join_Cons parsed_then_def)
  qed
qed simp

lemma parse_json_nulls:
  assumes "MAX_VALUES \<le> k" "5 * k + 1 \<le> MAX_CANONICAL_JSON_BYTES"
  shows "parse_json (''['' @ join '','' (replicate k ''null'') @ '']'') = Err TooManyValues"
proof -
  let ?s = "join '','' (replicate k ''null'') @ CHR '']'' # []"
  have k: "0 < k" using assms(1) by (auto simp: MAX_VALUES_def)
  then obtain t where t: "?s = CHR ''n'' # t" 
    using join_start [of "replicate k ''null''" "CHR ''n''" "''ull''" "'',''"] by auto
  have len: "length ?s = 5 * k" using k by (simp add: length_join sum_list_replicate)
  define f where "f = 2 * length ?s + 2"
  have "array_loop f 0 ?s 1 [] = Some (Err TooManyValues)"
    by (rule array_loop_nulls) (use k assms(1) in \<open>auto simp: MAX_VALUES_def f_def\<close>)
  then have "parse_value (Suc f) 0 (CHR ''['' # ?s) 0 = Some (Err TooManyValues)"
    unfolding t by (simp add: MAX_DEPTH_def MAX_VALUES_def whitespace_def is_json_ws_def)
  then have "parse_value (parse_fuel (CHR ''['' # ?s)) 0 (CHR ''['' # ?s) 0 = Some (Err TooManyValues)"
    by (simp add: parse_fuel_def f_def del: parse_value.simps)
  with assms(2) len show ?thesis by (simp add: parse_json_def del: parse_value.simps)
qed

lemma canonicalize_nulls:
  assumes "0 < k" "5 * k + 1 \<le> MAX_CANONICAL_JSON_BYTES"
  shows "canonicalize_value (Array (replicate k Null)) = Ok (''['' @ join '','' (replicate k ''null'') @ '']'')"
  using assms by (simp add: canonicalize_value_def write_value_Array write_nulls length_join sum_list_replicate)

text \<open>Printable ASCII text without quotes and backslashes is written as it is.\<close>

lemma write_string_plain:
  assumes "list_all (\<lambda>b. 0x20 \<le> byte b \<and> byte b < 0x80 \<and> b \<noteq> quote \<and> b \<noteq> backslash) k"
  shows "write_string k = quote # k @ [quote]"
proof -
  have "is_ascii k" using assms by (auto simp: is_ascii_def list_all_iff)
  moreover have "concat (map write_char (map byte k)) = k"
    using assms by (induction k) (auto simp: write_char_def utf8_encode_byte)
  ultimately show ?thesis by (simp add: write_string_def)
qed

section \<open>The properties of the canonical form\<close>

text \<open>C1: the parser reads the canonical bytes of a value back as the value itself, with its members
  in canonical order and non-negative integers unsigned, when its strings are valid UTF-8 and it has
  no more values than the parser's limit.\<close>

theorem canonical_roundtrip:
  assumes "canonicalize_value v = Ok c" "utf8_strings v" "value_count v \<le> MAX_VALUES"
  shows "parse_json c = Ok (norm v)"
  using parse_json_writes canonicalize_value_Ok [OF assms(1,2)] assms(3) by blast



lemmas canon_eval =
  canonicalize_value_def write_value.simps write_string_def write_char_def utf16_def utf16_encode_def
  is_ascii_def utf8_encode_def char_of_eq_iff MAX_DEPTH_def MAX_CANONICAL_JSON_BYTES_def MAX_SAFE_INTEGER_def
  MAX_VALUES_def unsigned_abs_def i64_to_string_def dec.simps

lemmas parse_value_numeral = parse_value.simps(2) [of "pred_numeral k" for k, folded numeral_eq_Suc]

lemmas parse_eval =
  parse_json_def parse_fuel_def parse_value_numeral whitespace_def is_json_ws_def scalar_def number_def
  digit_next_def dec_value_def is_ascii_digit_def less_eq_char_def

theorem canonical_roundtrip_witness:
  "canonicalize_value (Object [(''b'', Unsigned 17), (''a'', Integer 3)]) =
     Ok ([CHR ''{'', quote, CHR ''a'', quote] @ '':3,'' @ [quote, CHR ''b'', quote] @ '':17}'') \<and>
   parse_json ([CHR ''{'', quote, CHR ''a'', quote] @ '':3,'' @ [quote, CHR ''b'', quote] @ '':17}'') =
     Ok (Object [(''a'', Unsigned 3), (''b'', Unsigned 17)])"
proof -
  let ?v = "Object [(''b'', Unsigned 17), (''a'', Integer 3)]"
  let ?c = "[CHR ''{'', quote, CHR ''a'', quote] @ '':3,'' @ [quote, CHR ''b'', quote] @ '':17}''"
  have c: "canonicalize_value ?v = Ok ?c" by (simp add: canon_eval)
  have "parse_json ?c = Ok (norm ?v)"
    by (rule canonical_roundtrip [OF c]) (simp_all add: canon_eval)
  moreover have "norm ?v = Object [(''a'', Unsigned 3), (''b'', Unsigned 17)]" by (simp add: canon_eval)
  ultimately show ?thesis using c by simp
qed

text \<open>C2: every text the parser accepts has a canonical form, no longer than the text; that form
  parses to the same value in canonical order, and canonicalising it again changes nothing.\<close>

theorem canonicalize_json_total:
  assumes "parse_json s = Ok v"
  shows "\<exists>c. canonicalize_json s = Ok c \<and> length c \<le> length s \<and> parse_json c = Ok (norm v) \<and>
    canonicalize_json c = Ok c"
proof -
  note p = parse_json_Ok [OF assms]
  obtain c where c: "canonicalize_value v = Ok c" "length c = written_length v"
    using canonicalize_well_formed [OF p(1)] p(3,4) by auto
  have "parse_json c = Ok (norm v)"
    using canonicalize_value_Ok [OF c(1) well_formed_utf8_strings [OF p(1)]] p(2)
    by (intro parse_json_writes) simp_all
  with c p assms show ?thesis by (auto simp: canonicalize_json_def canonicalize_value_norm)
qed

theorem canonicalize_json_total_witness:
  "parse_json '' -0'' = Ok (Integer 0) \<and> canonicalize_json '' -0'' = Ok ''0'' \<and>
   canonicalize_json ''0'' = Ok ''0''"
proof -
  have p: "parse_json '' -0'' = Ok (Integer 0)"
    by (simp add: parse_eval canon_eval)
  moreover from p have "canonicalize_json '' -0'' = Ok ''0''"
    by (simp add: canonicalize_json_def canon_eval)
  ultimately show ?thesis using canonicalize_json_total [OF p] by auto
qed

text \<open>C3: canonical bytes identify a value: two values within the limits have the same canonical
  bytes exactly when they differ only in the order of members and in the constructor of
  non-negative integers.\<close>

theorem canonical_injective:
  assumes "canonicalize_value v = Ok c" "utf8_strings v" "value_count v \<le> MAX_VALUES"
    "utf8_strings w" "value_count w \<le> MAX_VALUES"
  shows "canonicalize_value w = Ok c \<longleftrightarrow> norm w = norm v"
proof
  assume "canonicalize_value w = Ok c"
  then have "parse_json c = Ok (norm w)"
    using parse_json_writes canonicalize_value_Ok [of w c] assms(4,5) by blast
  moreover have "parse_json c = Ok (norm v)"
    using parse_json_writes canonicalize_value_Ok [of v c] assms(1,2,3) by blast
  ultimately show "norm w = norm v" by simp
next
  assume "norm w = norm v"
  then show "canonicalize_value w = Ok c"
    using assms(1) canonicalize_value_norm [of v] canonicalize_value_norm [of w] by simp
qed

theorem canonical_injective_witness:
  "canonicalize_value (Unsigned 5) = Ok ''5'' \<and> canonicalize_value (Integer 5) = Ok ''5'' \<and>
   canonicalize_value (Integer 6) \<noteq> Ok ''5''"
proof -
  have c: "canonicalize_value (Unsigned 5) = Ok ''5''" by (simp add: canon_eval)
  have inj: "canonicalize_value (Integer k) = Ok ''5'' \<longleftrightarrow> norm (Integer k) = norm (Unsigned 5)" for k
    by (rule canonical_injective [OF c]) (simp_all add: canon_eval)
  from c inj [of 5] inj [of 6] show ?thesis by (simp split: if_splits)
qed

text \<open>C4: the recursive parser always returns: the fuel of \<open>parse_json\<close> is enough for every
  source, whatever its bytes.\<close>

theorem parse_json_terminates: "parse_value (parse_fuel s) 0 s 0 \<noteq> None"
proof
  assume "parse_value (parse_fuel s) 0 s 0 = None"
  with parse_returns(1) [of s "parse_fuel s" 0 0] show False by (simp add: parse_fuel_def)
qed

text \<open>C5: a parsed value respects every limit of the format: depth, number of values, safe
  integers, valid UTF-8, no duplicate key.\<close>

theorem parse_json_well_formed:
  assumes "parse_json s = Ok v"
  shows "well_formed 0 v \<and> value_count v \<le> MAX_VALUES"
  using parse_json_Ok [OF assms] by simp

theorem parse_json_well_formed_witness:
  "parse_json ''9'' = Ok (Unsigned 9) \<and> well_formed 0 (Unsigned 9)"
proof -
  have p: "parse_json ''9'' = Ok (Unsigned 9)"
    by (simp add: parse_eval canon_eval)
  with parse_json_well_formed [OF p] show ?thesis by simp
qed

text \<open>C6: the writer accepts exactly the well-formed values whose canonical form fits the size
  limit; in particular it rejects every value with a duplicate key, an unsafe integer or too many
  levels.\<close>

theorem canonicalize_value_accepts:
  assumes "utf8_strings v"
  shows "is_ok (canonicalize_value v) \<longleftrightarrow>
    well_formed 0 v \<and> written_length v \<le> MAX_CANONICAL_JSON_BYTES"
proof
  assume "is_ok (canonicalize_value v)"
  then obtain c where "canonicalize_value v = Ok c" by (auto simp: is_ok_iff)
  from canonicalize_value_Ok [OF this assms]
  show "well_formed 0 v \<and> written_length v \<le> MAX_CANONICAL_JSON_BYTES" by (simp add: writes_def)
next
  assume "well_formed 0 v \<and> written_length v \<le> MAX_CANONICAL_JSON_BYTES"
  with canonicalize_well_formed show "is_ok (canonicalize_value v)" by (auto simp: is_ok_iff)
qed

theorem canonicalize_value_accepts_witness:
  "\<not> is_ok (canonicalize_value (Object [(''k'', Null), (''j'', Null), (''k'', Bool True)]))"
proof -
  have "utf8_strings (Object [(''k'', Null), (''j'', Null), (''k'', Bool True)])"
    by (simp add: is_ascii_def)
  from canonicalize_value_accepts [OF this] show ?thesis by simp
qed

text \<open>C7: the writer does not enforce the parser's limit on the number of values: the array of
  100,000 nulls has canonical bytes, and the parser rejects them.\<close>

theorem canonicalize_value_not_readable:
  "\<exists>c. canonicalize_value (Array (replicate 100000 Null)) = Ok c \<and> parse_json c = Err TooManyValues"
  using canonicalize_nulls [of 100000] parse_json_nulls [of 100000]
  by (simp add: MAX_VALUES_def MAX_CANONICAL_JSON_BYTES_def)

end
