(* ===== verification/Base64.thy ===== *)
theory Base64
  imports Rust_Str
begin

unbundle bit_operations_syntax

text \<open>
  Unpadded base64url text and the constant-time comparison of
  \<open>crates/blindpass-core/src/signing.rs\<close>. Bytes are read with \<^const>\<open>of_char\<close>; the decoder's \<open>u32\<close>
  accumulator keeps its width, so the bits shifted out at the top are lost as in the code.
\<close>

section \<open>The encoder\<close>

definition ALPHABET :: string where
  "ALPHABET = ''ABCDEFGHIJKLMNOPQRSTUVWXYZabcdefghijklmnopqrstuvwxyz0123456789-_''"

fun base64_url_encode :: "string \<Rightarrow> string" where
  "base64_url_encode [] = []"
| "base64_url_encode [first] =
     [ALPHABET ! drop_bit 2 (byte first),
      ALPHABET ! (push_bit 4 (byte first AND 3) OR drop_bit 4 0)]"
| "base64_url_encode [first, second] =
     [ALPHABET ! drop_bit 2 (byte first),
      ALPHABET ! (push_bit 4 (byte first AND 3) OR drop_bit 4 (byte second)),
      ALPHABET ! (push_bit 2 (byte second AND 15) OR drop_bit 6 0)]"
| "base64_url_encode (first # second # third # rest) =
     [ALPHABET ! drop_bit 2 (byte first),
      ALPHABET ! (push_bit 4 (byte first AND 3) OR drop_bit 4 (byte second)),
      ALPHABET ! (push_bit 2 (byte second AND 15) OR drop_bit 6 (byte third)),
      ALPHABET ! (byte third AND 63)] @ base64_url_encode rest"

section \<open>The decoder\<close>

definition is_base64_char :: "char \<Rightarrow> bool" where
  "is_base64_char b \<longleftrightarrow> is_ascii_alphanumeric b \<or> b = CHR ''_'' \<or> b = CHR ''-''"

definition digit_of :: "char \<Rightarrow> nat option" where
  "digit_of b =
     (if CHR ''A'' \<le> b \<and> b \<le> CHR ''Z'' then Some (byte b - 65)
      else if CHR ''a'' \<le> b \<and> b \<le> CHR ''z'' then Some (byte b - 97 + 26)
      else if CHR ''0'' \<le> b \<and> b \<le> CHR ''9'' then Some (byte b - 48 + 52)
      else if b = CHR ''-'' then Some 62
      else if b = CHR ''_'' then Some 63
      else None)"

text \<open>The loop over the input bytes; its variables are \<open>output\<close>, \<open>accumulator\<close> and \<open>bits\<close>.\<close>

fun decode_loop :: "string \<Rightarrow> string \<Rightarrow> nat \<Rightarrow> nat \<Rightarrow> (string \<times> nat \<times> nat) option" where
  "decode_loop [] output accumulator bits = Some (output, accumulator, bits)"
| "decode_loop (b # input) output accumulator bits =
     (case digit_of b of
        None \<Rightarrow> None
      | Some digit \<Rightarrow>
          let accumulator = take_bit 32 (push_bit 6 accumulator) OR digit; bits = bits + 6 in
          if 8 \<le> bits
          then decode_loop input (output @ [char_of (drop_bit (bits - 8) accumulator)]) accumulator (bits - 8)
          else decode_loop input output accumulator bits)"

definition base64_url_decode :: "string \<Rightarrow> nat \<Rightarrow> string option" where
  "base64_url_decode input expected_len =
     (if input = [] \<or> \<not> list_all is_base64_char input then None
      else case decode_loop input [] 0 0 of
        None \<Rightarrow> None
      | Some (output, accumulator, bits) \<Rightarrow>
          if 0 < bits \<and> accumulator AND mask bits \<noteq> 0 then None
          else if length output = expected_len \<and> base64_url_encode output = input then Some output
          else None)"

section \<open>Constant-time comparison\<close>

definition constant_time_equal :: "string \<Rightarrow> string \<Rightarrow> bool" where
  "constant_time_equal left right =
     (if length left \<noteq> length right then False
      else foldl (\<lambda>difference (l, r). difference OR (byte l XOR byte r)) 0 (zip left right) = 0)"

lemma nat_xor_eq_0: "(a :: nat) XOR b = 0 \<longleftrightarrow> a = b"
  by (auto simp: bit_eq_iff bit_simps)

lemma foldl_or_eq_0: "foldl (\<lambda>d (l, r). d OR f l r) (d :: nat) xs = 0 \<longleftrightarrow> d = 0 \<and> (\<forall>(l, r) \<in> set xs. f l r = 0)"
  by (induction xs arbitrary: d) (auto simp: or_eq_0_iff)

lemma constant_time_equal_iff: "constant_time_equal l r \<longleftrightarrow> l = r"
  by (auto simp: constant_time_equal_def foldl_or_eq_0 nat_xor_eq_0 list_eq_iff_zip_eq split: prod.splits)

section \<open>Arithmetic of the digits\<close>

lemma push_or: "(b :: nat) < 2 ^ k \<Longrightarrow> push_bit k a OR b = a * 2 ^ k + b"
proof -
  assume "b < 2 ^ k"
  then have "take_bit k b = b" by (simp add: take_bit_nat_eq_self)
  then have "bit b n \<Longrightarrow> n < k" for n by (metis bit_take_bit_iff)
  then have "push_bit k a + b = push_bit k a OR b"
    by (intro disjunctive_add) (auto simp: bit_push_bit_iff not_le)
  then show ?thesis by (simp add: push_bit_eq_mult)
qed

lemma and_masks: "(n :: nat) AND 3 = n mod 4" "n AND 15 = n mod 16" "n AND 63 = n mod 64"
  using take_bit_eq_mask [of 2 n] take_bit_eq_mask [of 4 n] take_bit_eq_mask [of 6 n]
  by (simp_all add: take_bit_eq_mod mask_eq_exp_minus_1)

lemma byte_lt: "byte b < 256"
  by (rule nat_of_char_less_256)

lemma digits:
  "drop_bit 2 (byte f) = byte f div 4"
  "push_bit 4 (byte f AND 3) OR drop_bit 4 (byte s) = byte f mod 4 * 16 + byte s div 16"
  "push_bit 4 (byte f AND 3) OR drop_bit 4 0 = byte f mod 4 * 16"
  "push_bit 2 (byte s AND 15) OR drop_bit 6 (byte t) = byte s mod 16 * 4 + byte t div 64"
  "push_bit 2 (byte s AND 15) OR drop_bit 6 0 = byte s mod 16 * 4"
  "byte t AND 63 = byte t mod 64"
proof -
  have lt: "byte s div 16 < 2 ^ 4" "byte t div 64 < 2 ^ 2"
    using byte_lt [of s] byte_lt [of t] by (simp_all add: less_mult_imp_div_less)
  show "push_bit 4 (byte f AND 3) OR drop_bit 4 (byte s) = byte f mod 4 * 16 + byte s div 16"
    "push_bit 2 (byte s AND 15) OR drop_bit 6 (byte t) = byte s mod 16 * 4 + byte t div 64"
    using push_or [OF lt(1)] push_or [OF lt(2)] by (simp_all add: and_masks drop_bit_eq_div)
qed (simp_all add: and_masks drop_bit_eq_div push_bit_eq_mult)

lemma base64_url_encode_arith:
  "base64_url_encode [f] = [ALPHABET ! (byte f div 4), ALPHABET ! (byte f mod 4 * 16)]"
  "base64_url_encode [f, s] =
     [ALPHABET ! (byte f div 4), ALPHABET ! (byte f mod 4 * 16 + byte s div 16), ALPHABET ! (byte s mod 16 * 4)]"
  "base64_url_encode (f # s # t # rest) =
     [ALPHABET ! (byte f div 4), ALPHABET ! (byte f mod 4 * 16 + byte s div 16),
      ALPHABET ! (byte s mod 16 * 4 + byte t div 64), ALPHABET ! (byte t mod 64)] @ base64_url_encode rest"
  by (simp_all only: base64_url_encode.simps digits)

declare base64_url_encode.simps(2-4) [simp del] decode_loop.simps(2) [simp del]

lemma length_ALPHABET: "length ALPHABET = 64"
  by (simp add: ALPHABET_def)

lemma digit_of_ALPHABET: "i < 64 \<Longrightarrow> digit_of (ALPHABET ! i) = Some i"
proof -
  have "map digit_of ALPHABET = map Some [0..<64]"
    by (simp add: ALPHABET_def digit_of_def less_eq_char_def upt_rec [of 0] upt_rec [of "Suc 0"] upt_rec_numeral
        numeral_2_eq_2 [symmetric])
  then have "map digit_of ALPHABET ! i = map Some [0..<64] ! i" by simp
  then show "i < 64 \<Longrightarrow> digit_of (ALPHABET ! i) = Some i" by (simp add: length_ALPHABET)
qed

lemma ALPHABET_base64: "i < 64 \<Longrightarrow> is_base64_char (ALPHABET ! i)"
proof -
  have "list_all is_base64_char ALPHABET"
    by (simp add: ALPHABET_def is_base64_char_def ascii_defs)
  then show "i < 64 \<Longrightarrow> is_base64_char (ALPHABET ! i)" by (simp add: list_all_length length_ALPHABET)
qed

section \<open>Round trip\<close>

lemma mod_div_swap: "(x :: nat) div a mod b = x mod (a * b) div a"
  by (cases "a = 0") (auto simp: mod_mult2_eq)

text \<open>One turn of the decoder's loop, on the low bits that later turns use.\<close>

definition next_acc :: "nat \<Rightarrow> nat \<Rightarrow> nat" where
  "next_acc acc d = take_bit 32 (push_bit 6 acc) OR d"

lemma next_acc_mod:
  assumes "d < 64" "j + 6 \<le> 32"
  shows "next_acc acc d mod 2 ^ (j + 6) = acc mod 2 ^ j * 64 + d"
proof -
  have "take_bit 32 (push_bit 6 acc) = push_bit 6 (take_bit 26 acc)" by (simp add: take_bit_push_bit)
  then have "next_acc acc d = acc mod 2 ^ 26 * 2 ^ 6 + d"
    using push_or [of d 6 "take_bit 26 acc"] assms(1) by (simp add: next_acc_def take_bit_eq_mod)
  also have "\<dots> mod (2 ^ 6 * 2 ^ j) = 2 ^ 6 * (acc mod 2 ^ 26 mod 2 ^ j) + d"
    using assms(1) by (simp add: mod_mult2_eq)
  also have "acc mod 2 ^ 26 mod 2 ^ j = acc mod 2 ^ j"
    using assms(2) by (intro mod_mod_cancel le_imp_power_dvd) simp
  finally show ?thesis by (simp add: power_add mult.commute)
qed

lemma decode_loop_digit:
  "d < 64 \<Longrightarrow> decode_loop (ALPHABET ! d # input) out acc bits =
     (if 2 \<le> bits
      then decode_loop input (out @ [char_of (drop_bit (bits - 2) (next_acc acc d))]) (next_acc acc d) (bits - 2)
      else decode_loop input out (next_acc acc d) (bits + 6))"
  by (simp add: decode_loop.simps(2) digit_of_ALPHABET next_acc_def Let_def)

lemma char_of_div: "char_of (drop_bit k n) = c" if "n mod 2 ^ (k + 8) div 2 ^ k = byte c" for c :: char
proof -
  have "drop_bit k n mod 256 = byte c"
    using that mod_div_swap [of n "2 ^ k" 256] by (simp add: drop_bit_eq_div power_add)
  then show ?thesis by (simp add: char_of_eq_iff take_bit_eq_mod)
qed

lemma next_acc_low: "d < 64 \<Longrightarrow> k \<le> 6 \<Longrightarrow> next_acc acc d mod 2 ^ k = d mod 2 ^ k"
proof -
  assume d: "d < 64" and k: "k \<le> 6"
  have "next_acc acc d mod 2 ^ 6 = d" using next_acc_mod [OF d, of 0 acc] by simp
  moreover have "next_acc acc d mod 2 ^ 6 mod 2 ^ k = next_acc acc d mod 2 ^ k"
    using k by (intro mod_mod_cancel le_imp_power_dvd)
  ultimately show ?thesis by simp
qed

lemma first_byte:
  assumes "x < 16"
  shows "char_of (drop_bit 4 (next_acc (next_acc acc (byte f div 4)) (byte f mod 4 * 16 + x))) = f"
proof (rule char_of_div)
  have d1: "byte f div 4 < 64" using byte_lt [of f] by (simp add: less_mult_imp_div_less)
  have d2: "byte f mod 4 * 16 + x < 64"
    using assms mod_less_divisor [of 4 "byte f"] by linarith
  have "next_acc (next_acc acc (byte f div 4)) (byte f mod 4 * 16 + x) mod 2 ^ (4 + 8) =
      byte f div 4 * 64 + (byte f mod 4 * 16 + x)"
    using next_acc_mod [OF d2, of 6] next_acc_low [OF d1, of 6 acc] d1 by simp
  also have "\<dots> = (byte f div 4 * 4 + byte f mod 4) * 16 + x" by (simp only: distrib_right)
  finally show "next_acc (next_acc acc (byte f div 4)) (byte f mod 4 * 16 + x) mod 2 ^ (4 + 8) div 2 ^ 4 = byte f"
    using assms by simp
qed

lemma second_byte:
  assumes "y < 4" "acc mod 2 ^ 4 = byte s div 16"
  shows "char_of (drop_bit 2 (next_acc acc (byte s mod 16 * 4 + y))) = s"
proof (rule char_of_div)
  have d3: "byte s mod 16 * 4 + y < 64"
    using assms(1) mod_less_divisor [of 16 "byte s"] by linarith
  have "next_acc acc (byte s mod 16 * 4 + y) mod 2 ^ (2 + 8) = byte s div 16 * 64 + (byte s mod 16 * 4 + y)"
    using next_acc_mod [OF d3, of 4 acc] assms(2) by simp
  also have "\<dots> = (byte s div 16 * 16 + byte s mod 16) * 4 + y" by (simp only: distrib_right)
  finally show "next_acc acc (byte s mod 16 * 4 + y) mod 2 ^ (2 + 8) div 2 ^ 2 = byte s"
    using assms(1) by simp
qed

lemma third_byte:
  assumes "acc mod 2 ^ 2 = byte t div 64"
  shows "char_of (drop_bit 0 (next_acc acc (byte t mod 64))) = t"
proof (rule char_of_div)
  show "next_acc acc (byte t mod 64) mod 2 ^ (0 + 8) div 2 ^ 0 = byte t"
    using next_acc_mod [of "byte t mod 64" 2 acc] assms by simp
qed

lemma decode_loop_chunk:
  "\<exists>acc2. decode_loop (base64_url_encode [f, s, t] @ input) out acc 0 =
     decode_loop input (out @ [f, s, t]) acc2 0"
proof -
  let ?d1 = "byte f div 4" and ?d2 = "byte f mod 4 * 16 + byte s div 16"
    and ?d3 = "byte s mod 16 * 4 + byte t div 64" and ?d4 = "byte t mod 64"
  have lt: "byte f div 4 < 64" "byte s div 16 < 16" "byte t div 64 < 4"
    using byte_lt [of f] byte_lt [of s] byte_lt [of t] by (simp_all add: less_mult_imp_div_less)
  then have d: "?d2 < 64" "?d3 < 64"
    using mod_less_divisor [of 4 "byte f"] mod_less_divisor [of 16 "byte s"] by linarith+
  have low2: "next_acc acc ?d2 mod 2 ^ 4 = byte s div 16" for acc
    using next_acc_low [OF d(1), of 4 acc] lt(2) by simp
  have low3: "next_acc acc ?d3 mod 2 ^ 2 = byte t div 64" for acc
    using next_acc_low [OF d(2), of 2 acc] lt(3) by simp
  show ?thesis
    using lt(1) d first_byte [OF lt(2), of acc f] second_byte [OF lt(3) low2] third_byte [OF low3]
    by (auto simp: base64_url_encode_arith decode_loop_digit)
qed

text \<open>The two ends: one or two bytes left, whose unused low bits are zero.\<close>

lemma decode_loop_end1:
  "\<exists>acc2. decode_loop (base64_url_encode [f]) out acc 0 = Some (out @ [f], acc2, 4) \<and> acc2 AND mask 4 = 0"
proof -
  have lt: "byte f div 4 < 64" "byte f mod 4 * 16 < 64"
    using byte_lt [of f] mod_less_divisor [of 4 "byte f"] by (simp add: less_mult_imp_div_less) linarith
  show ?thesis
    using lt first_byte [of 0 acc f] next_acc_low [OF lt(2), of 4]
    by (simp add: base64_url_encode_arith decode_loop_digit take_bit_eq_mod flip: take_bit_eq_mask)
qed

lemma decode_loop_end2:
  "\<exists>acc2. decode_loop (base64_url_encode [f, s]) out acc 0 = Some (out @ [f, s], acc2, 2) \<and> acc2 AND mask 2 = 0"
proof -
  have lt: "byte f div 4 < 64" "byte s div 16 < 16" "byte s mod 16 * 4 < 64"
    using byte_lt [of f] byte_lt [of s] mod_less_divisor [of 16 "byte s"]
    by (simp_all add: less_mult_imp_div_less)
  then have d: "byte f mod 4 * 16 + byte s div 16 < 64" using mod_less_divisor [of 4 "byte f"] by linarith
  have low2: "next_acc acc (byte f mod 4 * 16 + byte s div 16) mod 2 ^ 4 = byte s div 16" for acc
    using next_acc_low [OF d, of 4 acc] lt(2) by simp
  show ?thesis
    using lt d first_byte [OF lt(2), of acc f] second_byte [OF _ low2, of 0] next_acc_low [OF lt(3), of 2]
    by (simp add: base64_url_encode_arith decode_loop_digit take_bit_eq_mod flip: take_bit_eq_mask)
qed

lemma decode_loop_encode:
  "\<exists>acc2 bits. decode_loop (base64_url_encode bs) out acc 0 = Some (out @ bs, acc2, bits) \<and>
     (0 < bits \<longrightarrow> acc2 AND mask bits = 0)"
proof (induction bs arbitrary: out acc rule: base64_url_encode.induct)
  case (2 f)
  then show ?case using decode_loop_end1 by blast
next
  case (3 f s)
  then show ?case using decode_loop_end2 by blast
next
  case (4 f s t rest)
  obtain acc2 where "decode_loop (base64_url_encode [f, s, t] @ base64_url_encode rest) out acc 0 =
      decode_loop (base64_url_encode rest) (out @ [f, s, t]) acc2 0"
    using decode_loop_chunk by blast
  with 4 [of "out @ [f, s, t]" acc2] show ?case by (simp add: base64_url_encode_arith(3))
qed simp

lemma encode_base64_chars: "list_all is_base64_char (base64_url_encode bs)"
proof (induction bs rule: base64_url_encode.induct)
  case (2 f)
  have "byte f div 4 < 64" "byte f mod 4 * 16 < 64"
    using byte_lt [of f] mod_less_divisor [of 4 "byte f"] by (simp add: less_mult_imp_div_less) linarith
  then show ?case by (simp add: base64_url_encode_arith ALPHABET_base64)
next
  case (3 f s)
  have "byte f div 4 < 64" "byte s div 16 < 16" "byte s mod 16 * 4 < 64"
    using byte_lt [of f] byte_lt [of s] mod_less_divisor [of 16 "byte s"]
    by (simp_all add: less_mult_imp_div_less)
  moreover from this have "byte f mod 4 * 16 + byte s div 16 < 64" using mod_less_divisor [of 4 "byte f"] by linarith
  ultimately show ?case by (simp add: base64_url_encode_arith ALPHABET_base64)
next
  case (4 f s t rest)
  have "byte f div 4 < 64" "byte s div 16 < 16" "byte t div 64 < 4"
    using byte_lt [of f] byte_lt [of s] byte_lt [of t] by (simp_all add: less_mult_imp_div_less)
  moreover from this have "byte f mod 4 * 16 + byte s div 16 < 64" "byte s mod 16 * 4 + byte t div 64 < 64"
    using mod_less_divisor [of 4 "byte f"] mod_less_divisor [of 16 "byte s"] by linarith+
  ultimately show ?case using 4 by (simp add: base64_url_encode_arith ALPHABET_base64)
qed simp

lemma base64_url_encode_Nil_iff [simp]: "base64_url_encode bs = [] \<longleftrightarrow> bs = []"
  by (cases bs rule: base64_url_encode.cases) (simp_all add: base64_url_encode_arith)

lemma length_base64_url_encode: "length (base64_url_encode bs) = (length bs * 4 + 2) div 3"
  by (induction bs rule: base64_url_encode.induct) (simp_all add: base64_url_encode_arith)

lemma base64_decode_encode: "bs \<noteq> [] \<Longrightarrow> base64_url_decode (base64_url_encode bs) (length bs) = Some bs"
  using decode_loop_encode [of bs "[]" 0] encode_base64_chars [of bs]
  by (auto simp: base64_url_decode_def)

lemma base64_decode_Some:
  "base64_url_decode s n = Some out \<Longrightarrow> out \<noteq> [] \<and> length out = n \<and> s = base64_url_encode out"
  by (auto simp: base64_url_decode_def split: if_splits option.splits)

lemma base64_url_encode_inj:
  assumes "base64_url_encode a = base64_url_encode b" "length a = length b"
  shows "a = b"
proof (cases "a = []")
  case False
  moreover from this assms have "b \<noteq> []" by auto
  ultimately have "Some a = Some b" using assms base64_decode_encode by metis
  then show ?thesis by simp
qed (use assms in simp)

text \<open>C8: decoding inverts encoding, and a text decodes only if it is the encoding of the result and
  the result has the expected length; no second text decodes to the same bytes.\<close>

theorem base64_url_decode_iff:
  "base64_url_decode s n = Some out \<longleftrightarrow> out \<noteq> [] \<and> length out = n \<and> s = base64_url_encode out"
  using base64_decode_Some base64_decode_encode by blast

end
