(* ===== verification/Crypto.thy ===== *)
theory Crypto
  imports Rust_Str
begin

text \<open>
  The host library \<open>libcrypto\<close> is outside the repository: it is a parameter, a record of the
  functions that \<open>custody.rs\<close> and \<open>signing/ed25519.rs\<close> call. A call returns the output bytes, or
  \<^const>\<open>Err\<close> with the name of the operation that failed. The wrappers below are the functions of
  those files that the other components use.
\<close>

section \<open>The library and the errors\<close>

record libcrypto =
  lib_hmac :: "string \<Rightarrow> string \<Rightarrow> string option"
  lib_digest :: "string \<Rightarrow> string option"
  lib_x25519_public :: "string \<Rightarrow> (string, string) result"
  lib_x25519_derive :: "string \<Rightarrow> string \<Rightarrow> (string, string) result"
  lib_seal :: "string \<Rightarrow> string \<Rightarrow> string \<Rightarrow> string \<Rightarrow> (string \<times> string, string) result"
  lib_open :: "string \<Rightarrow> string \<Rightarrow> string \<Rightarrow> string \<Rightarrow> string \<Rightarrow> (string option, string) result"
  lib_ed25519_public :: "string \<Rightarrow> (string, string) result"
  lib_ed25519_sign :: "string \<Rightarrow> string \<Rightarrow> (string, string) result"
  lib_ed25519_verify :: "string \<Rightarrow> string \<Rightarrow> string \<Rightarrow> (bool, string) result"

datatype crypto_error =
    InvalidKeyLength
  | InvalidEncapsulation
  | InvalidCiphertext
  | OpenSsl string
  | AuthenticationFailed
  | UnsupportedHost string

definition N_SECRET :: nat where "N_SECRET = 32"
definition N_NONCE :: nat where "N_NONCE = 12"
definition N_TAG :: nat where "N_TAG = 16"

section \<open>Digests\<close>

definition hmac_sha256 :: "libcrypto \<Rightarrow> string \<Rightarrow> string \<Rightarrow> (string, crypto_error) result" where
  "hmac_sha256 lib key data =
     (case lib_hmac lib key data of
        None \<Rightarrow> Err (OpenSsl ''HMAC-SHA256 failed'')
      | Some output \<Rightarrow>
          if length output \<noteq> N_SECRET then Err (OpenSsl ''HMAC-SHA256 failed'') else Ok output)"

definition sha256 :: "libcrypto \<Rightarrow> string \<Rightarrow> (string, crypto_error) result" where
  "sha256 lib data =
     (case lib_digest lib data of
        None \<Rightarrow> Err (OpenSsl ''SHA-256 failed'')
      | Some digest \<Rightarrow>
          if length digest \<noteq> N_SECRET then Err (OpenSsl ''SHA-256 failed'') else Ok digest)"

lemma hmac_sha256_length: "hmac_sha256 lib k d = Ok out \<Longrightarrow> length out = 32"
  by (auto simp: hmac_sha256_def N_SECRET_def split: option.splits if_splits)

lemma sha256_length: "sha256 lib d = Ok out \<Longrightarrow> length out = 32"
  by (auto simp: sha256_def N_SECRET_def split: option.splits if_splits)

section \<open>Ed25519\<close>

definition SEED_BYTES :: nat where "SEED_BYTES = 32"
definition PUBLIC_KEY_BYTES :: nat where "PUBLIC_KEY_BYTES = 32"
definition SIGNATURE_BYTES :: nat where "SIGNATURE_BYTES = 64"

record ed25519_key_pair =
  seed :: string
  ed_public_key :: string

definition from_seed :: "libcrypto \<Rightarrow> string \<Rightarrow> (ed25519_key_pair, crypto_error) result" where
  "from_seed lib s =
     and_then (reject_if (length s \<noteq> SEED_BYTES) InvalidKeyLength) (\<lambda>_.
     and_then (map_err OpenSsl (lib_ed25519_public lib s)) (\<lambda>pk.
     and_then (reject_if (length pk \<noteq> PUBLIC_KEY_BYTES) (OpenSsl ''EVP_PKEY_get_raw_public_key failed'')) (\<lambda>_.
     Ok \<lparr>seed = s, ed_public_key = pk\<rparr>)))"

definition ed25519_sign :: "libcrypto \<Rightarrow> ed25519_key_pair \<Rightarrow> string \<Rightarrow> (string, crypto_error) result" where
  "ed25519_sign lib key message =
     and_then (map_err OpenSsl (lib_ed25519_sign lib (seed key) message)) (\<lambda>signature.
     and_then (reject_if (length signature \<noteq> SIGNATURE_BYTES) (OpenSsl ''EVP_DigestSign failed'')) (\<lambda>_.
     Ok signature))"

definition ed25519_verify :: "libcrypto \<Rightarrow> string \<Rightarrow> string \<Rightarrow> string \<Rightarrow> (bool, crypto_error) result" where
  "ed25519_verify lib public_key message signature =
     (if length public_key \<noteq> PUBLIC_KEY_BYTES \<or> length signature \<noteq> SIGNATURE_BYTES then Ok False
      else map_err OpenSsl (lib_ed25519_verify lib public_key message signature))"

lemma ed25519_sign_length: "ed25519_sign lib k m = Ok s \<Longrightarrow> length s = 64"
  by (auto simp: ed25519_sign_def SIGNATURE_BYTES_def)

lemma ed25519_verify_lengths:
  "ed25519_verify lib pk m s = Ok True \<Longrightarrow> length pk = 32 \<and> length s = 64"
  by (auto simp: ed25519_verify_def PUBLIC_KEY_BYTES_def SIGNATURE_BYTES_def split: if_splits)

text \<open>
  What is documented of the signature scheme: a signature made with a seed verifies under the
  public key of that seed.
\<close>

definition ed25519_correct :: "libcrypto \<Rightarrow> bool" where
  "ed25519_correct lib \<longleftrightarrow>
     (\<forall>s pk m sig. lib_ed25519_public lib s = Ok pk \<longrightarrow> lib_ed25519_sign lib s m = Ok sig \<longrightarrow>
        lib_ed25519_verify lib pk m sig = Ok True)"

lemma ed25519_sign_verify:
  assumes "ed25519_correct lib" "from_seed lib s = Ok key" "ed25519_sign lib key m = Ok sig"
  shows "ed25519_verify lib (ed_public_key key) m sig = Ok True"
  using assms
  by (auto simp: ed25519_correct_def from_seed_def ed25519_sign_def ed25519_verify_def
      PUBLIC_KEY_BYTES_def SIGNATURE_BYTES_def)

text \<open>A library whose operations are simple functions, for concrete evaluations.\<close>

definition checksum :: "string \<Rightarrow> string" where
  "checksum s = replicate 31 (CHR 0x00) @ [char_of (foldl (\<lambda>a c. a * 31 + byte c) 0 s)]"

definition toy_lib :: libcrypto where
  "toy_lib = \<lparr>
     lib_hmac = (\<lambda>k d. Some (checksum (k @ d))),
     lib_digest = (\<lambda>d. Some (checksum d)),
     lib_x25519_public = (\<lambda>k. Ok k),
     lib_x25519_derive = (\<lambda>k p. Ok (map2 (\<lambda>a b. char_of (byte a + byte b)) k p)),
     lib_seal = (\<lambda>k n a p. Ok (p, replicate 16 (CHR 0x00))),
     lib_open = (\<lambda>k n a c t. Ok (if t = replicate 16 (CHR 0x00) then Some c else None)),
     lib_ed25519_public = (\<lambda>s. Ok s),
     lib_ed25519_sign = (\<lambda>s m. Ok (checksum (s @ m) @ replicate 32 (CHR 0x00))),
     lib_ed25519_verify = (\<lambda>pk m sig. Ok (sig = checksum (pk @ m) @ replicate 32 (CHR 0x00)))\<rparr>"

end
