(* ===== verification/Signing.thy ===== *)
theory Signing
  imports Base64 Crypto
begin

text \<open>
  The signed capabilities of \<open>crates/blindpass-core/src/signing.rs\<close>: keys derived per domain, the
  browser capability and the fleet provisioning capability, each signed and verified. The clock
  and the message authentication code are arguments.
\<close>

section \<open>Derived keys\<close>

datatype browser_scope = Metadata | Submit | Status

fun scope_str :: "browser_scope \<Rightarrow> string" where
  "scope_str Metadata = ''metadata''"
| "scope_str Submit = ''submit''"
| "scope_str Status = ''status''"

datatype verify_error = Invalid | Expired

definition derive_secret :: "libcrypto \<Rightarrow> string \<Rightarrow> string \<Rightarrow> (string, crypto_error) result" where
  "derive_secret lib root_secret domain =
     and_then (reject_if (domain = [] \<or> \<not> list_all (\<lambda>b. is_ascii_lowercase b \<or> b = CHR ''-'') domain)
       (UnsupportedHost ''invalid signing domain'')) (\<lambda>_.
     map_ok base64_url_encode (hmac_sha256 lib root_secret (''blindpass:'' @ domain)))"

definition valid_request_id :: "string \<Rightarrow> bool" where
  "valid_request_id request_id \<longleftrightarrow>
     length request_id = 64 \<and>
     list_all (\<lambda>b. is_ascii_hexdigit b \<and> \<not> is_ascii_uppercase b) request_id"

section \<open>Browser capabilities\<close>

definition browser_message :: "string \<Rightarrow> u64 \<Rightarrow> browser_scope \<Rightarrow> string" where
  "browser_message request_id expires_at scope =
     request_id @ ''.'' @ dec (unat expires_at) @ ''.'' @ scope_str scope"

definition sign_browser_payload ::
    "libcrypto \<Rightarrow> string \<Rightarrow> u64 \<Rightarrow> browser_scope \<Rightarrow> string \<Rightarrow> (string, crypto_error) result" where
  "sign_browser_payload lib request_id expires_at scope root_secret =
     and_then (reject_if (\<not> valid_request_id request_id \<or> expires_at = 0)
       (UnsupportedHost ''invalid browser capability'')) (\<lambda>_.
     and_then (derive_secret lib root_secret ''browser-sig'') (\<lambda>derived.
     and_then (hmac_sha256 lib derived (browser_message request_id expires_at scope)) (\<lambda>digest.
     Ok (dec (unat expires_at) @ ''.'' @ base64_url_encode digest))))"

text \<open>The shape that both verifiers require of the signature part.\<close>

definition valid_signature_text :: "string \<Rightarrow> bool" where
  "valid_signature_text signature \<longleftrightarrow>
     CHR ''.'' \<notin> set signature \<and> length signature = 43 \<and> list_all is_base64_char signature"

definition verify_browser_payload ::
    "libcrypto \<Rightarrow> string \<Rightarrow> browser_scope \<Rightarrow> string \<Rightarrow> string \<Rightarrow> u64 \<Rightarrow> (u64, verify_error) result" where
  "verify_browser_payload lib request_id scope token root_secret now_seconds =
     and_then (reject_if (\<not> valid_request_id request_id) Invalid) (\<lambda>_.
     and_then (ok_or (split_once ''.'' token) Invalid) (\<lambda>(expiry, signature).
     and_then (reject_if (\<not> valid_signature_text signature) Invalid) (\<lambda>_.
     and_then (ok_or (parse_u64 expiry) Invalid) (\<lambda>expires_at.
     and_then (reject_if (expires_at = 0) Invalid) (\<lambda>_.
     and_then (reject_if (expires_at < now_seconds) Expired) (\<lambda>_.
     and_then (map_err (\<lambda>_. Invalid) (sign_browser_payload lib request_id expires_at scope root_secret)) (\<lambda>expected.
     and_then (ok_or (split_once ''.'' expected) Invalid) (\<lambda>(_, expected_signature).
     and_then (reject_if (\<not> constant_time_equal signature expected_signature) Invalid) (\<lambda>_.
     Ok expires_at)))))))))"

section \<open>Fleet provisioning capabilities\<close>

definition FLEET_PROVISIONING_DOMAIN :: string where
  "FLEET_PROVISIONING_DOMAIN = ''fleet-provisioning-sig''"

fun fleet_scope :: "browser_scope \<Rightarrow> string option" where
  "fleet_scope Metadata = Some (scope_str Metadata)"
| "fleet_scope Submit = Some (scope_str Submit)"
| "fleet_scope Status = None"

definition fleet_message :: "string \<Rightarrow> u64 \<Rightarrow> string \<Rightarrow> string" where
  "fleet_message link_id expires_at scope =
     ''fleet-provisioning.'' @ link_id @ ''.'' @ dec (unat expires_at) @ ''.'' @ scope"

definition fleet_provisioning_signature ::
    "libcrypto \<Rightarrow> string \<Rightarrow> u64 \<Rightarrow> browser_scope \<Rightarrow> string \<Rightarrow> (string, crypto_error) result" where
  "fleet_provisioning_signature lib link_id expires_at scope root_secret =
     and_then
       (ok_or (case fleet_scope scope of
            None \<Rightarrow> None
          | Some s \<Rightarrow> if valid_request_id link_id \<and> expires_at \<noteq> 0 then Some s else None)
         (UnsupportedHost ''invalid fleet provisioning capability'')) (\<lambda>scope.
     and_then (derive_secret lib root_secret FLEET_PROVISIONING_DOMAIN) (\<lambda>derived.
     and_then (hmac_sha256 lib derived (fleet_message link_id expires_at scope)) (\<lambda>digest.
     Ok (base64_url_encode digest))))"

definition sign_fleet_provisioning_capability ::
    "libcrypto \<Rightarrow> string \<Rightarrow> u64 \<Rightarrow> browser_scope \<Rightarrow> string \<Rightarrow> (string, crypto_error) result" where
  "sign_fleet_provisioning_capability lib link_id expires_at scope root_secret =
     map_ok (\<lambda>signature. dec (unat expires_at) @ ''.'' @ signature)
       (fleet_provisioning_signature lib link_id expires_at scope root_secret)"

definition verify_fleet_provisioning_capability ::
    "libcrypto \<Rightarrow> string \<Rightarrow> browser_scope \<Rightarrow> string \<Rightarrow> string \<Rightarrow> u64 \<Rightarrow> (u64, verify_error) result" where
  "verify_fleet_provisioning_capability lib link_id scope token root_secret now_seconds =
     and_then (reject_if (\<not> valid_request_id link_id \<or> fleet_scope scope = None) Invalid) (\<lambda>_.
     and_then (ok_or (split_once ''.'' token) Invalid) (\<lambda>(expiry, signature).
     and_then (reject_if (\<not> valid_signature_text signature) Invalid) (\<lambda>_.
     and_then (ok_or (parse_u64 expiry) Invalid) (\<lambda>expires_at.
     and_then (reject_if (expires_at = 0) Invalid) (\<lambda>_.
     and_then (map_err (\<lambda>_. Invalid)
       (fleet_provisioning_signature lib link_id expires_at scope root_secret)) (\<lambda>expected.
     and_then (reject_if (\<not> constant_time_equal signature expected) Invalid) (\<lambda>_.
     and_then (reject_if (expires_at < now_seconds) Expired) (\<lambda>_.
     Ok expires_at))))))))"

definition issuer_key_id :: "string \<Rightarrow> string" where
  "issuer_key_id public_key = ''ed25519-'' @ base64_url_encode public_key"

section \<open>Signatures as text\<close>

lemma no_dot_dec: "CHR ''.'' \<notin> set (dec n)"
  using dec_digits [of "CHR ''.''" n] by (auto simp: is_ascii_digit_def)

lemma no_dot_base64: "CHR ''.'' \<notin> set (base64_url_encode bs)"
proof
  assume "CHR ''.'' \<in> set (base64_url_encode bs)"
  with encode_base64_chars [of bs] have "is_base64_char (CHR ''.'')" by (simp add: list_all_iff)
  then show False by (simp add: is_base64_char_def ascii_defs)
qed

lemma valid_signature_text_hmac:
  "hmac_sha256 lib k d = Ok out \<Longrightarrow> valid_signature_text (base64_url_encode out)"
  using hmac_sha256_length [of lib k d out] length_base64_url_encode [of out] encode_base64_chars [of out]
  by (simp add: valid_signature_text_def no_dot_base64)

lemma split_token [simp]: "split_once ''.'' (dec n @ ''.'' @ s) = Some (dec n, s)"
  using split_once_char [OF no_dot_dec, of n s] by simp

text \<open>A token is an expiry text, a dot and the rest.\<close>

lemma split_token_iff:
  "split_once ''.'' token = Some (e, s) \<longleftrightarrow> token = e @ ''.'' @ s \<and> CHR ''.'' \<notin> set e"
  using split_once_Some [of "''.''" token e s] split_once_char_fst [of "CHR ''.''" token e s]
    split_once_char [of "CHR ''.''" e s] by auto

lemma parse_u64_no_dot: "parse_u64 s = Some x \<Longrightarrow> CHR ''.'' \<notin> set s"
proof
  assume "parse_u64 s = Some x" "CHR ''.'' \<in> set s"
  with parse_u64_bound [of s x] obtain t where "list_all is_ascii_digit t" "CHR ''.'' \<in> set t" by auto
  then show False by (auto simp: list_all_iff is_ascii_digit_def)
qed

lemma sign_browser_Ok:
  "sign_browser_payload lib rid e scope root = Ok t \<longleftrightarrow>
     valid_request_id rid \<and> e \<noteq> 0 \<and>
     (\<exists>key digest. derive_secret lib root ''browser-sig'' = Ok key \<and>
        hmac_sha256 lib key (browser_message rid e scope) = Ok digest \<and>
        t = dec (unat e) @ ''.'' @ base64_url_encode digest)"
  by (auto simp: sign_browser_payload_def)

lemma fleet_signature_Ok:
  "fleet_provisioning_signature lib rid e scope root = Ok s \<longleftrightarrow>
     valid_request_id rid \<and> e \<noteq> 0 \<and> fleet_scope scope \<noteq> None \<and>
     (\<exists>key digest. derive_secret lib root FLEET_PROVISIONING_DOMAIN = Ok key \<and>
        hmac_sha256 lib key (fleet_message rid e (scope_str scope)) = Ok digest \<and>
        s = base64_url_encode digest)"
  by (cases scope) (auto simp: fleet_provisioning_signature_def)

lemma split_signed_token: "split_once ''.'' (dec n @ ''.'' @ base64_url_encode s) = Some (dec n, base64_url_encode s)"
  by (rule split_token)

lemma verify_browser_Ok:
  "verify_browser_payload lib rid scope token root now = Ok e \<longleftrightarrow>
     now \<le> e \<and> (\<exists>expiry signature. token = expiry @ ''.'' @ signature \<and> parse_u64 expiry = Some e \<and>
       sign_browser_payload lib rid e scope root = Ok (dec (unat e) @ ''.'' @ signature))"
  (is "?l = ?r")
proof
  assume ?l
  then obtain expiry signature expected x where
    t: "token = expiry @ ''.'' @ signature" "parse_u64 expiry = Some e" "now \<le> e"
    and sgn: "sign_browser_payload lib rid e scope root = Ok expected"
    and "split_once ''.'' expected = Some (x, signature)"
    by (auto simp: verify_browser_payload_def constant_time_equal_iff not_less split_token_iff [of token])
  moreover from sgn obtain s where "expected = dec (unat e) @ ''.'' @ base64_url_encode s"
    by (auto simp: sign_browser_Ok)
  ultimately have "expected = dec (unat e) @ ''.'' @ signature" using split_signed_token by simp
  with t sgn show ?r by blast
next
  assume ?r
  then obtain expiry signature where
    t: "token = expiry @ ''.'' @ signature" "parse_u64 expiry = Some e" "now \<le> e"
    and sgn: "sign_browser_payload lib rid e scope root = Ok (dec (unat e) @ ''.'' @ signature)" by blast
  from t parse_u64_no_dot have "split_once ''.'' token = Some (expiry, signature)"
    by (simp add: split_token_iff)
  moreover from sgn have "valid_signature_text signature" "valid_request_id rid" "e \<noteq> 0"
    by (auto simp: sign_browser_Ok valid_signature_text_hmac)
  ultimately show ?l
    using t sgn by (simp add: verify_browser_payload_def constant_time_equal_iff not_less del: append.simps)
qed

lemma verify_fleet_Ok:
  "verify_fleet_provisioning_capability lib rid scope token root now = Ok e \<longleftrightarrow>
     now \<le> e \<and> (\<exists>expiry signature. token = expiry @ ''.'' @ signature \<and> parse_u64 expiry = Some e \<and>
       fleet_provisioning_signature lib rid e scope root = Ok signature)"
  by (auto simp: verify_fleet_provisioning_capability_def split_token_iff constant_time_equal_iff
      fleet_signature_Ok not_less valid_signature_text_hmac dest: parse_u64_no_dot)

section \<open>The signed messages\<close>

lemma valid_request_id_length: "valid_request_id r \<Longrightarrow> length r = 64"
  by (simp add: valid_request_id_def)

lemma scope_str_inj: "scope_str a = scope_str b \<Longrightarrow> a = b"
  by (cases a; cases b) auto

lemma dec_dot_inj: "dec m @ CHR ''.'' # x = dec n @ CHR ''.'' # y \<Longrightarrow> m = n \<and> x = y"
proof -
  assume eq: "dec m @ CHR ''.'' # x = dec n @ CHR ''.'' # y"
  have "Some (dec m, x) = split_once ''.'' (dec m @ CHR ''.'' # x)"
    by (simp only: split_once_char [OF no_dot_dec])
  also have "\<dots> = Some (dec n, y)" by (simp only: eq split_once_char [OF no_dot_dec])
  finally show "m = n \<and> x = y" using dec_inj by blast
qed

lemma browser_message_inj:
  assumes "browser_message r e s = browser_message r2 e2 s2" "valid_request_id r" "valid_request_id r2"
  shows "r = r2 \<and> e = e2 \<and> s = s2"
  using assms by (auto simp: browser_message_def valid_request_id_length word_unat_eq_iff dest!: dec_dot_inj scope_str_inj)

lemma fleet_message_inj:
  assumes "fleet_message r e (scope_str s) = fleet_message r2 e2 (scope_str s2)"
    "valid_request_id r" "valid_request_id r2"
  shows "r = r2 \<and> e = e2 \<and> s = s2"
  using assms by (auto simp: fleet_message_def valid_request_id_length word_unat_eq_iff dest!: dec_dot_inj scope_str_inj)

text \<open>A request id starts with a hexadecimal digit and its sixth byte is one too; the fleet prefix has an \<open>l\<close> there.\<close>

lemma browser_fleet_message_ne: "valid_request_id r \<Longrightarrow> browser_message r e s \<noteq> fleet_message r2 e2 s2"
proof
  assume v: "valid_request_id r" and eq: "browser_message r e s = fleet_message r2 e2 s2"
  have "browser_message r e s ! 1 = r ! 1"
    using v by (simp add: browser_message_def nth_append valid_request_id_length)
  moreover have "fleet_message r2 e2 s2 ! 1 = CHR ''l''" by (simp add: fleet_message_def)
  moreover have "is_ascii_hexdigit (r ! 1)" using v by (simp add: valid_request_id_def list_all_length)
  ultimately show False using eq by (simp add: ascii_defs)
qed

text \<open>The two codes agree.\<close>

definition same_code :: "libcrypto \<Rightarrow> string \<Rightarrow> string \<Rightarrow> string \<Rightarrow> string \<Rightarrow> bool" where
  "same_code lib k1 m1 k2 m2 \<longleftrightarrow>
     is_ok (hmac_sha256 lib k1 m1) \<and> hmac_sha256 lib k1 m1 = hmac_sha256 lib k2 m2"

lemma same_codeI:
  assumes "hmac_sha256 lib k1 m1 = Ok a" "hmac_sha256 lib k2 m2 = Ok b"
    "base64_url_encode a = base64_url_encode b"
  shows "same_code lib k1 m1 k2 m2"
proof -
  have "a = b" using assms by (auto intro: base64_url_encode_inj dest!: hmac_sha256_length)
  with assms show ?thesis by (simp add: same_code_def)
qed

text \<open>The only way to read a signed token.\<close>

lemma signed_token_parts:
  assumes "expiry @ ''.'' @ signature = dec (unat e) @ ''.'' @ s" "parse_u64 expiry = Some x"
  shows "x = e \<and> signature = s"
proof -
  have "Some (expiry, signature) = split_once ''.'' (expiry @ ''.'' @ signature)"
    using parse_u64_no_dot [OF assms(2)] by (simp add: split_once_char)
  also have "\<dots> = Some (dec (unat e), s)" by (simp only: assms(1) split_token)
  finally show ?thesis using assms(2) by simp
qed

section \<open>Properties of the capabilities\<close>

text \<open>C9: a capability of either kind is accepted exactly when it is an expiry text, not yet
  passed, followed by the signature that the signer computes for that request, expiry and scope.\<close>

theorem verify_capability_iff:
  "(verify_browser_payload lib rid scope token root now = Ok e \<longleftrightarrow>
      now \<le> e \<and> (\<exists>expiry signature. token = expiry @ ''.'' @ signature \<and> parse_u64 expiry = Some e \<and>
        sign_browser_payload lib rid e scope root = Ok (dec (unat e) @ ''.'' @ signature))) \<and>
   (verify_fleet_provisioning_capability lib rid scope token root now = Ok e \<longleftrightarrow>
      now \<le> e \<and> (\<exists>expiry signature. token = expiry @ ''.'' @ signature \<and> parse_u64 expiry = Some e \<and>
        sign_fleet_provisioning_capability lib rid e scope root = Ok (dec (unat e) @ ''.'' @ signature)))"
  using verify_browser_Ok verify_fleet_Ok by (simp add: sign_fleet_provisioning_capability_def)

text \<open>C10: a signed capability is accepted until the second in which it expires.\<close>

theorem capability_roundtrip:
  assumes "now \<le> e"
  shows "(sign_browser_payload lib rid e scope root = Ok token \<longrightarrow>
      verify_browser_payload lib rid scope token root now = Ok e) \<and>
    (sign_fleet_provisioning_capability lib rid e scope root = Ok token \<longrightarrow>
      verify_fleet_provisioning_capability lib rid scope token root now = Ok e)"
proof -
  have "\<exists>s. token = dec (unat e) @ ''.'' @ s" if "sign_browser_payload lib rid e scope root = Ok token"
    using that by (auto simp: sign_browser_Ok)
  with assms show ?thesis
    by (fastforce simp: verify_browser_Ok verify_fleet_Ok sign_fleet_provisioning_capability_def intro: parse_u64_dec)
qed

lemma valid_as [simp]: "valid_request_id (replicate 64 (CHR ''a''))"
  by (simp only: valid_request_id_def length_replicate list_all_iff set_replicate_conv_if) (simp add: ascii_defs)

lemma toy_signs:
  "\<exists>t. sign_browser_payload toy_lib (replicate 64 (CHR ''a'')) 5 Metadata ''root'' = Ok t"
  "\<exists>t. sign_fleet_provisioning_capability toy_lib (replicate 64 (CHR ''a'')) 5 Submit ''root'' = Ok t"
  by (auto simp: sign_browser_payload_def sign_fleet_provisioning_capability_def fleet_provisioning_signature_def
      derive_secret_def hmac_sha256_def toy_lib_def N_SECRET_def checksum_def ascii_defs
      FLEET_PROVISIONING_DOMAIN_def)

theorem capability_roundtrip_witness:
  "\<exists>t u. verify_browser_payload toy_lib (replicate 64 (CHR ''a'')) Metadata t ''root'' 5 = Ok 5 \<and>
    verify_fleet_provisioning_capability toy_lib (replicate 64 (CHR ''a'')) Submit u ''root'' 5 = Ok 5"
  using toy_signs capability_roundtrip [of 5 5 toy_lib "replicate 64 (CHR ''a'')"] by blast

text \<open>C11: a capability signed for one request and scope is not accepted for another one, unless
  the authentication code of the derived key agrees on the two different messages.\<close>

theorem capability_binding:
  assumes "sign_browser_payload lib rid e scope root = Ok token"
    "verify_browser_payload lib rid2 scope2 token root now = Ok e2"
  shows "(rid2, scope2, e2) = (rid, scope, e) \<or>
    (\<exists>key. derive_secret lib root ''browser-sig'' = Ok key \<and>
       browser_message rid e scope \<noteq> browser_message rid2 e scope2 \<and>
       same_code lib key (browser_message rid e scope) key (browser_message rid2 e scope2))"
proof -
  from assms(1) obtain key digest where v: "valid_request_id rid" and
    k: "derive_secret lib root ''browser-sig'' = Ok key"
    "hmac_sha256 lib key (browser_message rid e scope) = Ok digest"
    "token = dec (unat e) @ ''.'' @ base64_url_encode digest" by (auto simp: sign_browser_Ok)
  from assms(2) obtain expiry signature digest2 where v2: "valid_request_id rid2"
    "token = expiry @ ''.'' @ signature" "parse_u64 expiry = Some e2"
    "hmac_sha256 lib key (browser_message rid2 e2 scope2) = Ok digest2"
    "signature = base64_url_encode digest2"
    using k(1) by (auto simp: verify_browser_Ok sign_browser_Ok)
  with k signed_token_parts [of expiry signature e "base64_url_encode digest" e2]
  have e: "e2 = e" and "base64_url_encode digest = base64_url_encode digest2" by auto
  with k v2 have "same_code lib key (browser_message rid e scope) key (browser_message rid2 e scope2)"
    by (auto intro: same_codeI)
  with k(1) e v v2(1) browser_message_inj [of rid e scope rid2 e scope2] show ?thesis by blast
qed

theorem capability_binding_witness:
  "\<exists>t. sign_browser_payload toy_lib (replicate 64 (CHR ''a'')) 5 Metadata ''root'' = Ok t \<and>
    (verify_browser_payload toy_lib (replicate 64 (CHR ''a'')) Metadata t ''root'' 5 = Ok 5)"
proof -
  obtain t where t: "sign_browser_payload toy_lib (replicate 64 (CHR ''a'')) 5 Metadata ''root'' = Ok t"
    using toy_signs by blast
  then have v: "verify_browser_payload toy_lib (replicate 64 (CHR ''a'')) Metadata t ''root'' 5 = Ok 5"
    using parse_u64_dec [of 5] by (auto simp: verify_browser_Ok sign_browser_Ok)
  from capability_binding [OF t v] t v show ?thesis by blast
qed

text \<open>C12: a browser capability that is accepted as a fleet provisioning capability shows two
  different messages with the same authentication code, under the keys of the two domains.\<close>

theorem capability_separation:
  assumes "sign_browser_payload lib rid e scope root = Ok token"
    "verify_fleet_provisioning_capability lib link scope2 token root now = Ok e2"
  shows "\<exists>key key2. derive_secret lib root ''browser-sig'' = Ok key \<and>
    derive_secret lib root FLEET_PROVISIONING_DOMAIN = Ok key2 \<and>
    browser_message rid e scope \<noteq> fleet_message link e (scope_str scope2) \<and>
    same_code lib key (browser_message rid e scope) key2 (fleet_message link e (scope_str scope2))"
proof -
  from assms(1) obtain key digest where v: "valid_request_id rid" and
    k: "derive_secret lib root ''browser-sig'' = Ok key"
    "hmac_sha256 lib key (browser_message rid e scope) = Ok digest"
    "token = dec (unat e) @ ''.'' @ base64_url_encode digest" by (auto simp: sign_browser_Ok)
  from assms(2) obtain expiry signature key2 digest2 where
    t: "token = expiry @ ''.'' @ signature" "parse_u64 expiry = Some e2"
    and k2: "derive_secret lib root FLEET_PROVISIONING_DOMAIN = Ok key2"
    "hmac_sha256 lib key2 (fleet_message link e2 (scope_str scope2)) = Ok digest2"
    "signature = base64_url_encode digest2"
    by (auto simp: verify_fleet_Ok fleet_signature_Ok)
  from k(3) t signed_token_parts [of expiry signature e "base64_url_encode digest" e2] k2(3)
  have "e2 = e" "base64_url_encode digest = base64_url_encode digest2" by auto
  with k k2 have "same_code lib key (browser_message rid e scope) key2 (fleet_message link e (scope_str scope2))"
    by (auto intro: same_codeI)
  with k(1) k2(1) browser_fleet_message_ne [OF v] show ?thesis by blast
qed

definition constant_lib :: libcrypto where
  "constant_lib = toy_lib\<lparr>lib_hmac := (\<lambda>k d. Some (replicate 32 (CHR 0x00)))\<rparr>"

theorem capability_separation_witness:
  "\<exists>t k k2. sign_browser_payload constant_lib (replicate 64 (CHR ''a'')) 5 Metadata ''root'' = Ok t \<and>
    verify_fleet_provisioning_capability constant_lib (replicate 64 (CHR ''a'')) Submit t ''root'' 5 = Ok 5 \<and>
    same_code constant_lib k (browser_message (replicate 64 (CHR ''a'')) 5 Metadata)
      k2 (fleet_message (replicate 64 (CHR ''a'')) 5 (scope_str Submit))"
proof -
  have h: "hmac_sha256 constant_lib k d = Ok (replicate 32 (CHR 0x00))" for k d
    by (simp add: hmac_sha256_def constant_lib_def N_SECRET_def)
  have d: "\<exists>k. derive_secret constant_lib r s = Ok k" if "s = ''browser-sig'' \<or> s = ''fleet-provisioning-sig''" for r s
    using that by (auto simp: derive_secret_def h ascii_defs)
  obtain t where t: "sign_browser_payload constant_lib (replicate 64 (CHR ''a'')) 5 Metadata ''root'' = Ok t"
    and te: "t = dec (unat (5 :: u64)) @ ''.'' @ base64_url_encode (replicate 32 (CHR 0x00))"
    using d [of "''browser-sig''" "''root''"] by (auto simp: sign_browser_Ok h)
  have v: "verify_fleet_provisioning_capability constant_lib (replicate 64 (CHR ''a'')) Submit t ''root'' 5 = Ok 5"
    unfolding verify_fleet_Ok te using parse_u64_dec [of 5] d [of "''fleet-provisioning-sig''" "''root''"]
    by (auto simp: fleet_signature_Ok h FLEET_PROVISIONING_DOMAIN_def)
  from capability_separation [OF t v] t v show ?thesis by blast
qed

end
