(* ===== verification/Clock.thy ===== *)
theory Clock
  imports Prelude
begin

text \<open>
  The clock checks of \<open>crates/blindpass-core/src/clock.rs\<close>. Readings are \<open>i64\<close> milliseconds and the
  additions saturate as in the code. The readings themselves (\<open>SystemClock\<close>) are arguments.
\<close>

record clock_anchor =
  boot_id :: "string option"
  boottime_ms :: i64
  database_ms :: i64
  host_wall_ms :: i64

record running_clock_check =
  database_regressed :: bool
  host_regressed :: bool
  database_advanced :: bool
  host_advanced :: bool

definition check_running_clock :: "i64 \<Rightarrow> i64 \<Rightarrow> i64 \<Rightarrow> i64 \<Rightarrow> i64 \<Rightarrow> i64 \<Rightarrow> running_clock_check" where
  "check_running_clock previous_database_ms previous_host_ms current_database_ms current_host_ms
     monotonic_elapsed_ms tolerance_ms =
     (let expected_database_ms = saturating_add_i64 previous_database_ms monotonic_elapsed_ms;
          expected_host_ms = saturating_add_i64 previous_host_ms monotonic_elapsed_ms
      in \<lparr>database_regressed =
            sint (saturating_add_i64 current_database_ms tolerance_ms) < sint expected_database_ms,
          host_regressed =
            sint (saturating_add_i64 current_host_ms tolerance_ms) < sint expected_host_ms,
          database_advanced =
            sint current_database_ms > sint (saturating_add_i64 expected_database_ms tolerance_ms),
          host_advanced =
            sint current_host_ms > sint (saturating_add_i64 expected_host_ms tolerance_ms)\<rparr>)"

datatype startup_clock_check =
    SameBoot | BootChangedOrUnknown | DatabaseRegressed | HostRegressed | BothRegressed

definition check_startup_clock :: "clock_anchor \<Rightarrow> clock_anchor \<Rightarrow> i64 \<Rightarrow> startup_clock_check" where
  "check_startup_clock previous current tolerance_ms =
     (case (boot_id previous, boot_id current) of
        (Some previous_boot_id, Some current_boot_id) \<Rightarrow>
          if previous_boot_id \<noteq> current_boot_id \<or> sint (boottime_ms current) < sint (boottime_ms previous)
          then BootChangedOrUnknown
          else
            let elapsed_ms = boottime_ms current - boottime_ms previous;
                expected_database_ms = saturating_add_i64 (database_ms previous) elapsed_ms;
                expected_host_ms = saturating_add_i64 (host_wall_ms previous) elapsed_ms;
                database_regressed =
                  sint (saturating_add_i64 (database_ms current) tolerance_ms) < sint expected_database_ms;
                host_regressed =
                  sint (saturating_add_i64 (host_wall_ms current) tolerance_ms) < sint expected_host_ms
            in if database_regressed \<and> host_regressed then BothRegressed
               else if database_regressed then DatabaseRegressed
               else if host_regressed then HostRegressed
               else SameBoot
      | _ \<Rightarrow> BootChangedOrUnknown)"

section \<open>Properties\<close>

text \<open>
  What a clock should read after some time: the exact sum, within the range of the type. The checks
  saturate three times; only this one limit remains in what they decide.
\<close>

definition expected_ms :: "i64 \<Rightarrow> i64 \<Rightarrow> int" where
  "expected_ms previous elapsed = max i64_min (min i64_max (sint previous + sint elapsed))"

lemma regressed_exact:
  fixes c p el tol :: i64
  assumes "0 \<le> sint tol"
  shows "sint (saturating_add_i64 c tol) < sint (saturating_add_i64 p el) \<longleftrightarrow> sint c < expected_ms p el - sint tol"
  using assms sint_i64_range [of c] by (auto simp: sint_saturating_add expected_ms_def)

lemma advanced_exact:
  fixes c p el tol :: i64
  assumes "0 \<le> sint tol"
  shows "sint (saturating_add_i64 (saturating_add_i64 p el) tol) < sint c \<longleftrightarrow> expected_ms p el + sint tol < sint c"
proof -
  have "i64_min \<le> expected_ms p el" by (simp add: expected_ms_def)
  then show ?thesis
    using assms sint_i64_range [of c] by (auto simp: sint_saturating_add expected_ms_def)
qed

text \<open>C13: with a tolerance that is not negative the running check decides each of its four flags as
  if there were no limits on the integers but the one on the expected reading: the database clock is
  reported regressed exactly when it reads more than the tolerance below what its previous reading
  and the elapsed time make it, and advanced exactly when it reads more than the tolerance above;
  the same holds of the host clock and its own previous reading. So no clock is ever reported both
  regressed and advanced.\<close>

theorem running_clock_window:
  assumes "0 \<le> sint tol" "r = check_running_clock pd ph cd ch el tol"
  shows "(database_regressed r \<longleftrightarrow> sint cd < expected_ms pd el - sint tol) \<and>
    (database_advanced r \<longleftrightarrow> expected_ms pd el + sint tol < sint cd) \<and>
    (host_regressed r \<longleftrightarrow> sint ch < expected_ms ph el - sint tol) \<and>
    (host_advanced r \<longleftrightarrow> expected_ms ph el + sint tol < sint ch) \<and>
    \<not> (database_regressed r \<and> database_advanced r) \<and> \<not> (host_regressed r \<and> host_advanced r)"
  using assms(1) by (auto simp: assms(2) check_running_clock_def Let_def regressed_exact advanced_exact)

theorem running_clock_window_witness:
  "database_regressed (check_running_clock 1000 1000 1970 2021 1000 20) \<and>
   host_advanced (check_running_clock 1000 1000 1970 2021 1000 20) \<and>
   \<not> host_regressed (check_running_clock 1000 1000 1970 2021 1000 20)"
  using running_clock_window [of 20 _ 1000 1000 1970 2021 1000, OF _ refl]
  by (simp add: i64_min_def i64_max_def expected_ms_def)

text \<open>C14: at startup the clocks count as those of the same boot only if both boot identifiers are
  known and equal and the boot time did not go back; the verdict on the clocks is then the one of
  the running check over the elapsed boot time.\<close>

theorem startup_matches_running:
  "check_startup_clock p c tol =
    (let r = check_running_clock (database_ms p) (host_wall_ms p) (database_ms c) (host_wall_ms c)
               (boottime_ms c - boottime_ms p) tol
     in if boot_id p \<noteq> None \<and> boot_id p = boot_id c \<and> sint (boottime_ms p) \<le> sint (boottime_ms c)
        then if database_regressed r \<and> host_regressed r then BothRegressed
             else if database_regressed r then DatabaseRegressed
             else if host_regressed r then HostRegressed
             else SameBoot
        else BootChangedOrUnknown)"
  by (auto simp: check_startup_clock_def check_running_clock_def Let_def split: option.splits)

end
