(* ===== verification/Identity.thy ===== *)
theory Identity
  imports Rust_Str
begin

text \<open>
  Peer identities and their authorization (\<open>crates/blindpass-core/src/identity.rs\<close>). The peer is
  what the kernel and the system manager report; the lookups are outside the model.
\<close>

section \<open>Data\<close>

datatype identity_error =
    UnsupportedHost string
  | PermissionDenied string
  | BindingMismatch string
  | UnknownRegistration
  | WorkloadMismatch
  | AmbiguousRegistration
  | InvalidRequest string

record peer_identity =
  uid :: u32
  gid :: u32
  pidfd_supported :: bool
  peer_unit :: "string option"
  peer_invocation_id :: "string option"
  peer_account :: "string option"

record loader_authorization =
  loader_unit :: string
  loader_invocation_id :: string
  loader_credential_name :: string

type_synonym loader_policy = "string \<rightharpoonup> string"

record workload_registration =
  reg_node_id :: string
  reg_workload_id :: string
  reg_unit :: string
  reg_account :: string
  reg_invocation_id :: "string option"

record workload_request =
  req_node_id :: string
  req_workload_id :: string
  claimed_unit :: string
  claimed_invocation_id :: string
  req_operation :: string

record workload_authorization =
  auth_node_id :: string
  auth_workload_id :: string
  auth_unit :: string
  auth_invocation_id :: string
  auth_operation :: string

section \<open>Names\<close>

definition bad_name_byte :: "char \<Rightarrow> bool" where
  "bad_name_byte b \<longleftrightarrow> is_ascii_control b \<or> is_ascii_whitespace b"

definition validate_name :: "string \<Rightarrow> string \<Rightarrow> (unit, identity_error) result" where
  "validate_name v field =
     reject_if (v = [] \<or> 256 < length v \<or> list_ex bad_name_byte v) (InvalidRequest field)"

definition validate_operation_name :: "string \<Rightarrow> (unit, identity_error) result" where
  "validate_operation_name v =
     reject_if (v = [] \<or> 2048 < length v \<or> list_ex bad_name_byte v) (InvalidRequest ''operation'')"

section \<open>The credential loader\<close>

definition new_loader_policy :: loader_policy where
  "new_loader_policy = Map.empty"

definition map_unit :: "loader_policy \<Rightarrow> string \<Rightarrow> string \<Rightarrow> (loader_policy, identity_error) result" where
  "map_unit policy unit credential_name =
     and_then (validate_name unit ''unit'') (\<lambda>_.
     and_then (validate_name credential_name ''credential'') (\<lambda>_.
     and_then (reject_if (policy unit \<noteq> None) (InvalidRequest ''duplicate unit mapping'')) (\<lambda>_.
     Ok (policy(unit \<mapsto> credential_name)))))"

definition credential_for :: "loader_policy \<Rightarrow> string \<Rightarrow> string option" where
  "credential_for policy unit = policy unit"

definition nonempty :: "string option \<Rightarrow> string option" where
  "nonempty x = (case x of Some v \<Rightarrow> if v \<noteq> [] then Some v else None | None \<Rightarrow> None)"

definition authorize_loader ::
    "loader_policy \<Rightarrow> peer_identity \<Rightarrow> string \<Rightarrow> (loader_authorization, identity_error) result" where
  "authorize_loader policy peer claimed =
     and_then (reject_if (\<not> pidfd_supported peer) (UnsupportedHost ''SO_PEERPIDFD unavailable'')) (\<lambda>_.
     and_then (reject_if (uid peer \<noteq> 0) (PermissionDenied ''credential-loader requires uid 0'')) (\<lambda>_.
     and_then (validate_name claimed ''unit'') (\<lambda>_.
     and_then (ok_or (peer_unit peer) (UnsupportedHost ''system unit lookup failed'')) (\<lambda>authenticated_unit.
     and_then (reject_if (authenticated_unit \<noteq> claimed)
       (BindingMismatch ''routing unit does not match authenticated unit'')) (\<lambda>_.
     and_then (ok_or (nonempty (peer_invocation_id peer)) (UnsupportedHost ''invocation lookup failed'')) (\<lambda>invocation_id.
     and_then (ok_or (credential_for policy authenticated_unit) UnknownRegistration) (\<lambda>credential_name.
     Ok \<lparr>loader_unit = authenticated_unit, loader_invocation_id = invocation_id,
         loader_credential_name = credential_name\<rparr>)))))))"

section \<open>Workloads\<close>

text \<open>The part of \<open>authorize_workload\<close> after its filter: the two calls of \<open>candidates.next()\<close>.\<close>

definition match_registration ::
    "string \<Rightarrow> string \<Rightarrow> workload_request \<Rightarrow> workload_registration list
      \<Rightarrow> (workload_authorization, identity_error) result" where
  "match_registration account invocation_id request candidates =
     (case candidates of
        [] \<Rightarrow> Err UnknownRegistration
      | registration # rest \<Rightarrow>
          and_then (reject_if (rest \<noteq> []) AmbiguousRegistration) (\<lambda>_.
          and_then (reject_if (reg_account registration \<noteq> account \<or>
              (case reg_invocation_id registration of
                 Some expected \<Rightarrow> expected \<noteq> invocation_id
               | None \<Rightarrow> False)) UnknownRegistration) (\<lambda>_.
          and_then (reject_if (reg_workload_id registration \<noteq> req_workload_id request) WorkloadMismatch) (\<lambda>_.
          Ok \<lparr>auth_node_id = reg_node_id registration, auth_workload_id = reg_workload_id registration,
              auth_unit = reg_unit registration, auth_invocation_id = invocation_id,
              auth_operation = req_operation request\<rparr>))))"

definition authorize_workload ::
    "peer_identity \<Rightarrow> workload_request \<Rightarrow> workload_registration list
      \<Rightarrow> (workload_authorization, identity_error) result" where
  "authorize_workload peer request registrations =
     and_then (reject_if (\<not> pidfd_supported peer) (UnsupportedHost ''SO_PEERPIDFD unavailable'')) (\<lambda>_.
     and_then (reject_if (uid peer = 0) (PermissionDenied ''workload socket rejects root and broker peers'')) (\<lambda>_.
     and_then (validate_name (req_node_id request) ''node'') (\<lambda>_.
     and_then (validate_name (req_workload_id request) ''workload'') (\<lambda>_.
     and_then (validate_name (claimed_unit request) ''unit'') (\<lambda>_.
     and_then (validate_name (claimed_invocation_id request) ''invocation'') (\<lambda>_.
     and_then (validate_operation_name (req_operation request)) (\<lambda>_.
     and_then (ok_or (peer_unit peer) (UnsupportedHost ''system unit lookup failed'')) (\<lambda>unit.
     and_then (ok_or (nonempty (peer_invocation_id peer)) (UnsupportedHost ''invocation lookup failed'')) (\<lambda>invocation_id.
     and_then (ok_or (peer_account peer) (UnsupportedHost ''account lookup failed'')) (\<lambda>account.
     and_then (reject_if (claimed_unit request \<noteq> unit \<or> claimed_invocation_id request \<noteq> invocation_id)
       (BindingMismatch ''self-reported unit or invocation differs from OS identity'')) (\<lambda>_.
     match_registration account invocation_id request
       (filter (\<lambda>c. reg_node_id c = req_node_id request \<and> reg_unit c = unit) registrations))))))))))))"

section \<open>Properties\<close>

definition valid_name :: "string \<Rightarrow> bool" where
  "valid_name v \<longleftrightarrow> v \<noteq> [] \<and> length v \<le> 256 \<and> \<not> list_ex bad_name_byte v"

definition valid_operation_name :: "string \<Rightarrow> bool" where
  "valid_operation_name v \<longleftrightarrow> v \<noteq> [] \<and> length v \<le> 2048 \<and> \<not> list_ex bad_name_byte v"

definition valid_request :: "workload_request \<Rightarrow> bool" where
  "valid_request r \<longleftrightarrow>
     valid_name (req_node_id r) \<and> valid_name (req_workload_id r) \<and> valid_name (claimed_unit r) \<and>
     valid_name (claimed_invocation_id r) \<and> valid_operation_name (req_operation r)"

lemma validate_name_Ok [simp]: "validate_name v f = Ok u \<longleftrightarrow> valid_name v"
  by (auto simp: validate_name_def valid_name_def)

lemma validate_operation_name_Ok [simp]: "validate_operation_name v = Ok u \<longleftrightarrow> valid_operation_name v"
  by (auto simp: validate_operation_name_def valid_operation_name_def)

lemma validate_Ok_unit [simp]:
  "valid_name v \<Longrightarrow> validate_name v f = Ok ()" "valid_operation_name v \<Longrightarrow> validate_operation_name v = Ok ()"
  by (simp_all only: validate_name_Ok validate_operation_name_Ok)

lemma nonempty_Some [simp]: "nonempty x = Some v \<longleftrightarrow> x = Some v \<and> v \<noteq> []"
  by (auto simp: nonempty_def split: option.splits)

lemma match_registration_Ok:
  "match_registration account ivc request cands = Ok a \<longleftrightarrow>
    (\<exists>r. cands = [r] \<and> reg_account r = account \<and> reg_invocation_id r \<in> {None, Some ivc} \<and>
       reg_workload_id r = req_workload_id request \<and>
       a = \<lparr>auth_node_id = reg_node_id r, auth_workload_id = reg_workload_id r, auth_unit = reg_unit r,
            auth_invocation_id = ivc, auth_operation = req_operation request\<rparr>)"
  by (cases cands; cases "tl cands") (auto simp: match_registration_def split: option.splits)

text \<open>C15: a workload is authorized exactly when the host could identify it, it is not root, its
  request is well formed and repeats what the host reports, and there is exactly one registration
  for its node and unit, with its account, its workload id and, if it names one, its invocation; the
  authorization carries the registration and the reported invocation, never the claims.\<close>

theorem authorize_workload_iff:
  "authorize_workload peer request registrations = Ok a \<longleftrightarrow>
    (\<exists>r ivc. pidfd_supported peer \<and> uid peer \<noteq> 0 \<and> valid_request request \<and>
       peer_unit peer = Some (claimed_unit request) \<and> peer_invocation_id peer = Some ivc \<and>
       claimed_invocation_id request = ivc \<and> peer_account peer = Some (reg_account r) \<and>
       filter (\<lambda>c. reg_node_id c = req_node_id request \<and> reg_unit c = claimed_unit request) registrations = [r] \<and>
       reg_invocation_id r \<in> {None, Some ivc} \<and> reg_workload_id r = req_workload_id request \<and>
       a = \<lparr>auth_node_id = reg_node_id r, auth_workload_id = reg_workload_id r, auth_unit = reg_unit r,
            auth_invocation_id = ivc, auth_operation = req_operation request\<rparr>)"
  by (auto simp: authorize_workload_def valid_request_def match_registration_Ok valid_name_def)

lemma map_unit_Ok:
  "map_unit policy unit cred = Ok p \<longleftrightarrow>
     valid_name unit \<and> valid_name cred \<and> policy unit = None \<and> p = policy(unit \<mapsto> cred)"
  by (auto simp: map_unit_def)

text \<open>A policy as it is configured: the mappings are added one after the other.\<close>

fun map_units :: "(string \<times> string) list \<Rightarrow> loader_policy \<Rightarrow> (loader_policy, identity_error) result" where
  "map_units [] policy = Ok policy"
| "map_units ((unit, cred) # mappings) policy = and_then (map_unit policy unit cred) (map_units mappings)"

lemma map_units_Ok:
  "map_units mappings policy = Ok p \<longleftrightarrow>
     list_all (\<lambda>m. valid_name (fst m) \<and> valid_name (snd m) \<and> policy (fst m) = None) mappings \<and>
     distinct (map fst mappings) \<and> p = policy ++ map_of mappings"
proof (induction mappings arbitrary: policy)
  case (Cons m mappings)
  obtain unit cred where m: "m = (unit, cred)" by (cases m)
  let ?policy = "policy(unit \<mapsto> cred)"
  have step: "map_units (m # mappings) policy = Ok p \<longleftrightarrow>
      valid_name unit \<and> valid_name cred \<and> policy unit = None \<and> map_units mappings ?policy = Ok p"
    by (auto simp: m map_unit_Ok)
  show ?case
  proof (cases "unit \<in> fst ` set mappings")
    case True
    then have "\<not> list_all (\<lambda>m. valid_name (fst m) \<and> valid_name (snd m) \<and> ?policy (fst m) = None) mappings"
      by (auto simp: list_all_iff)
    with True show ?thesis unfolding step Cons.IH by (simp add: m)
  next
    case False
    then have "map_of mappings unit = None" by (simp add: map_of_eq_None_iff)
    then have entries: "?policy ++ map_of mappings = policy ++ map_of (m # mappings)"
      by (intro ext) (auto simp: m map_add_def split: option.split)
    have fresh: "list_all (\<lambda>m. valid_name (fst m) \<and> valid_name (snd m) \<and> ?policy (fst m) = None) mappings \<longleftrightarrow>
        list_all (\<lambda>m. valid_name (fst m) \<and> valid_name (snd m) \<and> policy (fst m) = None) mappings"
      using False by (intro list.pred_cong) (auto simp: image_iff)
    show ?thesis unfolding step Cons.IH fresh entries using False by (auto simp: m simp del: map_of.simps)
  qed
qed auto

text \<open>C16: a loader policy can be configured from a list of mappings exactly when all names are valid
  and no unit is mapped twice. A policy that was configured so authorizes the credential loader
  exactly when the host can attest peers, the peer is root, the claimed unit is the one that the host
  reports, the host reports a non-empty invocation, and the list maps that unit (so that it is a
  valid name); the credential handed out is the one that the list names for it, so no later mapping redirects a
  unit to another credential.\<close>

theorem authorize_loader_iff:
  "((\<exists>policy. map_units mappings new_loader_policy = Ok policy) \<longleftrightarrow>
     list_all (\<lambda>m. valid_name (fst m) \<and> valid_name (snd m)) mappings \<and> distinct (map fst mappings)) \<and>
   (map_units mappings new_loader_policy = Ok policy \<longrightarrow>
     (authorize_loader policy peer unit = Ok a \<longleftrightarrow>
      (\<exists>ivc cred. pidfd_supported peer \<and> uid peer = 0 \<and> peer_unit peer = Some unit \<and>
         peer_invocation_id peer = Some ivc \<and> ivc \<noteq> [] \<and> (unit, cred) \<in> set mappings \<and>
         a = \<lparr>loader_unit = unit, loader_invocation_id = ivc, loader_credential_name = cred\<rparr>)))"
proof -
  have "valid_name unit" if "list_all (\<lambda>m. valid_name (fst m) \<and> valid_name (snd m)) mappings" "(unit, cred) \<in> set mappings" for cred
    using that by (auto simp: list_all_iff)
  then show ?thesis
    by (auto simp: map_units_Ok new_loader_policy_def authorize_loader_def credential_for_def)
qed

theorem authorize_loader_iff_witness:
  "\<exists>policy. map_units [(''a.service'', ''db''), (''b.service'', ''api'')] new_loader_policy = Ok policy \<and>
     authorize_loader policy \<lparr>uid = 0, gid = 0, pidfd_supported = True, peer_unit = Some ''b.service'',
         peer_invocation_id = Some ''i1'', peer_account = None\<rparr> ''b.service'' =
       Ok \<lparr>loader_unit = ''b.service'', loader_invocation_id = ''i1'', loader_credential_name = ''api''\<rparr>"
proof -
  let ?m = "[(''a.service'', ''db''), (''b.service'', ''api'')]"
  have "list_all (\<lambda>m. valid_name (fst m) \<and> valid_name (snd m)) ?m"
    by (simp add: valid_name_def bad_name_byte_def ascii_defs)
  then obtain policy where "map_units ?m new_loader_policy = Ok policy"
    using authorize_loader_iff [of ?m, THEN conjunct1] by (auto simp del: map_units.simps)
  with authorize_loader_iff [of ?m policy "\<lparr>uid = 0, gid = 0, pidfd_supported = True, peer_unit = Some ''b.service'',
         peer_invocation_id = Some ''i1'', peer_account = None\<rparr>" "''b.service''"]
  show ?thesis by (simp del: map_units.simps)
qed

end
