(* ===== verification/Protocol.thy ===== *)
theory Protocol
  imports Identity
begin

text \<open>
  The frames of the broker's local sockets (\<open>crates/blindpass-core/src/protocol.rs\<close>): one line of
  space-separated fields, parsed into a loader or a workload request.
\<close>

definition MAX_FRAME_BYTES :: nat where "MAX_FRAME_BYTES = 4096"

record loader_request =
  load_claimed_unit :: string
  load_credential_name :: string

datatype protocol_error = Empty | TooLarge | InvalidUtf8 | InvalidFrame | InvalidField

definition STATUS_OPERATION_PREFIX :: string where "STATUS_OPERATION_PREFIX = ''status:''"
definition CANCEL_OPERATION_PREFIX :: string where "CANCEL_OPERATION_PREFIX = ''cancel:''"
definition CANCEL_KEY_OPERATION_PREFIX :: string where "CANCEL_KEY_OPERATION_PREFIX = ''cancel-key:''"

definition is_valid_event_key :: "string \<Rightarrow> bool" where
  "is_valid_event_key v \<longleftrightarrow>
     16 \<le> length v \<and> length v \<le> 128 \<and>
     list_all (\<lambda>b. is_ascii_alphanumeric b \<or> b = CHR ''_'' \<or> b = CHR ''-'') v"

definition validate_field :: "string \<Rightarrow> (unit, protocol_error) result" where
  "validate_field field =
     reject_if (field = [] \<or> 256 < length field \<or> list_ex is_ascii_control field) InvalidField"

definition event_key_of :: "string \<Rightarrow> string option" where
  "event_key_of field =
     (case strip_prefix STATUS_OPERATION_PREFIX field of
        Some key \<Rightarrow> Some key
      | None \<Rightarrow>
          (case strip_prefix CANCEL_OPERATION_PREFIX field of
             Some key \<Rightarrow> Some key
           | None \<Rightarrow> strip_prefix CANCEL_KEY_OPERATION_PREFIX field))"

definition validate_operation :: "string \<Rightarrow> (unit, protocol_error) result" where
  "validate_operation field =
     and_then (reject_if (field = [] \<or> 2048 < length field \<or>
         list_ex (\<lambda>b. is_ascii_control b \<or> is_ascii_whitespace b) field) InvalidField) (\<lambda>_.
     (case event_key_of field of
        Some event_key \<Rightarrow> reject_if (\<not> is_valid_event_key event_key) InvalidField
      | None \<Rightarrow> Ok ()))"

definition parse_fields :: "string \<Rightarrow> (string list, protocol_error) result" where
  "parse_fields frame =
     and_then (reject_if (frame = []) Empty) (\<lambda>_.
     and_then (reject_if (MAX_FRAME_BYTES < length frame) TooLarge) (\<lambda>_.
     and_then (reject_if (\<not> utf8_valid frame) InvalidUtf8) (\<lambda>_.
     and_then (ok_or (strip_suffix [CHR 0x0A] frame) InvalidFrame) (\<lambda>text.
     and_then (reject_if (text = [] \<or> CHR 0x0D \<in> set text \<or> CHR 0x0A \<in> set text) InvalidFrame) (\<lambda>_.
     Ok (split_on (CHR '' '') text))))))"

definition parse_loader_request :: "string \<Rightarrow> (loader_request, protocol_error) result" where
  "parse_loader_request frame =
     and_then (parse_fields frame) (\<lambda>ws.
     (case ws of
        [cmd, unit, name] \<Rightarrow>
          if cmd \<noteq> ''LOAD'' then Err InvalidFrame
          else
            and_then (validate_field unit) (\<lambda>_.
            and_then (validate_field name) (\<lambda>_.
            Ok \<lparr>load_claimed_unit = unit, load_credential_name = name\<rparr>))
      | _ \<Rightarrow> Err InvalidFrame))"

definition workload_fields :: "string list \<Rightarrow> (workload_request, protocol_error) result" where
  "workload_fields ws =
     (case ws of
        [cmd, node, workload, unit, invocation, operation] \<Rightarrow>
          if cmd \<noteq> ''WORK'' then Err InvalidFrame
          else
            and_then (validate_field node) (\<lambda>_.
            and_then (validate_field workload) (\<lambda>_.
            and_then (validate_field unit) (\<lambda>_.
            and_then (validate_field invocation) (\<lambda>_.
            and_then (validate_operation operation) (\<lambda>_.
            Ok \<lparr>req_node_id = node, req_workload_id = workload, claimed_unit = unit,
                claimed_invocation_id = invocation, req_operation = operation\<rparr>)))))
      | _ \<Rightarrow> Err InvalidFrame)"

definition parse_workload_request :: "string \<Rightarrow> (workload_request, protocol_error) result" where
  "parse_workload_request frame =
     and_then (parse_fields frame) workload_fields"

definition error_frame :: "string \<Rightarrow> string" where
  "error_frame code = ''ERR '' @ code @ [CHR 0x0A]"

definition workload_ok :: "workload_request \<Rightarrow> string" where
  "workload_ok request = ''OK '' @ req_workload_id request @ '' '' @ req_operation request @ [CHR 0x0A]"

section \<open>The frames as text\<close>

definition print_fields :: "string list \<Rightarrow> string" where
  "print_fields ws = join '' '' ws @ [CHR 0x0A]"

definition valid_field :: "string \<Rightarrow> bool" where
  "valid_field f \<longleftrightarrow> f \<noteq> [] \<and> length f \<le> 256 \<and> \<not> list_ex is_ascii_control f"

definition valid_operation :: "string \<Rightarrow> bool" where
  "valid_operation f \<longleftrightarrow>
     valid_operation_name f \<and> (\<forall>k. event_key_of f = Some k \<longrightarrow> is_valid_event_key k)"

lemma validate_field_Ok [simp]: "validate_field f = Ok u \<longleftrightarrow> valid_field f"
  by (auto simp: validate_field_def valid_field_def)

lemma validate_operation_Ok [simp]: "validate_operation f = Ok u \<longleftrightarrow> valid_operation f"
  by (auto simp: validate_operation_def valid_operation_def valid_operation_name_def bad_name_byte_def
      list_ex_iff split: option.splits)

text \<open>A text that may stand in a frame between two spaces.\<close>

definition frame_word :: "string \<Rightarrow> bool" where
  "frame_word f \<longleftrightarrow> set f \<inter> {CHR '' '', CHR 0x0A, CHR 0x0D} = {}"

lemma parse_fields_Ok:
  "parse_fields frame = Ok ws \<longleftrightarrow>
     length frame \<le> MAX_FRAME_BYTES \<and> utf8_valid frame \<and> frame = print_fields ws \<and>
     ws \<noteq> [] \<and> ws \<noteq> [[]] \<and> list_all frame_word ws"
  (is "?l = ?r")
proof
  assume ?l
  then obtain line where f: "frame = line @ [CHR 0x0A]" "length frame \<le> MAX_FRAME_BYTES" "utf8_valid frame"
    "line \<noteq> []" "CHR 0x0D \<notin> set line" "CHR 0x0A \<notin> set line" "ws = split_on (CHR '' '') line"
    by (auto simp: parse_fields_def strip_suffix_Some)
  moreover from f have "join '' '' ws = line" by (simp add: join_split_on)
  moreover from f have "list_all frame_word ws"
    using set_split_on split_on_no_sep by (fastforce simp: list_all_iff frame_word_def)
  ultimately show ?r by (auto simp: print_fields_def)
next
  assume r: ?r
  have w: "\<And>f. f \<in> set ws \<Longrightarrow> CHR '' '' \<notin> set f" using r by (auto simp: list_all_iff frame_word_def)
  have s: "set (join '' '' fs) \<subseteq> {CHR '' ''} \<union> \<Union> (set ` set fs)" for fs
    by (induction "'' ''" fs rule: join.induct) auto
  have "CHR 0x0D \<notin> set (join '' '' ws)" "CHR 0x0A \<notin> set (join '' '' ws)"
    using s [of ws] r by (auto simp: list_all_iff frame_word_def)
  moreover have "split_on (CHR '' '') (join '' '' ws) = ws" using r w by (intro split_on_join) auto
  moreover from this r have "join '' '' ws \<noteq> []" by auto
  ultimately show ?l using r by (auto simp: parse_fields_def strip_suffix_Some print_fields_def)
qed

lemma valid_operation_frame_word: "valid_operation f \<Longrightarrow> frame_word f"
  by (auto simp: valid_operation_def valid_operation_name_def frame_word_def list_ex_iff bad_name_byte_def ascii_defs)

lemma workload_fields_Ok:
  "workload_fields ws = Ok r \<longleftrightarrow>
     ws = [''WORK'', req_node_id r, req_workload_id r, claimed_unit r, claimed_invocation_id r, req_operation r] \<and>
     list_all valid_field [req_node_id r, req_workload_id r, claimed_unit r, claimed_invocation_id r] \<and>
     valid_operation (req_operation r)"
  by (cases r) (auto simp: workload_fields_def split: list.splits if_splits)

lemma byte_space: "byte b = 32 \<longleftrightarrow> b = CHR '' ''"
proof -
  have "byte (CHR '' '') = 32" by simp
  then show ?thesis by (metis of_char_eq_iff)
qed

lemma valid_field_name: "valid_field f \<Longrightarrow> frame_word f \<Longrightarrow> valid_name f"
  by (auto simp: valid_field_def valid_name_def frame_word_def list_ex_iff bad_name_byte_def ascii_defs byte_space)

section \<open>Properties\<close>

text \<open>C17: the workload frames that the parser accepts are exactly the printed requests with valid
  fields, within the size limit: one line, six words, and no other text gives the same request.\<close>

theorem parse_workload_request_iff:
  "parse_workload_request frame = Ok r \<longleftrightarrow>
     length frame \<le> MAX_FRAME_BYTES \<and> utf8_valid frame \<and>
     frame = print_fields [''WORK'', req_node_id r, req_workload_id r, claimed_unit r,
       claimed_invocation_id r, req_operation r] \<and>
     list_all (\<lambda>f. valid_field f \<and> frame_word f)
       [req_node_id r, req_workload_id r, claimed_unit r, claimed_invocation_id r] \<and>
     valid_operation (req_operation r)"
  using valid_operation_frame_word [of "req_operation r"]
  by (auto simp: parse_workload_request_def parse_fields_Ok workload_fields_Ok frame_word_def [of "''WORK''"])

text \<open>C18: a parsed workload request never fails the identity component's own checks of names: an
  authorization that fails does so for the identity of the peer or its registration.\<close>

theorem parsed_request_names:
  assumes "parse_workload_request frame = Ok r"
  shows "authorize_workload peer r registrations \<noteq> Err (InvalidRequest field)"
proof -
  from assms have "valid_request r"
    using valid_field_name
    by (auto simp: parse_workload_request_def parse_fields_Ok workload_fields_Ok valid_request_def valid_operation_def)
  then show ?thesis
    by (auto simp: authorize_workload_def valid_request_def and_then_eq_Err match_registration_def
        split: list.splits)
qed

theorem parsed_request_names_witness:
  "\<exists>r. parse_workload_request (''WORK n w u i health'' @ [CHR 0x0A]) = Ok r \<and>
     authorize_workload \<lparr>uid = 7, gid = 7, pidfd_supported = True, peer_unit = Some ''u'',
       peer_invocation_id = Some ''i'', peer_account = Some ''a''\<rparr> r [] \<noteq> Err (InvalidRequest ''node'')"
proof -
  let ?r = "\<lparr>req_node_id = ''n'', req_workload_id = ''w'', claimed_unit = ''u'',
    claimed_invocation_id = ''i'', req_operation = ''health''\<rparr>"
  have p: "parse_workload_request (''WORK n w u i health'' @ [CHR 0x0A]) = Ok ?r"
    by (simp add: parse_workload_request_def parse_fields_def MAX_FRAME_BYTES_def is_ascii_def strip_suffix_def
        workload_fields_def validate_field_def validate_operation_def event_key_of_def strip_prefix_def
        STATUS_OPERATION_PREFIX_def CANCEL_OPERATION_PREFIX_def CANCEL_KEY_OPERATION_PREFIX_def ascii_defs suffix_def)
  with parsed_request_names [OF p] show ?thesis by blast
qed

end
