(* ===== verification/Delivery.thy ===== *)
theory Delivery
  imports Rust_Str
begin

text \<open>
  Credential validation and the in-memory registry of \<open>crates/blindpass-core/src/delivery.rs\<close>. The
  writer that a credential is delivered to is an argument: its state and its \<open>write_all\<close>, which may
  fail with a message.
\<close>

definition MAX_CREDENTIAL_BYTES :: nat where "MAX_CREDENTIAL_BYTES = 64 * 1024"

datatype credential_format = NonEmpty | Utf8 | Prefix string

datatype delivery_error = Missing | Empty | TooLarge | InvalidEncoding | InvalidPrefix | Io string

record delivery_policy =
  max_bytes :: nat
  format :: credential_format

definition default_delivery_policy :: delivery_policy where
  "default_delivery_policy = \<lparr>max_bytes = MAX_CREDENTIAL_BYTES, format = NonEmpty\<rparr>"

definition validate :: "delivery_policy \<Rightarrow> string \<Rightarrow> (unit, delivery_error) result" where
  "validate policy v =
     and_then (reject_if (v = []) Empty) (\<lambda>_.
     and_then (reject_if (max_bytes policy < length v \<or> MAX_CREDENTIAL_BYTES < length v) TooLarge) (\<lambda>_.
     (case format policy of
        NonEmpty \<Rightarrow> Ok ()
      | Utf8 \<Rightarrow> reject_if (\<not> utf8_valid v) InvalidEncoding
      | Prefix p \<Rightarrow> reject_if (\<not> prefix p v) InvalidPrefix)))"

type_synonym 'w write_all = "'w \<Rightarrow> string \<Rightarrow> 'w \<times> (unit, string) result"

definition write_one ::
    "'w write_all \<Rightarrow> delivery_policy \<Rightarrow> 'w \<Rightarrow> string \<Rightarrow> 'w \<times> (nat, delivery_error) result" where
  "write_one write_all policy w v =
     (case validate policy v of
        Err e \<Rightarrow> (w, Err e)
      | Ok _ \<Rightarrow>
          (case write_all w v of
             (w, Err message) \<Rightarrow> (w, Err (Io message))
           | (w, Ok _) \<Rightarrow> (w, Ok (length v))))"

record credential_registry =
  entries :: "string \<rightharpoonup> string"
  policy :: delivery_policy

definition new_registry :: "delivery_policy \<Rightarrow> credential_registry" where
  "new_registry p = \<lparr>entries = Map.empty, policy = p\<rparr>"

definition insert_credential ::
    "credential_registry \<Rightarrow> string \<Rightarrow> string \<Rightarrow> (credential_registry, delivery_error) result" where
  "insert_credential reg name v =
     map_ok (\<lambda>_. reg\<lparr>entries := (entries reg)(name \<mapsto> v)\<rparr>) (validate (policy reg) v)"

definition remove_credential ::
    "credential_registry \<Rightarrow> string \<Rightarrow> credential_registry \<times> string option" where
  "remove_credential reg name = (reg\<lparr>entries := (entries reg)(name := None)\<rparr>, entries reg name)"

definition get_credential :: "credential_registry \<Rightarrow> string \<Rightarrow> (string, delivery_error) result" where
  "get_credential reg name = ok_or (entries reg name) Missing"

definition deliver ::
    "'w write_all \<Rightarrow> credential_registry \<Rightarrow> string \<Rightarrow> 'w \<Rightarrow> 'w \<times> (nat, delivery_error) result" where
  "deliver write_all reg name w =
     (case get_credential reg name of
        Err e \<Rightarrow> (w, Err e)
      | Ok v \<Rightarrow> write_one write_all (policy reg) w v)"

definition validate_consumer_bytes :: "string \<Rightarrow> nat \<Rightarrow> credential_format \<Rightarrow> (unit, delivery_error) result" where
  "validate_consumer_bytes v max_b fmt = validate \<lparr>max_bytes = max_b, format = fmt\<rparr> v"

section \<open>The store as its clients see it\<close>

text \<open>
  A store of checked values: what a lookup returns after each operation, and that a stored value
  has passed the check. The lemmas of the locale are what a history of operations can show.
\<close>

locale checked_store =
  fixes put :: "'s \<Rightarrow> 'k \<Rightarrow> 'v \<Rightarrow> ('s, 'e) result"
    and del :: "'s \<Rightarrow> 'k \<Rightarrow> 's"
    and look :: "'s \<Rightarrow> 'k \<Rightarrow> 'v option"
    and check :: "'s \<Rightarrow> 'v \<Rightarrow> bool"
  assumes put_Ok_iff: "(\<exists>s'. put s k v = Ok s') \<longleftrightarrow> check s v"
    and look_put: "put s k v = Ok s' \<Longrightarrow> look s' k' = (if k' = k then Some v else look s k')"
    and look_del: "look (del s k) k' = (if k' = k then None else look s k')"
    and check_put: "put s k v = Ok s' \<Longrightarrow> check s' = check s"
    and check_del: "check (del s k) = check s"
begin

definition store_inv :: "'s \<Rightarrow> bool" where
  "store_inv s \<longleftrightarrow> (\<forall>k v. look s k = Some v \<longrightarrow> check s v)"

inductive evolves :: "'s \<Rightarrow> 's \<Rightarrow> bool" where
  refl: "evolves s s"
| put: "evolves s t \<Longrightarrow> put t k v = Ok u \<Longrightarrow> evolves s u"
| del: "evolves s t \<Longrightarrow> evolves s (del t k)"

lemma store_inv_put: "store_inv s \<Longrightarrow> put s k v = Ok s' \<Longrightarrow> store_inv s'"
  using put_Ok_iff by (fastforce simp: store_inv_def look_put check_put split: if_splits)

lemma store_inv_del: "store_inv s \<Longrightarrow> store_inv (del s k)"
  by (auto simp: store_inv_def look_del check_del)

lemma store_inv_evolves: "evolves s t \<Longrightarrow> store_inv s \<Longrightarrow> store_inv t \<and> check t = check s"
  by (induction rule: evolves.induct) (auto simp: check_put check_del intro: store_inv_put store_inv_del)

end

interpretation reg: checked_store insert_credential "\<lambda>r k. fst (remove_credential r k)" entries
  "\<lambda>r v. validate (policy r) v = Ok ()"
  by unfold_locales (auto simp: insert_credential_def remove_credential_def)

section \<open>Properties\<close>

lemma validate_Ok:
  "validate p v = Ok u \<longleftrightarrow>
     v \<noteq> [] \<and> length v \<le> max_bytes p \<and> length v \<le> MAX_CREDENTIAL_BYTES \<and>
     (case format p of NonEmpty \<Rightarrow> True | Utf8 \<Rightarrow> utf8_valid v | Prefix x \<Rightarrow> prefix x v)"
  by (cases "format p") (auto simp: validate_def)

text \<open>C19: however a fresh registry was filled and emptied, a credential that it holds is not empty,
  within both limits and of the format that its policy asks for (valid UTF-8, or beginning with the
  required prefix), and delivering it writes exactly its bytes or reports the writer's failure; a
  name that it does not hold is reported missing and nothing is written.\<close>

theorem registry_delivers:
  assumes "reg.evolves (new_registry p) r" "entries r name = Some v" "entries r other = None"
  shows "v \<noteq> [] \<and> length v \<le> max_bytes p \<and> length v \<le> MAX_CREDENTIAL_BYTES \<and>
    (format p = Utf8 \<longrightarrow> utf8_valid v) \<and> (\<forall>x. format p = Prefix x \<longrightarrow> prefix x v) \<and>
    deliver write_all r name w =
      (case write_all w v of (w', Ok _) \<Rightarrow> (w', Ok (length v)) | (w', Err m) \<Rightarrow> (w', Err (Io m))) \<and>
    deliver write_all r other w = (w, Err Missing)"
proof -
  have "reg.store_inv (new_registry p)" by (simp add: reg.store_inv_def new_registry_def)
  from reg.store_inv_evolves [OF assms(1) this]
  have "reg.store_inv r" and ch: "(validate (policy r) u = Ok ()) = (validate p u = Ok ())" for u
    by (auto simp: new_registry_def fun_eq_iff)
  with assms(2) have v: "validate (policy r) v = Ok ()" by (simp add: reg.store_inv_def)
  with ch have "validate p v = Ok ()" by blast
  then have "v \<noteq> []" "length v \<le> max_bytes p" "length v \<le> MAX_CREDENTIAL_BYTES" "format p = Utf8 \<longrightarrow> utf8_valid v"
    "\<forall>x. format p = Prefix x \<longrightarrow> prefix x v"
    by (auto simp: validate_Ok)
  moreover have "deliver write_all r name w =
      (case write_all w v of (w', Ok _) \<Rightarrow> (w', Ok (length v)) | (w', Err m) \<Rightarrow> (w', Err (Io m)))"
    using v assms(2) by (simp add: deliver_def get_credential_def write_one_def split: prod.splits result.splits)
  moreover have "deliver write_all r other w = (w, Err Missing)"
    using assms(3) by (simp add: deliver_def get_credential_def)
  ultimately show ?thesis by blast
qed

theorem registry_delivers_witness:
  "\<exists>r. insert_credential (new_registry \<lparr>max_bytes = 10, format = Prefix ''sk-''\<rparr>) ''api'' ''sk-1'' = Ok r \<and>
    prefix ''sk-'' ''sk-1'' \<and> deliver (\<lambda>w s. (w @ s, Ok ())) r ''api'' [] = (''sk-1'', Ok 4) \<and>
    deliver (\<lambda>w s. (w @ s, Ok ())) r ''web'' [] = ([], Err Missing)"
proof -
  let ?p = "\<lparr>max_bytes = 10, format = Prefix ''sk-''\<rparr>"
  obtain r where r: "insert_credential (new_registry ?p) ''api'' ''sk-1'' = Ok r" "entries r ''api'' = Some ''sk-1''"
      "entries r ''web'' = None"
    by (auto simp: insert_credential_def new_registry_def validate_def MAX_CREDENTIAL_BYTES_def)
  have "reg.evolves (new_registry ?p) r" using reg.evolves.put [OF reg.evolves.refl r(1)] .
  from registry_delivers [OF this r(2,3), of "\<lambda>w s. (w @ s, Ok ())" "[]"] r(1) show ?thesis by simp
qed

end
