(* ===== verification/Policy.thy ===== *)
theory Policy
  imports Canon_Roundtrip Crypto
begin

text \<open>
  Exchange policies (\<open>crates/blindpass-core/src/policy.rs\<close>): normalisation of a document, the
  first-match evaluation of its rules, and the payload whose digest identifies a decision.
\<close>

section \<open>Data\<close>

datatype policy_mode = Allow | PendingApproval | Deny

fun mode_str :: "policy_mode \<Rightarrow> string" where
  "mode_str Allow = ''allow''"
| "mode_str PendingApproval = ''pending_approval''"
| "mode_str Deny = ''deny''"

record secret_registry_entry =
  entry_secret_name :: string
  classification :: string
  description :: "string option"

record exchange_policy_rule =
  rule_id :: string
  rule_secret_name :: string
  requester_ids :: "string list option"
  fulfiller_ids :: "string list option"
  approver_ids :: "string list option"
  requester_rings :: "string list option"
  fulfiller_rings :: "string list option"
  approver_rings :: "string list option"
  purposes :: "string list option"
  same_ring :: bool
  allowed_rings :: "string list option"
  rule_mode :: policy_mode
  rule_approval_reference :: "string option"
  rule_reason :: "string option"

record policy_input =
  requester_id :: string
  requester_workspace_id :: "string option"
  input_secret_name :: string
  input_purpose :: string
  fulfiller_hint :: string
  fulfiller_workspace_id :: "string option"

record policy_decision =
  decision_mode :: policy_mode
  approval_required :: bool
  decision_rule_id :: string
  decision_reason :: string
  approval_reference :: "string option"
  requester_ring :: "string option"
  fulfiller_ring :: "string option"
  decision_secret_name :: string

record policy_evaluation =
  decision :: policy_decision
  allowed_fulfiller_id :: "string option"
  eval_approver_ids :: "string list option"
  eval_approver_rings :: "string list option"

record policy_document =
  registry :: "secret_registry_entry list"
  rules :: "exchange_policy_rule list"

section \<open>Normalisation\<close>

definition nonblank :: "string option \<Rightarrow> string option" where
  "nonblank x =
     (case x of None \<Rightarrow> None | Some v \<Rightarrow> if trim v \<noteq> [] then Some (trim v) else None)"

definition normalize_list :: "string list option \<Rightarrow> string list option" where
  "normalize_list = map_option (\<lambda>vs. filter (\<lambda>v. v \<noteq> []) (map trim vs))"

definition normalize_rule :: "exchange_policy_rule \<Rightarrow> exchange_policy_rule" where
  "normalize_rule rule =
     rule\<lparr>rule_id := trim (rule_id rule),
          rule_secret_name := trim (rule_secret_name rule),
          requester_ids := normalize_list (requester_ids rule),
          fulfiller_ids := normalize_list (fulfiller_ids rule),
          approver_ids := normalize_list (approver_ids rule),
          requester_rings := normalize_list (requester_rings rule),
          fulfiller_rings := normalize_list (fulfiller_rings rule),
          approver_rings := normalize_list (approver_rings rule),
          purposes := normalize_list (purposes rule),
          allowed_rings := normalize_list (allowed_rings rule),
          rule_approval_reference := nonblank (rule_approval_reference rule),
          rule_reason := nonblank (rule_reason rule)\<rparr>"

definition normalize_entry :: "secret_registry_entry \<Rightarrow> secret_registry_entry" where
  "normalize_entry entry =
     entry\<lparr>entry_secret_name := trim (entry_secret_name entry),
           classification := trim (classification entry),
           description := nonblank (description entry)\<rparr>"

definition policy_new :: "secret_registry_entry list \<Rightarrow> exchange_policy_rule list \<Rightarrow> policy_document" where
  "policy_new reg rs = \<lparr>registry = map normalize_entry reg, rules = map normalize_rule rs\<rparr>"

section \<open>Evaluation\<close>

definition includes_value :: "string list option \<Rightarrow> string \<Rightarrow> bool" where
  "includes_value vs candidate = (case vs of None \<Rightarrow> True | Some vs \<Rightarrow> vs = [] \<or> candidate \<in> set vs)"

definition ring_from_agent_id :: "string \<Rightarrow> string option" where
  "ring_from_agent_id agent_id =
     (case split_once ''/ring/'' agent_id of
        None \<Rightarrow> None
      | Some (_, rest) \<Rightarrow>
          let ring = trim (hd (split_on (CHR ''/'') rest))
          in if ring \<noteq> [] then Some ring else None)"

definition has_secret :: "policy_document \<Rightarrow> string \<Rightarrow> bool" where
  "has_secret doc name \<longleftrightarrow> list_ex (\<lambda>e. entry_secret_name e = name) (registry doc)"

definition unwrap_or_empty :: "string option \<Rightarrow> string" where
  "unwrap_or_empty x = (case x of None \<Rightarrow> [] | Some v \<Rightarrow> v)"

definition rule_matches :: "policy_input \<Rightarrow> exchange_policy_rule \<Rightarrow> bool" where
  "rule_matches i rule \<longleftrightarrow>
     (let rr = ring_from_agent_id (requester_id i); fr = ring_from_agent_id (fulfiller_hint i) in
      rule_secret_name rule = input_secret_name i \<and>
      includes_value (requester_ids rule) (requester_id i) \<and>
      includes_value (fulfiller_ids rule) (fulfiller_hint i) \<and>
      includes_value (purposes rule) (input_purpose i) \<and>
      includes_value (requester_rings rule) (unwrap_or_empty rr) \<and>
      includes_value (fulfiller_rings rule) (unwrap_or_empty fr) \<and>
      (\<not> same_ring rule \<or>
        (rr \<noteq> None \<and> rr = fr \<and> includes_value (allowed_rings rule) (unwrap_or_empty rr))))"

definition default_reason :: "policy_mode \<Rightarrow> string \<Rightarrow> string" where
  "default_reason m c =
     (case m of
        PendingApproval \<Rightarrow> ''exchange for '' @ c @ '' requires human approval''
      | Deny \<Rightarrow> ''exchange for '' @ c @ '' is denied by policy''
      | Allow \<Rightarrow> ''exchange allowed by static policy for '' @ c)"

definition evaluation_of ::
    "policy_input \<Rightarrow> secret_registry_entry \<Rightarrow> exchange_policy_rule \<Rightarrow> policy_evaluation" where
  "evaluation_of i entry rule =
     \<lparr>decision =
        \<lparr>decision_mode = rule_mode rule,
         approval_required = (rule_mode rule = PendingApproval),
         decision_rule_id = rule_id rule,
         decision_reason =
           (case rule_reason rule of
              Some r \<Rightarrow> r
            | None \<Rightarrow> default_reason (rule_mode rule) (classification entry)),
         approval_reference = rule_approval_reference rule,
         requester_ring = ring_from_agent_id (requester_id i),
         fulfiller_ring = ring_from_agent_id (fulfiller_hint i),
         decision_secret_name = input_secret_name i\<rparr>,
      allowed_fulfiller_id = (if rule_mode rule = Allow then Some (fulfiller_hint i) else None),
      eval_approver_ids = approver_ids rule,
      eval_approver_rings = approver_rings rule\<rparr>"

definition evaluate :: "policy_document \<Rightarrow> policy_input \<Rightarrow> policy_evaluation option" where
  "evaluate doc i =
     (case List.find (\<lambda>e. entry_secret_name e = input_secret_name i) (registry doc) of
        None \<Rightarrow> None
      | Some entry \<Rightarrow>
          if requester_workspace_id i \<noteq> None \<and> fulfiller_workspace_id i \<noteq> None \<and>
             requester_workspace_id i \<noteq> fulfiller_workspace_id i
          then None
          else map_option (evaluation_of i entry) (List.find (rule_matches i) (rules doc)))"

section \<open>Decision digests\<close>

definition json_char :: "nat \<Rightarrow> string" where
  "json_char c =
     (if c = 0x22 then [backslash, quote]
      else if c = 0x5C then [backslash, backslash]
      else if c = 0x08 then [backslash, CHR ''b'']
      else if c = 0x0C then [backslash, CHR ''f'']
      else if c = 0x0A then [backslash, CHR ''n'']
      else if c = 0x0D then [backslash, CHR ''r'']
      else if c = 0x09 then [backslash, CHR ''t'']
      else if c \<le> 0x1F then
        [backslash, CHR ''u'', CHR ''0'', CHR ''0'', hex_digit (c div 16), hex_digit (c mod 16)]
      else utf8_encode c)"

definition json_string :: "string \<Rightarrow> string" where
  "json_string v = [quote] @ concat (map json_char (chars v)) @ [quote]"

definition json_optional_string :: "string option \<Rightarrow> string" where
  "json_optional_string v = (case v of None \<Rightarrow> ''null'' | Some s \<Rightarrow> json_string s)"

definition json_bool :: "bool \<Rightarrow> string" where
  "json_bool b = (if b then ''true'' else ''false'')"

definition json_key :: "string \<Rightarrow> string \<Rightarrow> string" where
  "json_key k v = [quote] @ k @ [quote] @ '':'' @ v"

definition decision_payload :: "policy_decision \<Rightarrow> string option \<Rightarrow> string option \<Rightarrow> string" where
  "decision_payload d fulfiller workspace =
     ''{'' @ join '',''
       [json_key ''mode'' (json_string (mode_str (decision_mode d))),
        json_key ''approvalRequired'' (json_bool (approval_required d)),
        json_key ''ruleId'' (json_string (decision_rule_id d)),
        json_key ''reason'' (json_string (decision_reason d)),
        json_key ''approvalReference'' (json_optional_string (approval_reference d)),
        json_key ''requesterRing'' (json_optional_string (requester_ring d)),
        json_key ''fulfillerRing'' (json_optional_string (fulfiller_ring d)),
        json_key ''secretName'' (json_string (decision_secret_name d)),
        json_key ''allowedFulfillerId'' (json_optional_string fulfiller),
        json_key ''workspaceId'' (json_optional_string workspace)] @ ''}''"

definition hash_policy_decision ::
    "libcrypto \<Rightarrow> policy_decision \<Rightarrow> string option \<Rightarrow> string option \<Rightarrow> (string, crypto_error) result" where
  "hash_policy_decision lib d fulfiller workspace =
     map_ok hex (sha256 lib (decision_payload d fulfiller workspace))"

section \<open>Lemmas\<close>

lemma json_string_write_string: "json_string s = write_string s"
proof -
  have "json_char c = write_char c" for c by (simp add: json_char_def write_char_def)
  then have "json_char = write_char" by (rule ext)
  then show ?thesis by (simp add: json_string_def write_string_def)
qed

text \<open>The payload is JSON text, so the parser of \<open>canon.rs\<close> separates its fields.\<close>

definition opt_value :: "string option \<Rightarrow> json_value" where
  "opt_value v = (case v of None \<Rightarrow> Null | Some s \<Rightarrow> String s)"

definition decision_value :: "policy_decision \<Rightarrow> string option \<Rightarrow> string option \<Rightarrow> (string \<times> json_value) list" where
  "decision_value d fulfiller workspace =
     [(''mode'', String (mode_str (decision_mode d))),
      (''approvalRequired'', Bool (approval_required d)),
      (''ruleId'', String (decision_rule_id d)),
      (''reason'', String (decision_reason d)),
      (''approvalReference'', opt_value (approval_reference d)),
      (''requesterRing'', opt_value (requester_ring d)),
      (''fulfillerRing'', opt_value (fulfiller_ring d)),
      (''secretName'', String (decision_secret_name d)),
      (''allowedFulfillerId'', opt_value fulfiller),
      (''workspaceId'', opt_value workspace)]"

definition valid_opt :: "string option \<Rightarrow> bool" where
  "valid_opt v \<longleftrightarrow> (\<forall>s. v = Some s \<longrightarrow> utf8_valid s)"

definition valid_decision :: "policy_decision \<Rightarrow> bool" where
  "valid_decision d \<longleftrightarrow>
     utf8_valid (decision_rule_id d) \<and> utf8_valid (decision_reason d) \<and> valid_opt (approval_reference d) \<and>
     valid_opt (requester_ring d) \<and> valid_opt (fulfiller_ring d) \<and> utf8_valid (decision_secret_name d)"

lemma parses_as_writes:
  "well_formed d v \<Longrightarrow> norm v = v \<Longrightarrow> write_value v d = Ok out \<Longrightarrow> parses_as d out v"
  using write_value_writes [of d v] by (auto simp: writes_def)

lemma parses_as_json_string: "utf8_valid s \<Longrightarrow> parses_as (Suc 0) (json_string s) (String s)"
  by (rule parses_as_writes) (simp_all add: MAX_DEPTH_def write_value.simps json_string_write_string)

lemma parses_as_json_bool: "parses_as (Suc 0) (json_bool b) (Bool b)"
  by (rule parses_as_writes) (simp_all add: MAX_DEPTH_def write_value.simps json_bool_def)

lemma parses_as_json_optional: "valid_opt v \<Longrightarrow> parses_as (Suc 0) (json_optional_string v) (opt_value v)"
proof (cases v)
  case None
  have "parses_as (Suc 0) ''null'' Null"
    by (rule parses_as_writes) (simp_all add: MAX_DEPTH_def write_value.simps)
  with None show ?thesis by (simp add: json_optional_string_def opt_value_def)
next
  case (Some s)
  assume "valid_opt v"
  with Some show ?thesis
    by (simp add: json_optional_string_def opt_value_def valid_opt_def parses_as_json_string)
qed

lemma member_parses_json_key:
  assumes "list_all (\<lambda>b. 0x20 \<le> byte b \<and> byte b < 0x80 \<and> b \<noteq> quote \<and> b \<noteq> backslash) k" "parses_as (Suc 0) out v"
  shows "member_parses 0 (json_key k out) (k, v)"
proof -
  have "is_ascii k" using assms(1) by (auto simp: is_ascii_def list_all_iff)
  with assms(2) show ?thesis
    by (auto simp: member_parses_def json_key_def write_string_plain [OF assms(1)])
qed

lemma decision_payload_parses:
  assumes "valid_decision d" "valid_opt f" "valid_opt w"
  shows "parses_as 0 (decision_payload d f w) (Object (decision_value d f w))"
  unfolding decision_payload_def
proof (rule parses_as_Object)
  have "is_ascii (mode_str (decision_mode d))" by (cases "decision_mode d") (auto simp: is_ascii_def)
  then show "list_all2 (member_parses 0)
     [json_key ''mode'' (json_string (mode_str (decision_mode d))),
      json_key ''approvalRequired'' (json_bool (approval_required d)),
      json_key ''ruleId'' (json_string (decision_rule_id d)),
      json_key ''reason'' (json_string (decision_reason d)),
      json_key ''approvalReference'' (json_optional_string (approval_reference d)),
      json_key ''requesterRing'' (json_optional_string (requester_ring d)),
      json_key ''fulfillerRing'' (json_optional_string (fulfiller_ring d)),
      json_key ''secretName'' (json_string (decision_secret_name d)),
      json_key ''allowedFulfillerId'' (json_optional_string f),
      json_key ''workspaceId'' (json_optional_string w)] (decision_value d f w)"
    using assms unfolding decision_value_def
    by (auto intro!: member_parses_json_key parses_as_json_string parses_as_json_bool parses_as_json_optional
        simp: valid_decision_def)
qed (simp_all add: MAX_DEPTH_def decision_value_def)

lemma opt_value_inj: "opt_value a = opt_value b \<longleftrightarrow> a = b"
  by (auto simp: opt_value_def split: option.splits)

lemma mode_str_inj: "mode_str a = mode_str b \<longleftrightarrow> a = b"
  by (cases a; cases b) auto

lemma parses_as_unique:
  assumes "parses_as d out v" "parses_as d out w" "value_count v \<le> MAX_VALUES" "value_count w \<le> MAX_VALUES"
  shows "v = w"
  using parses_asD [OF assms(1), of "[]" "2 * length out + 1" 0]
    parses_asD [OF assms(2), of "[]" "2 * length out + 1" 0] assms(3,4) by (simp del: parse_value.simps)

lemma find_first:
  "List.find P xs = Some x \<longleftrightarrow> (\<exists>k < length xs. P (xs ! k) \<and> (\<forall>m < k. \<not> P (xs ! m)) \<and> x = xs ! k)"
  by (auto simp: find_Some_iff)

lemma decision_payload_inj:
  assumes "valid_decision d" "valid_opt f" "valid_opt w" "valid_decision d2" "valid_opt f2" "valid_opt w2"
  shows "decision_payload d f w = decision_payload d2 f2 w2 \<longleftrightarrow> (d, f, w) = (d2, f2, w2)"
proof
  assume eq: "decision_payload d f w = decision_payload d2 f2 w2"
  have c: "value_count (Object (decision_value e g x)) \<le> MAX_VALUES" for e g x
  proof -
    have "value_count (opt_value o1) = 1" for o1 by (cases o1) (simp_all add: opt_value_def)
    then show ?thesis by (simp add: decision_value_def MAX_VALUES_def)
  qed
  have "Object (decision_value d f w) = Object (decision_value d2 f2 w2)"
    by (rule parses_as_unique [OF decision_payload_parses [OF assms(1-3), unfolded eq]
          decision_payload_parses [OF assms(4-6)] c c])
  then show "(d, f, w) = (d2, f2, w2)"
    by (simp add: decision_value_def opt_value_inj mode_str_inj)
qed simp

section \<open>What a policy document means\<close>

text \<open>
  The meaning of a document is given on its text as it was written, before normalisation: white
  space around names does not count, blank members of a list do not count, and a list without
  members restricts nothing.
\<close>

definition admits :: "string list option \<Rightarrow> string \<Rightarrow> bool" where
  "admits written x \<longleftrightarrow>
     (\<forall>vs. written = Some vs \<longrightarrow> (\<forall>v \<in> set vs. trim v = []) \<or> (x \<noteq> [] \<and> (\<exists>v \<in> set vs. trim v = x)))"

text \<open>
  The ring of an agent: the segment of its identifier after the first \<open>/ring/\<close>, up to the next
  slash, without white space around it, if that is not empty.
\<close>

definition in_ring :: "string \<Rightarrow> string \<Rightarrow> bool" where
  "in_ring agent ring \<longleftrightarrow>
     (\<exists>before segment after. agent = before @ ''/ring/'' @ segment @ after \<and>
        (\<forall>n < length before. \<not> prefix ''/ring/'' (drop n agent)) \<and>
        CHR ''/'' \<notin> set segment \<and> (after = [] \<or> hd after = CHR ''/'') \<and> ring = trim segment \<and> ring \<noteq> [])"

definition ring_admits :: "string list option \<Rightarrow> string \<Rightarrow> bool" where
  "ring_admits written agent \<longleftrightarrow> (\<exists>ring. (in_ring agent ring \<or> ring = [] \<and> (\<nexists>r. in_ring agent r)) \<and> admits written ring)"

definition rule_applies :: "policy_input \<Rightarrow> exchange_policy_rule \<Rightarrow> bool" where
  "rule_applies i rule \<longleftrightarrow>
     trim (rule_secret_name rule) = input_secret_name i \<and>
     admits (requester_ids rule) (requester_id i) \<and> admits (fulfiller_ids rule) (fulfiller_hint i) \<and>
     admits (purposes rule) (input_purpose i) \<and>
     ring_admits (requester_rings rule) (requester_id i) \<and> ring_admits (fulfiller_rings rule) (fulfiller_hint i) \<and>
     (same_ring rule \<longrightarrow>
        (\<exists>ring. in_ring (requester_id i) ring \<and> in_ring (fulfiller_hint i) ring \<and> admits (allowed_rings rule) ring))"

lemma includes_normalized: "includes_value (normalize_list written) x \<longleftrightarrow> admits written x"
proof (cases written)
  case (Some vs)
  have "filter (\<lambda>v. v \<noteq> []) (map trim vs) = [] \<longleftrightarrow> (\<forall>v \<in> set vs. trim v = [])"
    by (auto simp: filter_empty_conv)
  with Some show ?thesis by (auto simp: includes_value_def normalize_list_def admits_def)
qed (simp add: includes_value_def normalize_list_def admits_def)

lemma split_once_first:
  "split_once p s = Some (a, b) \<longleftrightarrow> s = a @ p @ b \<and> (\<forall>n < length a. \<not> prefix p (drop n s))" if "p \<noteq> []"
proof (induction s arbitrary: a)
  case (Cons x xs)
  show ?case
  proof (cases "prefix p (x # xs)")
    case True
    then have "split_once p (x # xs) = Some ([], drop (length p) (x # xs))" by simp
    moreover have "a = []" if "\<forall>n < length a. \<not> prefix p (drop n (x # xs))"
      using that True by (cases a) auto
    ultimately show ?thesis using True by (auto simp: prefix_def)
  next
    case False
    then have "split_once p (x # xs) = map_option (\<lambda>(a, b). (x # a, b)) (split_once p xs)" by simp
    moreover have "x # xs = a @ p @ b \<and> (\<forall>n < length a. \<not> prefix p (drop n (x # xs))) \<longleftrightarrow>
        (\<exists>a'. a = x # a' \<and> xs = a' @ p @ b \<and> (\<forall>n < length a'. \<not> prefix p (drop n xs)))"
      using False by (cases a) (auto simp: less_Suc_eq_0_disj)
    ultimately show ?thesis using Cons.IH by auto
  qed
qed (use that in auto)

lemma first_segment:
  "hd (split_on c s) = segment \<longleftrightarrow> (\<exists>after. s = segment @ after \<and> c \<notin> set segment \<and> (after = [] \<or> hd after = c))"
proof (induction s arbitrary: segment)
  case (Cons x xs)
  show ?case
  proof (cases "x = c")
    case True
    then show ?thesis by (cases segment) auto
  next
    case False
    then have "hd (split_on c (x # xs)) = x # hd (split_on c xs)" using split_on_ne [of c xs] by (cases "split_on c xs") auto
    with False show ?thesis by (cases segment) (auto simp: Cons.IH)
  qed
qed auto

lemma ring_Some: "ring_from_agent_id agent = Some ring \<longleftrightarrow> in_ring agent ring"
proof -
  have "ring_from_agent_id agent = Some ring \<longleftrightarrow>
      (\<exists>before rest. split_once ''/ring/'' agent = Some (before, rest) \<and> ring = trim (hd (split_on (CHR ''/'') rest)) \<and> ring \<noteq> [])"
    by (auto simp: ring_from_agent_id_def Let_def split: option.splits)
  also have "\<dots> \<longleftrightarrow> (\<exists>before rest segment. split_once ''/ring/'' agent = Some (before, rest) \<and>
      hd (split_on (CHR ''/'') rest) = segment \<and> ring = trim segment \<and> ring \<noteq> [])"
    by blast
  also have "\<dots> \<longleftrightarrow> in_ring agent ring"
    unfolding in_ring_def first_segment split_once_first [OF list.discI [OF refl]] by blast
  finally show ?thesis .
qed

lemma ring_None: "ring_from_agent_id agent = None \<longleftrightarrow> (\<nexists>ring. in_ring agent ring)"
  unfolding ring_Some [symmetric] by simp

lemma ring_admits_normalized:
  "admits written (unwrap_or_empty (ring_from_agent_id agent)) \<longleftrightarrow> ring_admits written agent"
proof (cases "ring_from_agent_id agent")
  case None
  then show ?thesis
    using ring_None [of agent] by (auto simp: ring_admits_def unwrap_or_empty_def)
next
  case (Some ring)
  then have "in_ring agent r \<longleftrightarrow> r = ring" for r by (auto simp: ring_Some [symmetric])
  with Some show ?thesis by (simp add: ring_admits_def unwrap_or_empty_def)
qed

lemma same_ring_normalized:
  "ring_from_agent_id a \<noteq> None \<and> ring_from_agent_id a = ring_from_agent_id b \<and>
     ring_admits written a \<longleftrightarrow>
   (\<exists>ring. in_ring a ring \<and> in_ring b ring \<and> admits written ring)"
  unfolding ring_admits_normalized [symmetric] ring_Some [symmetric] by (auto simp: unwrap_or_empty_def)

lemma rule_matches_normalized: "rule_matches i (normalize_rule rule) \<longleftrightarrow> rule_applies i rule"
proof -
  have f: "rule_secret_name (normalize_rule rule) = trim (rule_secret_name rule)"
      "requester_ids (normalize_rule rule) = normalize_list (requester_ids rule)"
      "fulfiller_ids (normalize_rule rule) = normalize_list (fulfiller_ids rule)"
      "purposes (normalize_rule rule) = normalize_list (purposes rule)"
      "requester_rings (normalize_rule rule) = normalize_list (requester_rings rule)"
      "fulfiller_rings (normalize_rule rule) = normalize_list (fulfiller_rings rule)"
      "allowed_rings (normalize_rule rule) = normalize_list (allowed_rings rule)"
      "same_ring (normalize_rule rule) = same_ring rule"
    by (simp_all add: normalize_rule_def)
  show ?thesis
    unfolding rule_matches_def rule_applies_def Let_def f includes_normalized ring_admits_normalized same_ring_normalized
    by blast
qed

lemma find_map_first:
  "List.find P (map f xs) = Some y \<longleftrightarrow>
    (\<exists>k < length xs. P (f (xs ! k)) \<and> (\<forall>m < k. \<not> P (f (xs ! m))) \<and> y = f (xs ! k))"
  unfolding find_first by (auto simp: less_trans)

text \<open>A text that a document may leave out, where blank is the same as absent, and the members of a list.\<close>

definition written_text :: "string option \<Rightarrow> string option" where
  "written_text v = (if \<exists>t. v = Some t \<and> trim t \<noteq> [] then Some (trim (the v)) else None)"

definition written_members :: "string list option \<Rightarrow> string list option" where
  "written_members written = map_option (\<lambda>vs. [trim v. v \<leftarrow> vs, trim v \<noteq> []]) written"

lemma nonblank_written: "nonblank v = written_text v"
  by (auto simp: nonblank_def written_text_def split: option.splits)

lemma normalize_list_written: "normalize_list written = written_members written"
proof -
  have "filter (\<lambda>v. v \<noteq> []) (map trim vs) = [trim v. v \<leftarrow> vs, trim v \<noteq> []]" for vs by (induction vs) auto
  then show ?thesis by (simp add: normalize_list_def written_members_def)
qed

definition decides :: "policy_evaluation \<Rightarrow> policy_input \<Rightarrow> secret_registry_entry \<Rightarrow> exchange_policy_rule \<Rightarrow> bool" where
  "decides ev i entry rule \<longleftrightarrow>
     decision_mode (decision ev) = rule_mode rule \<and>
     (approval_required (decision ev) \<longleftrightarrow> rule_mode rule = PendingApproval) \<and>
     decision_rule_id (decision ev) = trim (rule_id rule) \<and>
     decision_reason (decision ev) =
       (case written_text (rule_reason rule) of
          Some reason \<Rightarrow> reason
        | None \<Rightarrow> default_reason (rule_mode rule) (trim (classification entry))) \<and>
     approval_reference (decision ev) = written_text (rule_approval_reference rule) \<and>
     (\<forall>ring. requester_ring (decision ev) = Some ring \<longleftrightarrow> in_ring (requester_id i) ring) \<and>
     (\<forall>ring. fulfiller_ring (decision ev) = Some ring \<longleftrightarrow> in_ring (fulfiller_hint i) ring) \<and>
     decision_secret_name (decision ev) = input_secret_name i \<and>
     allowed_fulfiller_id ev = (if rule_mode rule = Allow then Some (fulfiller_hint i) else None) \<and>
     eval_approver_ids ev = written_members (approver_ids rule) \<and>
     eval_approver_rings ev = written_members (approver_rings rule)"

lemma evaluation_decides: "ev = evaluation_of i (normalize_entry entry) (normalize_rule rule) \<longleftrightarrow> decides ev i entry rule"
proof -
  have opt: "(\<forall>x. a = Some x \<longleftrightarrow> b = Some x) \<longleftrightarrow> a = b" for a b :: "string option" by (cases a; cases b) auto
  have eq: "ev = ev' \<longleftrightarrow> decision ev = decision ev' \<and> allowed_fulfiller_id ev = allowed_fulfiller_id ev' \<and>
      eval_approver_ids ev = eval_approver_ids ev' \<and> eval_approver_rings ev = eval_approver_rings ev'" for ev'
    by (cases ev; cases ev') simp
  show ?thesis
    unfolding decides_def eq ring_Some [symmetric] opt
    by (cases "decision ev") (auto simp: evaluation_of_def normalize_rule_def normalize_entry_def nonblank_written
        normalize_list_written split: option.splits)
qed

section \<open>Properties\<close>

text \<open>C20: a document decides an exchange exactly when the secret is registered, the workspaces of
  requester and fulfiller do not differ if both are known, and some rule applies to the exchange. A
  rule applies when it names the secret, its lists of requesters, fulfillers, purposes and rings
  admit those of the exchange, and, if it asks for it, both agents are in one ring that it allows;
  all of this is read off the rules as they were written, so normalisation loses and adds nothing.
  The decision is that of the first rule that applies, with its mode, identifier and approvers, its
  reason or the default one for the classification of the first entry of that name, and the rings of
  both agents; approval is required exactly for \<open>pending_approval\<close>, and a fulfiller is allowed
  exactly for \<open>allow\<close>, and then it is the one asked for.\<close>

theorem evaluate_first_match:
  "evaluate (policy_new reg rs) i = Some ev \<longleftrightarrow>
    (\<exists>n k. n < length reg \<and> trim (entry_secret_name (reg ! n)) = input_secret_name i \<and>
       (\<forall>m < n. trim (entry_secret_name (reg ! m)) \<noteq> input_secret_name i) \<and>
       (\<forall>a b. requester_workspace_id i = Some a \<and> fulfiller_workspace_id i = Some b \<longrightarrow> a = b) \<and>
       k < length rs \<and> rule_applies i (rs ! k) \<and> (\<forall>m < k. \<not> rule_applies i (rs ! m)) \<and>
       decides ev i (reg ! n) (rs ! k))"
proof -
  let ?entry = "\<lambda>e. entry_secret_name e = input_secret_name i"
  have name: "entry_secret_name (normalize_entry e) = trim (entry_secret_name e)" for e
    by (simp add: normalize_entry_def)
  have spaces: "\<not> (requester_workspace_id i \<noteq> None \<and> fulfiller_workspace_id i \<noteq> None \<and>
        requester_workspace_id i \<noteq> fulfiller_workspace_id i) \<longleftrightarrow>
      (\<forall>a b. requester_workspace_id i = Some a \<and> fulfiller_workspace_id i = Some b \<longrightarrow> a = b)"
    by (cases "requester_workspace_id i"; cases "fulfiller_workspace_id i") auto
  have "evaluate (policy_new reg rs) i = Some ev \<longleftrightarrow>
      (\<exists>entry rule. List.find ?entry (map normalize_entry reg) = Some entry \<and>
        \<not> (requester_workspace_id i \<noteq> None \<and> fulfiller_workspace_id i \<noteq> None \<and>
           requester_workspace_id i \<noteq> fulfiller_workspace_id i) \<and>
        List.find (rule_matches i) (map normalize_rule rs) = Some rule \<and> ev = evaluation_of i entry rule)"
    by (auto simp: evaluate_def policy_new_def split: option.splits)
  then show ?thesis
    unfolding spaces find_map_first name rule_matches_normalized evaluation_decides [symmetric] by blast
qed

definition sample_rule :: "string \<Rightarrow> string \<Rightarrow> policy_mode \<Rightarrow> exchange_policy_rule" where
  "sample_rule name fulfiller mode =
     \<lparr>rule_id = name, rule_secret_name = '' db '', requester_ids = None, fulfiller_ids = Some ['' '', fulfiller],
      approver_ids = None, requester_rings = None, fulfiller_rings = None, approver_rings = None,
      purposes = Some ['' ''], same_ring = True, allowed_rings = Some [''blue''], rule_mode = mode,
      rule_approval_reference = None, rule_reason = Some ''ok''\<rparr>"

definition sample_input :: policy_input where
  "sample_input =
     \<lparr>requester_id = ''agent/ring/blue/a'', requester_workspace_id = Some ''w'', input_secret_name = ''db'',
      input_purpose = ''deploy'', fulfiller_hint = ''agent/ring/blue'', fulfiller_workspace_id = None\<rparr>"

lemma trim_ascii:
  assumes "is_ascii s"
  shows "trim s = rev (dropWhile (\<lambda>c. is_whitespace (byte c)) (rev (dropWhile (\<lambda>c. is_whitespace (byte c)) s)))"
    (is "_ = ?t")
proof -
  have "trim_chars (map byte s) = map byte ?t" by (simp add: trim_chars_def dropWhile_map rev_map comp_def)
  moreover have "is_ascii ?t" using assms by (auto simp: is_ascii_def list_all_iff dest!: set_dropWhileD)
  ultimately show ?thesis using assms ascii_utf8_string [of ?t] by (simp add: trim_def)
qed

lemma sample_trims: "trim ''db '' = ''db''" "trim '' db '' = ''db''" "trim '' '' = []" "trim ''blue'' = ''blue''"
    "trim ''agent/ring/red'' = ''agent/ring/red''" "trim ''agent/ring/blue '' = ''agent/ring/blue''"
  by (simp_all add: trim_ascii is_ascii_def is_whitespace_def)

lemmas sample_eval = sample_rule_def sample_input_def rule_matches_def normalize_rule_def normalize_list_def
  includes_value_def ring_from_agent_id_def sample_trims unwrap_or_empty_def

lemma sample_rules:
  "rule_matches sample_input (normalize_rule (sample_rule '' r2'' ''agent/ring/blue '' Allow))"
  "\<not> rule_matches sample_input (normalize_rule (sample_rule ''r1'' ''agent/ring/red'' Deny))"
  by (simp_all add: sample_eval Let_def)

theorem evaluate_first_match_witness:
  "\<exists>ev. evaluate (policy_new [\<lparr>entry_secret_name = ''db '', classification = ''low'', description = None\<rparr>]
      [sample_rule ''r1'' ''agent/ring/red'' Deny, sample_rule '' r2'' ''agent/ring/blue '' Allow]) sample_input = Some ev \<and>
     rule_applies sample_input (sample_rule '' r2'' ''agent/ring/blue '' Allow) \<and>
     \<not> rule_applies sample_input (sample_rule ''r1'' ''agent/ring/red'' Deny) \<and>
     allowed_fulfiller_id ev = Some ''agent/ring/blue''"
proof -
  let ?reg = "[\<lparr>entry_secret_name = ''db '', classification = ''low'', description = None\<rparr>]"
  let ?rs = "[sample_rule ''r1'' ''agent/ring/red'' Deny, sample_rule '' r2'' ''agent/ring/blue '' Allow]"
  obtain ev where ev: "evaluate (policy_new ?reg ?rs) sample_input = Some ev"
    using sample_rules by (simp add: evaluate_def policy_new_def normalize_entry_def sample_input_def sample_trims)
  have no: "\<not> rule_applies sample_input (sample_rule ''r1'' ''agent/ring/red'' Deny)"
    unfolding rule_matches_normalized [symmetric] by (rule sample_rules)
  from evaluate_first_match [of ?reg ?rs sample_input ev] ev no show ?thesis
    by (auto simp: less_Suc_eq decides_def sample_rule_def sample_input_def)
qed

text \<open>C21: the digest of a decision has 64 digits and identifies the decision together with
  the allowed fulfiller and the workspace: two digests are equal exactly when all three are, or when
  the two different texts that were hashed for them have the same SHA-256 digest. The strings are
  Rust strings, that is, valid UTF-8.\<close>

theorem decision_hash_identifies:
  assumes "valid_decision d" "valid_opt f" "valid_opt w" "valid_decision d2" "valid_opt f2" "valid_opt w2"
    "hash_policy_decision lib d f w = Ok h" "hash_policy_decision lib d2 f2 w2 = Ok h2"
  shows "length h = 64 \<and>
    (h = h2 \<longleftrightarrow> (d, f, w) = (d2, f2, w2) \<or>
      decision_payload d f w \<noteq> decision_payload d2 f2 w2 \<and>
      sha256 lib (decision_payload d f w) = sha256 lib (decision_payload d2 f2 w2))"
proof -
  obtain m m2 where m: "sha256 lib (decision_payload d f w) = Ok m" "h = hex m"
      "sha256 lib (decision_payload d2 f2 w2) = Ok m2" "h2 = hex m2"
    using assms(7,8) by (auto simp: hash_policy_decision_def)
  have "length h = 64" using sha256_length [OF m(1)] by (simp add: m(2))
  moreover have "h = h2 \<longleftrightarrow> m = m2" using hex_inj by (auto simp: m(2,4))
  moreover have "decision_payload d f w = decision_payload d2 f2 w2 \<longleftrightarrow> (d, f, w) = (d2, f2, w2)"
    by (rule decision_payload_inj [OF assms(1-6)])
  ultimately show ?thesis using m(1,3) by auto
qed

theorem decision_hash_identifies_witness:
  "\<exists>d h h2. d = \<lparr>decision_mode = Allow, approval_required = False, decision_rule_id = ''r'',
       decision_reason = ''ok'', approval_reference = None, requester_ring = None, fulfiller_ring = Some ''a'',
       decision_secret_name = ''s''\<rparr> \<and>
     hash_policy_decision toy_lib d (Some ''f'') None = Ok h \<and>
     hash_policy_decision toy_lib d (Some ''f'') (Some ''w'') = Ok h2 \<and> length h = 64 \<and>
     (h = h2 \<longrightarrow> sha256 toy_lib (decision_payload d (Some ''f'') None) = sha256 toy_lib (decision_payload d (Some ''f'') (Some ''w'')))"
proof -
  let ?d = "\<lparr>decision_mode = Allow, approval_required = False, decision_rule_id = ''r'',
       decision_reason = ''ok'', approval_reference = None, requester_ring = None, fulfiller_ring = Some ''a'',
       decision_secret_name = ''s''\<rparr>"
  have ok: "valid_decision ?d" "valid_opt (Some ''f'')" "valid_opt None" "valid_opt (Some ''w'')"
    by (simp_all add: valid_decision_def valid_opt_def is_ascii_def)
  have "\<exists>h. hash_policy_decision toy_lib ?d f w = Ok h" for f w
    by (simp add: hash_policy_decision_def sha256_def toy_lib_def checksum_def N_SECRET_def)
  then obtain h h2 where h: "hash_policy_decision toy_lib ?d (Some ''f'') None = Ok h"
      "hash_policy_decision toy_lib ?d (Some ''f'') (Some ''w'') = Ok h2" by meson
  from decision_hash_identifies [OF ok(1,2,3) ok(1,2,4) h] h show ?thesis by auto
qed

end
