(* ===== verification/Fleet_Codec.thy ===== *)
theory Fleet_Codec
  imports Canon_Roundtrip Base64 Crypto Protocol
begin

unbundle bit_operations_syntax

text \<open>
  What the signed documents of \<open>crates/blindpass-core/src/fleet.rs\<close> are decoded and encoded with:
  the error type, the access to body fields (\<open>expect_fields\<close>, \<open>required_string\<close>,
  \<open>required_number\<close>), the validators of identifiers, and the strict base64url decoder. The locales
  at the end state the contract between the two directions of a document's codec; the theories of
  the documents interpret them once per document.
\<close>

section \<open>Errors and fields\<close>

datatype document_error =
    Canonical canonical_error
  | Crypto crypto_error
  | Invalid string

text \<open>The loop of \<open>expect_fields\<close>; its variable \<open>names\<close> is the set of the names seen so far.\<close>

fun collect_names ::
    "string list \<Rightarrow> string list \<Rightarrow> (string \<times> json_value) list \<Rightarrow> string list \<Rightarrow> (string list, document_error) result" where
  "collect_names required optional [] names = Ok names"
| "collect_names required optional ((name, _) # members) names =
     (if name \<in> set names \<or> name \<notin> set required \<and> name \<notin> set optional
      then Err (Invalid ''unexpected body fields'')
      else collect_names required optional members (name # names))"

definition expect_fields :: "json_value \<Rightarrow> string list \<Rightarrow> string list \<Rightarrow> (unit, document_error) result" where
  "expect_fields v required optional =
     and_then (ok_or (as_object v) (Invalid ''body must be an object'')) (\<lambda>members.
     and_then (collect_names required optional members []) (\<lambda>names.
     reject_if (list_ex (\<lambda>r. r \<notin> set names) required) (Invalid ''missing body field'')))"

definition required_string :: "json_value \<Rightarrow> string \<Rightarrow> (string, document_error) result" where
  "required_string v name = ok_or (Option.bind (get v name) as_str) (Invalid ''body string field'')"

definition required_number :: "json_value \<Rightarrow> string \<Rightarrow> (u64, document_error) result" where
  "required_number v name = ok_or (Option.bind (get v name) as_u64) (Invalid ''body integer field'')"

text \<open>An optional member: absent, or a string.\<close>

definition optional_string :: "json_value \<Rightarrow> string \<Rightarrow> string \<Rightarrow> (string option, document_error) result" where
  "optional_string v key label =
     (case get v key of
        None \<Rightarrow> Ok None
      | Some x \<Rightarrow> map_ok Some (ok_or (as_str x) (Invalid label)))"

section \<open>Validators\<close>

definition MAX_OPAQUE_ID_BYTES :: nat where "MAX_OPAQUE_ID_BYTES = 128"

definition is_valid_opaque_id :: "string \<Rightarrow> bool" where
  "is_valid_opaque_id v \<longleftrightarrow>
     v \<noteq> [] \<and> length v \<le> MAX_OPAQUE_ID_BYTES \<and>
     list_all (\<lambda>b. is_ascii_alphanumeric b \<or> b = CHR ''_'' \<or> b = CHR ''-'') v"

definition valid_identifier :: "string \<Rightarrow> bool" where
  "valid_identifier v = is_valid_opaque_id v"

definition valid_base64url_text :: "string \<Rightarrow> bool" where
  "valid_base64url_text v = list_all (\<lambda>b. is_ascii_alphanumeric b \<or> b = CHR ''_'' \<or> b = CHR ''-'') v"

definition valid_sha256_hex :: "string \<Rightarrow> bool" where
  "valid_sha256_hex v \<longleftrightarrow>
     length v = 64 \<and> list_all (\<lambda>b. is_ascii_hexdigit b \<and> \<not> is_ascii_uppercase b) v"

definition is_token_char :: "char \<Rightarrow> bool" where
  "is_token_char b \<longleftrightarrow>
     is_ascii_alphanumeric b \<or> b = CHR ''.'' \<or> b = CHR ''_'' \<or> b = CHR '':'' \<or> b = CHR ''-''"

definition validate_key_id :: "string \<Rightarrow> (unit, document_error) result" where
  "validate_key_id v =
     reject_if (v = [] \<or> 128 < length v \<or> \<not> list_all is_token_char v) (Invalid ''key id'')"

definition validate_opaque_id :: "string \<Rightarrow> string \<Rightarrow> (unit, document_error) result" where
  "validate_opaque_id v label = reject_if (\<not> is_valid_opaque_id v) (Invalid label)"

definition validate_token :: "string \<Rightarrow> string \<Rightarrow> (unit, document_error) result" where
  "validate_token v label =
     reject_if (v = [] \<or> 128 < length v \<or> \<not> list_all is_token_char v) (Invalid label)"

definition validate_unit :: "string \<Rightarrow> (unit, document_error) result" where
  "validate_unit v =
     reject_if (v = [] \<or> 255 < length v \<or> \<not> suffix ''.service'' v \<or>
       \<not> list_all (\<lambda>b. is_token_char b \<or> b = CHR ''@'') v) (Invalid ''system unit'')"

text \<open>\<open>str::parse::<u32>\<close> on a text of digits only.\<close>

definition parse_u32_digits :: "string \<Rightarrow> nat option" where
  "parse_u32_digits digits = (if dec_value digits < 2 ^ 32 then Some (dec_value digits) else None)"

definition is_valid_account_identifier :: "string \<Rightarrow> bool" where
  "is_valid_account_identifier v =
     (let account_name = length v \<le> 32 \<and> v \<noteq> [] \<and>
            list_all (\<lambda>b. is_ascii_lowercase b \<or> is_ascii_digit b \<or> b \<in> set ''_.-'') v;
          uid_selector = (case strip_prefix ''uid:'' v of
              None \<Rightarrow> False
            | Some digits \<Rightarrow>
                digits \<noteq> [] \<and> list_all is_ascii_digit digits \<and>
                (case parse_u32_digits digits of
                   None \<Rightarrow> False
                 | Some n \<Rightarrow> 0 < n \<and> dec n = digits))
      in account_name \<or> uid_selector)"

definition validate_account :: "string \<Rightarrow> (unit, document_error) result" where
  "validate_account v = reject_if (\<not> is_valid_account_identifier v) (Invalid ''account'')"

definition validate_ceiling :: "u64 \<Rightarrow> (unit, document_error) result" where
  "validate_ceiling v = reject_if (\<not> (1 \<le> v \<and> v \<le> 3600)) (Invalid ''local ceiling'')"

section \<open>The strict base64url decoder\<close>

text \<open>The loop of \<open>decode_base64_url\<close>, which masks its accumulator after each digit.\<close>

fun strict_loop :: "string \<Rightarrow> string \<Rightarrow> nat \<Rightarrow> nat \<Rightarrow> (string \<times> nat \<times> nat) option" where
  "strict_loop [] output accumulator bits = Some (output, accumulator, bits)"
| "strict_loop (b # input) output accumulator bits =
     (case digit_of b of
        None \<Rightarrow> None
      | Some digit \<Rightarrow>
          let accumulator = take_bit 32 (push_bit 6 accumulator) OR digit;
              bits = bits + 6;
              output = (if 8 \<le> bits then output @ [char_of (drop_bit (bits - 8) accumulator)] else output);
              bits = (if 8 \<le> bits then bits - 8 else bits);
              accumulator = (if bits = 0 then 0 else accumulator AND mask bits)
          in strict_loop input output accumulator bits)"

definition decode_base64_url :: "string \<Rightarrow> (string, document_error) result" where
  "decode_base64_url v =
     and_then (reject_if (v = [] \<or> length v mod 4 = 1 \<or> \<not> list_all is_base64_char v)
       (Invalid ''base64url signature'')) (\<lambda>_.
     and_then (ok_or (strict_loop v [] 0 0) (Invalid ''base64url signature'')) (\<lambda>(output, accumulator, bits).
     and_then (reject_if (0 < bits \<and> accumulator AND mask bits \<noteq> 0) (Invalid ''base64url signature'')) (\<lambda>_.
     and_then (reject_if (base64_url_encode output \<noteq> v) (Invalid ''non-canonical base64url signature'')) (\<lambda>_.
     Ok output))))"

section \<open>The strict decoder is the other decoder\<close>

lemma digit_of_less: "digit_of b = Some d \<Longrightarrow> d < 64"
  by (auto simp: digit_of_def less_eq_char_def split: if_splits)

lemma strict_loop_digit:
  assumes "digit_of b = Some d"
  shows "strict_loop (b # input) out acc bits =
     (if 2 \<le> bits
      then strict_loop input (out @ [char_of (drop_bit (bits - 2) (next_acc acc d))])
             (next_acc acc d mod 2 ^ (bits - 2)) (bits - 2)
      else strict_loop input out (next_acc acc d mod 2 ^ (bits + 6)) (bits + 6))"
proof -
  have "next_acc acc d AND mask k = next_acc acc d mod 2 ^ k" for k
    by (simp add: take_bit_eq_mod flip: take_bit_eq_mask)
  then show ?thesis by (simp add: assms next_acc_def [symmetric] Let_def del: take_bit_push_bit)
qed

lemma decode_loop_some_digit:
  "digit_of b = Some d \<Longrightarrow> decode_loop (b # input) out acc bits =
     (if 2 \<le> bits
      then decode_loop input (out @ [char_of (drop_bit (bits - 2) (next_acc acc d))]) (next_acc acc d) (bits - 2)
      else decode_loop input out (next_acc acc d) (bits + 6))"
  by (simp add: decode_loop.simps(2) next_acc_def [symmetric] Let_def)

lemma next_acc_agree:
  assumes "d < 64" "acc = acc2 mod 2 ^ bits" "bits \<le> 6" "k \<le> bits + 6"
  shows "next_acc acc d mod 2 ^ k = next_acc acc2 d mod 2 ^ k"
proof -
  have "next_acc acc d mod 2 ^ (bits + 6) = next_acc acc2 d mod 2 ^ (bits + 6)"
    using next_acc_mod [OF assms(1), of bits acc] next_acc_mod [OF assms(1), of bits acc2] assms(2,3) by simp
  moreover have "x mod 2 ^ (bits + 6) mod 2 ^ k = x mod 2 ^ k" for x :: nat
    using assms(4) by (intro mod_mod_cancel le_imp_power_dvd)
  ultimately show ?thesis by metis
qed

lemma strict_loop_simulates:
  assumes "bits \<in> {0, 2, 4, 6}" "acc = acc2 mod 2 ^ bits" "list_all is_base64_char input"
  shows "map_option (\<lambda>(out, a, b). (out, a AND mask b, b)) (strict_loop input out acc bits) =
    map_option (\<lambda>(out, a, b). (out, a AND mask b, b)) (decode_loop input out acc2 bits)"
  using assms
proof (induction input arbitrary: out acc acc2 bits)
  case Nil
  then show ?case by (simp add: take_bit_eq_mod flip: take_bit_eq_mask)
next
  case (Cons b input)
  show ?case
  proof (cases "digit_of b")
    case (Some d)
    note agree = next_acc_agree [OF digit_of_less [OF Some] Cons.prems(2)]
    have bits: "bits \<le> 6" "2 \<le> bits \<Longrightarrow> bits - 2 \<in> {0, 2, 4, 6}" "\<not> 2 \<le> bits \<Longrightarrow> bits + 6 \<in> {0, 2, 4, 6}"
      using Cons.prems(1) by auto
    have out: "char_of (drop_bit (bits - 2) (next_acc acc d)) = (char_of (drop_bit (bits - 2) (next_acc acc2 d)) :: char)"
      if "2 \<le> bits"
    proof -
      have "(2 :: nat) ^ (bits + 6) = 2 ^ (bits - 2) * 256" using that Cons.prems(1) by auto
      then have "drop_bit (bits - 2) (next_acc acc d) mod 256 = drop_bit (bits - 2) (next_acc acc2 d) mod 256"
        using agree [OF bits(1), of "bits + 6"] by (simp add: drop_bit_eq_div mod_div_swap)
      then show ?thesis by (simp add: char_of_eq_iff take_bit_eq_mod)
    qed
    show ?thesis
    proof (cases "2 \<le> bits")
      case True
      show ?thesis
        unfolding strict_loop_digit [OF Some] decode_loop_some_digit [OF Some] if_P [OF True] out [OF True]
        using Cons.prems(3) by (intro Cons.IH [OF bits(2) [OF True] agree [OF bits(1)]]) auto
    next
      case False
      show ?thesis
        unfolding strict_loop_digit [OF Some] decode_loop_some_digit [OF Some] if_not_P [OF False]
        using Cons.prems(3) by (intro Cons.IH [OF bits(3) [OF False] agree [OF bits(1)]]) auto
    qed
  qed (simp add: decode_loop.simps(2))
qed

lemma decode_base64_url_Ok:
  "decode_base64_url v = Ok out \<longleftrightarrow> out \<noteq> [] \<and> v = base64_url_encode out"
proof
  assume "decode_base64_url v = Ok out"
  then show "out \<noteq> [] \<and> v = base64_url_encode out" by (auto simp: decode_base64_url_def)
next
  assume out: "out \<noteq> [] \<and> v = base64_url_encode out"
  have "(length out * 4 + 2) div 3 mod 4 \<noteq> 1" by presburger
  with out have v: "v \<noteq> []" "list_all is_base64_char v" "length v mod 4 \<noteq> 1"
    using encode_base64_chars [of out] by (auto simp: length_base64_url_encode)
  from out obtain acc bits where
    d: "decode_loop v [] 0 0 = Some (out, acc, bits)" "0 < bits \<longrightarrow> acc AND mask bits = 0"
    using decode_loop_encode [of out "[]" 0] by auto
  with strict_loop_simulates [of 0 0 0 v "[]"] v(2) obtain acc2 where
    "strict_loop v [] 0 0 = Some (out, acc2, bits)" "acc2 AND mask bits = acc AND mask bits"
    by (auto simp: map_option_case split: option.splits)
  with d out v show "decode_base64_url v = Ok out" by (auto simp: decode_base64_url_def)
qed

section \<open>Bodies up to the order of members\<close>

lemma collect_names_Ok:
  "collect_names required optional members names = Ok out \<longleftrightarrow>
     out = rev (map fst members) @ names \<and> distinct (map fst members) \<and>
     set (map fst members) \<inter> set names = {} \<and> set (map fst members) \<subseteq> set required \<union> set optional"
  by (induction required optional members names rule: collect_names.induct) auto

lemma collect_names_Err:
  "collect_names required optional members names = Err e \<Longrightarrow> e = Invalid ''unexpected body fields''"
  by (induction required optional members names rule: collect_names.induct) (auto split: if_splits)

lemma expect_fields_Ok:
  "expect_fields v required optional = Ok u \<longleftrightarrow>
     (\<exists>members. v = Object members \<and> distinct (map fst members) \<and>
        set (map fst members) \<subseteq> set required \<union> set optional \<and> set required \<subseteq> set (map fst members))"
  by (cases v) (auto simp: expect_fields_def collect_names_Ok list_ex_iff)

lemma collect_names_mset:
  assumes "mset (map fst xs) = mset (map fst ys)"
  shows "map_ok set (collect_names r o' xs []) = map_ok set (collect_names r o' ys [])"
proof -
  have s: "set (map fst xs) = set (map fst ys)" "distinct (map fst xs) = distinct (map fst ys)"
    using assms by (metis mset_eq_setD, metis distinct_count_atmost_1 mset_eq_setD assms)
  show ?thesis
  proof (cases "collect_names r o' xs []"; cases "collect_names r o' ys []")
    fix e e' assume "collect_names r o' xs [] = Err e" "collect_names r o' ys [] = Err e'"
    then show ?thesis by (auto dest: collect_names_Err)
  next
    fix a b assume ab: "collect_names r o' xs [] = Ok a" "collect_names r o' ys [] = Ok b"
    with s have "set a = set b" by (simp add: collect_names_Ok)
    with ab show ?thesis by simp
  next
    fix a e assume "collect_names r o' xs [] = Ok a" "collect_names r o' ys [] = Err e"
    moreover from this(1) s have "collect_names r o' ys [] = Ok (rev (map fst ys))"
      by (simp add: collect_names_Ok)
    ultimately show ?thesis by simp
  next
    fix a e assume "collect_names r o' xs [] = Err e" "collect_names r o' ys [] = Ok a"
    moreover from this(2) s have "collect_names r o' xs [] = Ok (rev (map fst xs))"
      by (simp add: collect_names_Ok)
    ultimately show ?thesis by simp
  qed
qed

lemma and_then_set_cong:
  "map_ok set r = map_ok set r' \<Longrightarrow> and_then r (\<lambda>x. f (set x)) = and_then r' (\<lambda>x. f (set x))"
  by (cases r; cases r') auto

lemma expect_fields_norm [wire_simps]: "expect_fields (norm v) required optional = expect_fields v required optional"
proof (cases v)
  case (Object members)
  have "mset (map fst (map norm_member (by_key members))) = mset (map fst members)"
    by (simp add: comp_def)
  from collect_names_mset [OF this] and_then_set_cong show ?thesis
    by (fastforce simp: Object norm_Object expect_fields_def simp del: norm.simps)
qed (auto simp: expect_fields_def)

lemma map_of_norm_member: "map_of (map norm_member xs) k = map_option norm (map_of xs k)"
  by (induction xs) auto

lemma get_norm:
  assumes "expect_fields v required optional = Ok u"
  shows "get (norm v) k = map_option norm (get v k)"
proof -
  from assms obtain members where v: "v = Object members" "distinct (map fst members)"
    by (auto simp: expect_fields_Ok)
  have "map_of (by_key members) = map_of members"
    using v(2) by (intro map_of_eqI) (auto simp: distinct_map_fst_mset [OF v(2)] image_iff)
  then show ?thesis using v(1) by (simp add: norm_Object map_of_norm_member del: norm.simps)
qed

lemma as_norm [simp]:
  "as_str (norm v) = as_str v" "as_u64 (norm v) = as_u64 v"
  "as_array (norm v) = map_option (map norm) (as_array v)"
  by (cases v; simp)+

lemma fields_norm [wire_simps]:
  assumes "expect_fields v required optional = Ok u"
  shows "required_string (norm v) k = required_string v k"
    "required_number (norm v) k = required_number v k"
    "optional_string (norm v) k label = optional_string v k label"
  by (cases "get v k"; simp add: get_norm [OF assms] required_string_def required_number_def optional_string_def)+

text \<open>
  A decoded body is determined by its members: a body that passed \<^const>\<open>expect_fields\<close> and the
  object that is written back are the same up to order when they agree on every known name.
\<close>

lemma sort_key_mset: "mset xs = mset ys \<Longrightarrow> inj_on f (set xs) \<Longrightarrow> sort_key f xs = sort_key f ys"
  by (rule sort_key_inj_key_eq) simp_all

lemma norm_eq_of_fields:
  assumes "expect_fields v required optional = Ok u" "distinct (map fst written)"
    "list_all is_ascii (required @ optional)" "fst ` set written \<subseteq> set (required @ optional)"
    "list_all (\<lambda>k. map_option norm (map_of written k) = map_option norm (get v k)) (required @ optional)"
  shows "norm (Object written) = norm v"
proof -
  from assms(1) obtain members where v: "v = Object members" "distinct (map fst members)"
      "fst ` set members \<subseteq> set (required @ optional)"
    by (auto simp: expect_fields_Ok)
  have "map_option norm (map_of written k) = map_option norm (map_of members k)" for k
  proof (cases "k \<in> set (required @ optional)")
    case False
    then have "map_of written k = None" "map_of members k = None"
      using assms(4) v(3) by (auto simp: map_of_eq_None_iff)
    then show ?thesis by simp
  qed (use assms(5) v(1) in \<open>simp add: list_all_iff\<close>)
  then have m: "map_of (map norm_member written) = map_of (map norm_member members)"
    by (auto simp: map_of_norm_member)
  have d: "distinct (map fst (map norm_member written))" "distinct (map fst (map norm_member members))"
    using assms(2) v(2) by (simp_all add: comp_def)
  from m d have s: "set (map norm_member written) = set (map norm_member members)"
    using map_of_inject_set by blast
  then have "mset (map norm_member written) = mset (map norm_member members)"
    using d [unfolded distinct_map [of fst]] by (simp only: set_eq_iff_mset_eq_distinct)
  moreover have "inj_on (\<lambda>e. utf16 (fst e)) (set (map norm_member written))"
  proof (rule inj_onI)
    fix x y assume xy: "x \<in> set (map norm_member written)" "y \<in> set (map norm_member written)"
      "utf16 (fst x) = utf16 (fst y)"
    then have "fst x \<in> set (required @ optional)" "fst y \<in> set (required @ optional)"
      using assms(4) by auto
    then have "utf8_valid (fst x)" "utf8_valid (fst y)" using assms(3) by (auto simp: list_all_iff)
    with xy(3) have "fst x = fst y" using utf16_inj_on by (auto simp: inj_on_def)
    then show "x = y" using xy(1,2) d(1) [unfolded distinct_map [of fst]] by (blast dest: inj_onD)
  qed
  ultimately have "sort_key (\<lambda>e. utf16 (fst e)) (map norm_member written) =
      sort_key (\<lambda>e. utf16 (fst e)) (map norm_member members)"
    by (rule sort_key_mset)
  then show ?thesis using v(1) by simp
qed

section \<open>What the validators say\<close>

lemma validators_Ok [simp]:
  "validate_opaque_id s l = Ok u \<longleftrightarrow> is_valid_opaque_id s"
  "validate_account s = Ok u \<longleftrightarrow> is_valid_account_identifier s"
  "validate_ceiling n = Ok u \<longleftrightarrow> 1 \<le> n \<and> n \<le> 3600"
  by (simp_all add: validate_opaque_id_def validate_account_def validate_ceiling_def)

lemma required_Ok:
  "required_string v k = Ok s \<longleftrightarrow> get v k = Some (String s)"
  "required_number v k = Ok n \<longleftrightarrow> (\<exists>x. get v k = Some x \<and> as_u64 x = Some n)"
  "optional_string v k l = Ok os \<longleftrightarrow> get v k = map_option String os"
proof -
  have "as_str x = Some t \<longleftrightarrow> x = String t" for x t by (cases x) auto
  then show "required_string v k = Ok s \<longleftrightarrow> get v k = Some (String s)"
    "optional_string v k l = Ok os \<longleftrightarrow> get v k = map_option String os"
    by (cases os; auto simp: required_string_def optional_string_def Option.bind_eq_Some_conv split: option.splits)+
qed (auto simp: required_number_def Option.bind_eq_Some_conv)

lemma norm_number: "as_u64 x = Some n \<Longrightarrow> norm x = Unsigned n"
  by (cases x) (auto split: if_splits)

lemma ascii_less: "is_ascii_alphanumeric b \<Longrightarrow> byte b < 128" "is_ascii_digit b \<Longrightarrow> byte b < 128"
    "is_ascii_lowercase b \<Longrightarrow> byte b < 128" "is_ascii_hexdigit b \<Longrightarrow> byte b < 128" "is_token_char b \<Longrightarrow> byte b < 128"
    "is_base64_char b \<Longrightarrow> byte b < 128"
  by (auto simp: ascii_defs is_token_char_def is_base64_char_def less_eq_char_def)

lemma is_ascii_simps [simp]: "is_ascii []" "is_ascii (c # s) \<longleftrightarrow> byte c < 128 \<and> is_ascii s"
  by (auto simp: is_ascii_def)

lemma opaque_id_ascii [simp]: "is_valid_opaque_id s \<Longrightarrow> is_ascii s"
  by (auto simp: is_valid_opaque_id_def is_ascii_def list_all_iff dest: ascii_less)

lemma token_ascii [simp]: "validate_token s l = Ok u \<Longrightarrow> is_ascii s"
  by (auto simp: validate_token_def is_ascii_def list_all_iff dest: ascii_less)

lemma key_id_ascii [simp]: "validate_key_id s = Ok u \<Longrightarrow> is_ascii s"
  by (auto simp: validate_key_id_def is_ascii_def list_all_iff dest: ascii_less)

lemma unit_ascii [simp]: "validate_unit s = Ok u \<Longrightarrow> is_ascii s"
  by (auto simp: validate_unit_def is_ascii_def list_all_iff dest: ascii_less)

lemma account_ascii [simp]: "is_valid_account_identifier s \<Longrightarrow> is_ascii s"
  by (auto simp: is_valid_account_identifier_def is_ascii_def list_all_iff strip_prefix_Some Let_def
      dest: ascii_less split: option.splits)

lemma event_key_ascii [simp]: "is_valid_event_key s \<Longrightarrow> is_ascii s"
  by (auto simp: is_valid_event_key_def is_ascii_def list_all_iff dest: ascii_less)

lemma sha256_hex_ascii [simp]: "valid_sha256_hex s \<Longrightarrow> is_ascii s"
  by (auto simp: valid_sha256_hex_def is_ascii_def list_all_iff dest: ascii_less)

lemma base64_ascii [simp]: "is_ascii (base64_url_encode s)"
  using encode_base64_chars [of s] by (auto simp: is_ascii_def list_all_iff dest: ascii_less)

section \<open>The contract of a document codec\<close>

text \<open>What every encoded body is: small, and made of valid strings.\<close>

definition wire_safe :: "json_value \<Rightarrow> bool" where
  "wire_safe v \<longleftrightarrow> utf8_strings v \<and> value_count v \<le> 1000"

lemma wire_safe_count: "wire_safe v \<Longrightarrow> utf8_strings v \<and> value_count v \<le> MAX_VALUES"
  by (simp add: wire_safe_def MAX_VALUES_def)

text \<open>
  A decoder does not depend on the order of members, reads back what the encoder writes (up to the
  normal form \<open>canonical\<close> of the document), and returns only documents that can be encoded.
\<close>

locale document_codec =
  fixes from_value :: "json_value \<Rightarrow> ('d, 'e) result"
    and to_value :: "'d \<Rightarrow> (json_value, 'e) result"
    and canonical :: "'d \<Rightarrow> 'd"
  assumes reorder: "from_value (norm v) = from_value v"
    and read_back: "to_value d = Ok v \<Longrightarrow> from_value v = Ok (canonical d)"
    and valid: "from_value v = Ok d \<Longrightarrow> \<exists>w. to_value d = Ok w"
    and safe: "to_value d = Ok v \<Longrightarrow> wire_safe v"
begin

lemma wire_parses:
  "to_value d = Ok v \<Longrightarrow> canonicalize_value v = Ok c \<Longrightarrow> parse_json c = Ok (norm v)"
  using parse_json_writes canonicalize_value_Ok [of v c] wire_safe_count [OF safe, of d v] by blast

lemma wire_read_back:
  "to_value d = Ok v \<Longrightarrow> canonicalize_value v = Ok c \<Longrightarrow>
    \<exists>w. parse_json c = Ok w \<and> from_value w = Ok (canonical d)"
  using wire_parses read_back reorder by metis

lemma bytes_determine:
  assumes "to_value d = Ok v" "canonicalize_value v = Ok c" "to_value e = Ok w" "canonicalize_value w = Ok c"
  shows "canonical d = canonical e"
  using wire_read_back [OF assms(1,2)] wire_read_back [OF assms(3,4)] by auto

end

text \<open>An exact codec keeps every document as it is, and a document has only one body.\<close>

locale exact_codec = document_codec from_value to_value "\<lambda>d. d"
  for from_value :: "json_value \<Rightarrow> ('d, 'e) result" and to_value :: "'d \<Rightarrow> (json_value, 'e) result" +
  assumes faithful: "from_value v = Ok d \<Longrightarrow> to_value d = Ok w \<Longrightarrow> norm w = norm v"
begin

lemma body_unique:
  assumes "from_value v = Ok d" "from_value w = Ok d"
  shows "canonicalize_value v = canonicalize_value w"
  using valid [OF assms(1)] faithful [OF assms(1)] faithful [OF assms(2)] canonicalize_value_norm by metis

lemma from_value_iff: "from_value v = Ok d \<longleftrightarrow> (\<exists>w. to_value d = Ok w \<and> norm w = norm v)"
  using valid faithful read_back reorder by metis

end

end
