(* ===== verification/Fleet.thy ===== *)
theory Fleet
  imports Fleet_Codec
begin

text \<open>
  The documents that the controller and a node exchange (\<open>crates/blindpass-core/src/fleet.rs\<close>):
  one record per document with its decoder \<open>from_value\<close> and its validating encoder \<open>to_value\<close>, the
  messages that are signed outside an envelope, and the document kinds. Each document interprets
  the codec contract of \<open>Fleet_Codec\<close>. The decoders build the record in the source's field order,
  so the first error is the source's. Field selectors carry a prefix per document.
\<close>

section \<open>Document kinds and consumption modes\<close>

datatype document_kind =
    KRegistration | KPolicySnapshot | KGrant | KRevocation | KNodeRevocation | KNodeKeyRotation
  | KTimeReply | KApplicationAck | KOperationResult | KAuditEvent | KOperationClosed | KRecipientOffer
  | KProvisioningDelivery | KFulfillmentAuthorization | KFulfillmentDelivery | KFulfillmentRevocation
  | KFulfillmentOffer | KFulfillmentSubmit

definition MAX_NODE_DOCUMENT_BYTES :: nat where "MAX_NODE_DOCUMENT_BYTES = 64 * 1024"
definition MAX_PROVISIONING_DELIVERY_DOCUMENT_BYTES :: nat where
  "MAX_PROVISIONING_DELIVERY_DOCUMENT_BYTES = 128 * 1024"

definition max_document_bytes :: "document_kind \<Rightarrow> nat" where
  "max_document_bytes kind =
     (case kind of
        KProvisioningDelivery \<Rightarrow> MAX_PROVISIONING_DELIVERY_DOCUMENT_BYTES
      | _ \<Rightarrow> MAX_NODE_DOCUMENT_BYTES)"

fun kind_str :: "document_kind \<Rightarrow> string" where
  "kind_str KRegistration = ''registration''"
| "kind_str KPolicySnapshot = ''policy_snapshot''"
| "kind_str KGrant = ''grant''"
| "kind_str KRevocation = ''revocation''"
| "kind_str KNodeRevocation = ''node_revocation''"
| "kind_str KNodeKeyRotation = ''node_key_rotation''"
| "kind_str KTimeReply = ''time_reply''"
| "kind_str KApplicationAck = ''application_ack''"
| "kind_str KOperationResult = ''operation_result''"
| "kind_str KAuditEvent = ''audit_event''"
| "kind_str KOperationClosed = ''operation_closed''"
| "kind_str KRecipientOffer = ''recipient_offer''"
| "kind_str KProvisioningDelivery = ''provisioning_delivery''"
| "kind_str KFulfillmentAuthorization = ''fulfillment_authorization''"
| "kind_str KFulfillmentDelivery = ''fulfillment_delivery''"
| "kind_str KFulfillmentRevocation = ''fulfillment_revocation''"
| "kind_str KFulfillmentOffer = ''fulfillment_offer''"
| "kind_str KFulfillmentSubmit = ''fulfillment_submit''"

text \<open>The arms of the match in \<open>DocumentKind::parse\<close>.\<close>

definition kind_names :: "(string \<times> document_kind) list" where
  "kind_names =
       [(''registration'', KRegistration),
        (''policy_snapshot'', KPolicySnapshot),
        (''grant'', KGrant),
        (''revocation'', KRevocation),
        (''node_revocation'', KNodeRevocation),
        (''node_key_rotation'', KNodeKeyRotation),
        (''time_reply'', KTimeReply),
        (''application_ack'', KApplicationAck),
        (''operation_result'', KOperationResult),
        (''audit_event'', KAuditEvent),
        (''operation_closed'', KOperationClosed),
        (''recipient_offer'', KRecipientOffer),
        (''provisioning_delivery'', KProvisioningDelivery),
        (''fulfillment_authorization'', KFulfillmentAuthorization),
        (''fulfillment_delivery'', KFulfillmentDelivery),
        (''fulfillment_revocation'', KFulfillmentRevocation),
        (''fulfillment_offer'', KFulfillmentOffer),
        (''fulfillment_submit'', KFulfillmentSubmit)]"

definition kind_parse :: "string \<Rightarrow> document_kind option" where
  "kind_parse v = map_of kind_names v"

datatype consumption_mode = File | Socket | BrowserSession

fun consumption_str :: "consumption_mode \<Rightarrow> string" where
  "consumption_str File = ''file''"
| "consumption_str Socket = ''socket''"
| "consumption_str BrowserSession = ''browser_session''"

definition consumption_parse :: "string \<Rightarrow> consumption_mode option" where
  "consumption_parse v =
     (if v = ''file'' then Some File
      else if v = ''socket'' then Some Socket
      else if v = ''browser_session'' then Some BrowserSession
      else None)"

definition supported_operation_binding :: "string \<Rightarrow> consumption_mode \<Rightarrow> bool" where
  "supported_operation_binding action mode \<longleftrightarrow>
     action = ''noop.marker'' \<and> (mode = File \<or> mode = Socket) \<or>
     action = ''browser.session'' \<and> mode = BrowserSession"

lemma kind_parse_str [simp]: "kind_parse (kind_str k) = Some k"
  by (cases k) (simp_all add: kind_parse_def kind_names_def)

lemma kind_parse_Some: "kind_parse s = Some k \<longleftrightarrow> s = kind_str k"
proof
  assume "kind_parse s = Some k"
  then have "(s, k) \<in> set kind_names" unfolding kind_parse_def by (rule map_of_SomeD)
  then show "s = kind_str k" by (auto simp: kind_names_def)
qed simp

lemma consumption_parse_str [simp]: "consumption_parse (consumption_str m) = Some m"
  by (cases m) (simp_all add: consumption_parse_def)

lemma consumption_parse_Some: "consumption_parse s = Some m \<longleftrightarrow> s = consumption_str m"
proof
  assume "consumption_parse s = Some m"
  then show "s = consumption_str m" by (auto simp: consumption_parse_def split: if_split_asm)
qed simp

lemma consumption_ascii [simp]: "is_ascii (consumption_str m)"
  by (cases m) (simp_all add: is_ascii_def)

lemma kind_ascii [simp]: "is_ascii (kind_str k)"
  by (cases k) (simp_all add: is_ascii_def)

section \<open>Registrations\<close>

record fleet_registration =
  fr_node_id :: string
  fr_workload_id :: string
  fr_unit :: string
  fr_account :: string
  fr_invocation_id :: "string option"
  fr_status :: string
  fr_consumption_mode :: consumption_mode
  fr_registration_version :: u64
  fr_policy_version :: u64
  fr_local_ceiling_seconds :: u64

definition registration_to_value :: "fleet_registration \<Rightarrow> (json_value, document_error) result" where
  "registration_to_value d =
     and_then (validate_opaque_id (fr_node_id d) ''node id'') (\<lambda>_.
     and_then (validate_opaque_id (fr_workload_id d) ''workload id'') (\<lambda>_.
     and_then (validate_unit (fr_unit d)) (\<lambda>_.
     and_then (validate_account (fr_account d)) (\<lambda>_.
     and_then (case fr_invocation_id d of
         Some invocation_id \<Rightarrow> validate_token invocation_id ''invocation id'' | None \<Rightarrow> Ok ()) (\<lambda>_.
     and_then (reject_if (fr_status d \<notin> {''active'', ''revoked''}) (Invalid ''registration status'')) (\<lambda>_.
     and_then (validate_ceiling (fr_local_ceiling_seconds d)) (\<lambda>_.
     and_then (reject_if (fr_registration_version d = 0 \<or> fr_policy_version d = 0)
       (Invalid ''registration or policy version'')) (\<lambda>_.
     Ok (Object
       ([(''account'', String (fr_account d)),
         (''consumption_mode'', String (consumption_str (fr_consumption_mode d))),
         (''local_ceiling_seconds'', Unsigned (fr_local_ceiling_seconds d)),
         (''node_id'', String (fr_node_id d)),
         (''policy_version'', Unsigned (fr_policy_version d)),
         (''registration_version'', Unsigned (fr_registration_version d)),
         (''status'', String (fr_status d)),
         (''unit'', String (fr_unit d)),
         (''workload_id'', String (fr_workload_id d))] @
        (case fr_invocation_id d of
           Some invocation_id \<Rightarrow> [(''invocation_id'', String invocation_id)] | None \<Rightarrow> [])))))))))))"

definition registration_from_value :: "json_value \<Rightarrow> (fleet_registration, document_error) result" where
  "registration_from_value v =
     and_then (expect_fields v
       [''node_id'', ''workload_id'', ''unit'', ''account'', ''consumption_mode'', ''status'',
        ''registration_version'', ''policy_version'', ''local_ceiling_seconds'']
       [''invocation_id'']) (\<lambda>_.
     and_then (required_string v ''consumption_mode'') (\<lambda>text.
     and_then (ok_or (consumption_parse text) (Invalid ''consumption mode'')) (\<lambda>consumption_mode.
     and_then (required_string v ''node_id'') (\<lambda>node_id.
     and_then (required_string v ''workload_id'') (\<lambda>workload_id.
     and_then (required_string v ''unit'') (\<lambda>unit.
     and_then (required_string v ''account'') (\<lambda>account.
     and_then (optional_string v ''invocation_id'' ''invocation id'') (\<lambda>invocation_id.
     and_then (required_string v ''status'') (\<lambda>status.
     and_then (required_number v ''registration_version'') (\<lambda>registration_version.
     and_then (required_number v ''policy_version'') (\<lambda>policy_version.
     and_then (required_number v ''local_ceiling_seconds'') (\<lambda>local_ceiling_seconds.
     let d = \<lparr>fr_node_id = node_id, fr_workload_id = workload_id, fr_unit = unit, fr_account = account,
         fr_invocation_id = invocation_id, fr_status = status,
         fr_consumption_mode = consumption_mode, fr_registration_version = registration_version,
         fr_policy_version = policy_version, fr_local_ceiling_seconds = local_ceiling_seconds\<rparr>
     in and_then (registration_to_value d) (\<lambda>_. Ok d)))))))))))))"

section \<open>Policy snapshots\<close>

record policy_snapshot =
  ps_policy_version :: u64
  ps_local_ceiling_seconds :: u64
  ps_allowed_actions :: "string list"
  ps_allowed_modes :: "consumption_mode list"

definition valid_action :: "string \<Rightarrow> bool" where
  "valid_action action \<longleftrightarrow>
     action \<noteq> [] \<and> length action \<le> 100 \<and>
     list_all (\<lambda>b. is_ascii_lowercase b \<or> is_ascii_digit b \<or> b = CHR ''.'') action"

definition policy_snapshot_to_value :: "policy_snapshot \<Rightarrow> (json_value, document_error) result" where
  "policy_snapshot_to_value d =
     and_then (validate_ceiling (ps_local_ceiling_seconds d)) (\<lambda>_.
     and_then (reject_if (ps_policy_version d = 0 \<or> 100 < length (ps_allowed_actions d) \<or> 3 < length (ps_allowed_modes d))
       (Invalid ''policy snapshot bounds'')) (\<lambda>_.
     and_then (reject_if (list_ex (\<lambda>action. \<not> valid_action action) (ps_allowed_actions d)) (Invalid ''policy action'')) (\<lambda>_.
     let actions = remdups_adj (sort (ps_allowed_actions d)) in
     and_then (reject_if (length actions \<noteq> length (ps_allowed_actions d)) (Invalid ''duplicate policy action'')) (\<lambda>_.
     let modes = remdups_adj (sort (map consumption_str (ps_allowed_modes d))) in
     and_then (reject_if (length modes \<noteq> length (ps_allowed_modes d)) (Invalid ''duplicate consumption mode'')) (\<lambda>_.
     Ok (Object
       [(''allowed_actions'', Array (map String actions)),
        (''allowed_modes'', Array (map String modes)),
        (''local_ceiling_seconds'', Unsigned (ps_local_ceiling_seconds d)),
        (''policy_version'', Unsigned (ps_policy_version d))]))))))"

definition required_array :: "json_value \<Rightarrow> string \<Rightarrow> string \<Rightarrow> (json_value list, document_error) result" where
  "required_array v name label = ok_or (Option.bind (get v name) as_array) (Invalid label)"

definition string_item_of :: "string \<Rightarrow> json_value \<Rightarrow> (string, document_error) result" where
  "string_item_of label x = ok_or (as_str x) (Invalid label)"

definition mode_item_of :: "json_value \<Rightarrow> (consumption_mode, document_error) result" where
  "mode_item_of x = ok_or (Option.bind (as_str x) consumption_parse) (Invalid ''consumption mode'')"

definition policy_snapshot_from_value :: "json_value \<Rightarrow> (policy_snapshot, document_error) result" where
  "policy_snapshot_from_value v =
     and_then (expect_fields v
       [''policy_version'', ''local_ceiling_seconds'', ''allowed_actions'', ''allowed_modes'']
       []) (\<lambda>_.
     and_then (required_array v ''allowed_actions'' ''allowed actions'') (\<lambda>items.
     and_then (collect_results (string_item_of ''allowed action'') items) (\<lambda>allowed_actions.
     and_then (required_array v ''allowed_modes'' ''allowed modes'') (\<lambda>items.
     and_then (collect_results mode_item_of items) (\<lambda>allowed_modes.
     and_then (required_number v ''policy_version'') (\<lambda>policy_version.
     and_then (required_number v ''local_ceiling_seconds'') (\<lambda>local_ceiling_seconds.
     let d = \<lparr>ps_policy_version = policy_version, ps_local_ceiling_seconds = local_ceiling_seconds,
         ps_allowed_actions = allowed_actions, ps_allowed_modes = allowed_modes\<rparr>
     in and_then (policy_snapshot_to_value d) (\<lambda>_. Ok d))))))))"

section \<open>Grants\<close>

record grant =
  gr_id :: string
  gr_operation_id :: string
  gr_node_id :: string
  gr_workload_id :: string
  gr_invocation_id :: string
  gr_unit :: string
  gr_account :: string
  gr_resource_id :: string
  gr_recipient_key_id :: string
  gr_registration_version :: u64
  gr_policy_version :: u64
  gr_approval_reference :: "string option"
  gr_request_event_key :: "string option"
  gr_action :: string
  gr_mode :: consumption_mode
  gr_audience :: string
  gr_issuer_epoch :: u64
  gr_issued_at_ms :: u64
  gr_expires_at_ms :: u64
  gr_local_ceiling_seconds :: u64

definition grant_to_value :: "grant \<Rightarrow> (json_value, document_error) result" where
  "grant_to_value d =
     and_then (validate_opaque_id (gr_id d) ''grant id'') (\<lambda>_.
     and_then (validate_opaque_id (gr_operation_id d) ''operation id'') (\<lambda>_.
     and_then (validate_opaque_id (gr_node_id d) ''node id'') (\<lambda>_.
     and_then (validate_opaque_id (gr_workload_id d) ''workload id'') (\<lambda>_.
     and_then (validate_token (gr_invocation_id d) ''invocation id'') (\<lambda>_.
     and_then (validate_token (gr_resource_id d) ''resource id'') (\<lambda>_.
     and_then (validate_unit (gr_unit d)) (\<lambda>_.
     and_then (validate_account (gr_account d)) (\<lambda>_.
     and_then (validate_token (gr_recipient_key_id d) ''recipient key id'') (\<lambda>_.
     and_then (validate_ceiling (gr_local_ceiling_seconds d)) (\<lambda>_.
     and_then (reject_if (gr_registration_version d = 0 \<or> gr_policy_version d = 0 \<or> gr_issuer_epoch d = 0 \<or>
         gr_issued_at_ms d = 0 \<or> gr_expires_at_ms d \<le> gr_issued_at_ms d \<or>
         3600000 < gr_expires_at_ms d - gr_issued_at_ms d \<or> gr_audience d \<noteq> ''blindpass-node'' \<or>
         \<not> supported_operation_binding (gr_action d) (gr_mode d) \<or>
         gr_mode d = BrowserSession \<and>
           (120000 < gr_expires_at_ms d - gr_issued_at_ms d \<or> gr_request_event_key d = None))
       (Invalid ''grant binding or lifetime'')) (\<lambda>_.
     let members =
       [(''account'', String (gr_account d)),
        (''action'', String (gr_action d)),
        (''audience'', String (gr_audience d)),
        (''expires_at_ms'', Unsigned (gr_expires_at_ms d)),
        (''id'', String (gr_id d)),
        (''invocation_id'', String (gr_invocation_id d)),
        (''issued_at_ms'', Unsigned (gr_issued_at_ms d)),
        (''issuer_epoch'', Unsigned (gr_issuer_epoch d)),
        (''local_ceiling_seconds'', Unsigned (gr_local_ceiling_seconds d)),
        (''mode'', String (consumption_str (gr_mode d))),
        (''node_id'', String (gr_node_id d)),
        (''operation_id'', String (gr_operation_id d)),
        (''policy_version'', Unsigned (gr_policy_version d)),
        (''recipient_key_id'', String (gr_recipient_key_id d)),
        (''registration_version'', Unsigned (gr_registration_version d)),
        (''resource_id'', String (gr_resource_id d)),
        (''unit'', String (gr_unit d)),
        (''workload_id'', String (gr_workload_id d))] in
     and_then (case gr_approval_reference d of
         None \<Rightarrow> Ok []
       | Some reference \<Rightarrow>
           and_then (validate_token reference ''approval reference'') (\<lambda>_.
           Ok [(''approval_reference'', String reference)])) (\<lambda>approval.
     and_then (case gr_request_event_key d of
         None \<Rightarrow> Ok []
       | Some key \<Rightarrow>
           and_then (validate_opaque_id key ''request event key'') (\<lambda>_.
           and_then (reject_if (length key < 16) (Invalid ''request event key'')) (\<lambda>_.
           Ok [(''request_event_key'', String key)]))) (\<lambda>event_key.
     Ok (Object (members @ approval @ event_key)))))))))))))))"

definition grant_from_value :: "json_value \<Rightarrow> (grant, document_error) result" where
  "grant_from_value v =
     and_then (expect_fields v
       [''id'', ''operation_id'', ''node_id'', ''workload_id'', ''invocation_id'', ''unit'',
        ''account'', ''resource_id'', ''recipient_key_id'', ''registration_version'',
        ''policy_version'', ''action'', ''mode'', ''audience'', ''issuer_epoch'', ''issued_at_ms'',
        ''expires_at_ms'', ''local_ceiling_seconds'']
       [''approval_reference'', ''request_event_key'']) (\<lambda>_.
     and_then (required_string v ''mode'') (\<lambda>text.
     and_then (ok_or (consumption_parse text) (Invalid ''consumption mode'')) (\<lambda>mode.
     and_then (required_string v ''id'') (\<lambda>id.
     and_then (required_string v ''operation_id'') (\<lambda>operation_id.
     and_then (required_string v ''node_id'') (\<lambda>node_id.
     and_then (required_string v ''workload_id'') (\<lambda>workload_id.
     and_then (required_string v ''invocation_id'') (\<lambda>invocation_id.
     and_then (required_string v ''unit'') (\<lambda>unit.
     and_then (required_string v ''account'') (\<lambda>account.
     and_then (required_string v ''resource_id'') (\<lambda>resource_id.
     and_then (required_string v ''recipient_key_id'') (\<lambda>recipient_key_id.
     and_then (required_number v ''registration_version'') (\<lambda>registration_version.
     and_then (required_number v ''policy_version'') (\<lambda>policy_version.
     and_then (optional_string v ''approval_reference'' ''approval reference'') (\<lambda>approval_reference.
     and_then (optional_string v ''request_event_key'' ''request event key'') (\<lambda>request_event_key.
     and_then (required_string v ''action'') (\<lambda>action.
     and_then (required_string v ''audience'') (\<lambda>audience.
     and_then (required_number v ''issuer_epoch'') (\<lambda>issuer_epoch.
     and_then (required_number v ''issued_at_ms'') (\<lambda>issued_at_ms.
     and_then (required_number v ''expires_at_ms'') (\<lambda>expires_at_ms.
     and_then (required_number v ''local_ceiling_seconds'') (\<lambda>local_ceiling_seconds.
     let d = \<lparr>gr_id = id, gr_operation_id = operation_id, gr_node_id = node_id,
         gr_workload_id = workload_id, gr_invocation_id = invocation_id, gr_unit = unit,
         gr_account = account, gr_resource_id = resource_id,
         gr_recipient_key_id = recipient_key_id, gr_registration_version = registration_version,
         gr_policy_version = policy_version, gr_approval_reference = approval_reference,
         gr_request_event_key = request_event_key, gr_action = action, gr_mode = mode,
         gr_audience = audience, gr_issuer_epoch = issuer_epoch, gr_issued_at_ms = issued_at_ms,
         gr_expires_at_ms = expires_at_ms, gr_local_ceiling_seconds = local_ceiling_seconds\<rparr>
     in and_then (grant_to_value d) (\<lambda>_. Ok d)))))))))))))))))))))))"

section \<open>Revocations\<close>

record revocation =
  rv_grant_id :: string
  rv_node_id :: string
  rv_reason :: string
  rv_revoked_at_ms :: u64
  rv_retain_until_ms :: u64
  rv_issuer_epoch :: u64

definition revocation_to_value :: "revocation \<Rightarrow> (json_value, document_error) result" where
  "revocation_to_value d =
     and_then (validate_opaque_id (rv_grant_id d) ''grant id'') (\<lambda>_.
     and_then (validate_opaque_id (rv_node_id d) ''node id'') (\<lambda>_.
     and_then (reject_if (rv_reason d \<notin> {''operator'', ''policy'', ''expired'', ''cancelled'', ''key_rotation''} \<or>
         rv_revoked_at_ms d = 0 \<or> rv_retain_until_ms d \<le> rv_revoked_at_ms d \<or> rv_issuer_epoch d = 0)
       (Invalid ''revocation binding'')) (\<lambda>_.
     Ok (Object
       [(''grant_id'', String (rv_grant_id d)),
        (''issuer_epoch'', Unsigned (rv_issuer_epoch d)),
        (''node_id'', String (rv_node_id d)),
        (''reason'', String (rv_reason d)),
        (''retain_until_ms'', Unsigned (rv_retain_until_ms d)),
        (''revoked_at_ms'', Unsigned (rv_revoked_at_ms d))]))))"

definition revocation_from_value :: "json_value \<Rightarrow> (revocation, document_error) result" where
  "revocation_from_value v =
     and_then (expect_fields v
       [''grant_id'', ''node_id'', ''reason'', ''revoked_at_ms'', ''retain_until_ms'',
        ''issuer_epoch'']
       []) (\<lambda>_.
     and_then (required_string v ''grant_id'') (\<lambda>grant_id.
     and_then (required_string v ''node_id'') (\<lambda>node_id.
     and_then (required_string v ''reason'') (\<lambda>reason.
     and_then (required_number v ''revoked_at_ms'') (\<lambda>revoked_at_ms.
     and_then (required_number v ''retain_until_ms'') (\<lambda>retain_until_ms.
     and_then (required_number v ''issuer_epoch'') (\<lambda>issuer_epoch.
     let d = \<lparr>rv_grant_id = grant_id, rv_node_id = node_id, rv_reason = reason,
         rv_revoked_at_ms = revoked_at_ms, rv_retain_until_ms = retain_until_ms,
         rv_issuer_epoch = issuer_epoch\<rparr>
     in and_then (revocation_to_value d) (\<lambda>_. Ok d))))))))"

section \<open>Cancellations\<close>

record operation_cancellation =
  oc_node_id :: string
  oc_workload_id :: string
  oc_invocation_id :: string
  oc_request_event_key :: string

definition valid_invocation_id :: "string \<Rightarrow> bool" where
  "valid_invocation_id v \<longleftrightarrow>
     length v = 32 \<and> list_all (\<lambda>b. is_ascii_digit b \<or> CHR ''a'' \<le> b \<and> b \<le> CHR ''f'') v"

definition operation_cancellation_to_value :: "operation_cancellation \<Rightarrow> (json_value, document_error) result" where
  "operation_cancellation_to_value d =
     and_then (validate_opaque_id (oc_node_id d) ''node id'') (\<lambda>_.
     and_then (validate_opaque_id (oc_workload_id d) ''workload id'') (\<lambda>_.
     and_then (reject_if (\<not> valid_invocation_id (oc_invocation_id d) \<or> \<not> is_valid_event_key (oc_request_event_key d))
       (Invalid ''operation cancellation binding'')) (\<lambda>_.
     Ok (Object
       [(''node_id'', String (oc_node_id d)),
        (''workload_id'', String (oc_workload_id d)),
        (''invocation_id'', String (oc_invocation_id d)),
        (''request_event_key'', String (oc_request_event_key d))]))))"

definition operation_cancellation_from_value :: "json_value \<Rightarrow> (operation_cancellation, document_error) result" where
  "operation_cancellation_from_value v =
     and_then (expect_fields v
       [''node_id'', ''workload_id'', ''invocation_id'', ''request_event_key'']
       []) (\<lambda>_.
     and_then (required_string v ''node_id'') (\<lambda>node_id.
     and_then (required_string v ''workload_id'') (\<lambda>workload_id.
     and_then (required_string v ''invocation_id'') (\<lambda>invocation_id.
     and_then (required_string v ''request_event_key'') (\<lambda>request_event_key.
     let d = \<lparr>oc_node_id = node_id, oc_workload_id = workload_id, oc_invocation_id = invocation_id,
         oc_request_event_key = request_event_key\<rparr>
     in and_then (operation_cancellation_to_value d) (\<lambda>_. Ok d))))))"

definition canonical_domain_message :: "string \<Rightarrow> json_value \<Rightarrow> (string, document_error) result" where
  "canonical_domain_message domain v =
     and_then (map_err Canonical (canonicalize_value v)) (\<lambda>canonical.
     Ok (domain @ canonical))"

abbreviation nul :: string where "nul \<equiv> [CHR 0x00]"

definition CANCEL_KEY_DOMAIN :: string where
  "CANCEL_KEY_DOMAIN = ''blindpass:operation-cancel-key:v1'' @ nul"

definition cancellation_event_key :: "libcrypto \<Rightarrow> operation_cancellation \<Rightarrow> (string, document_error) result" where
  "cancellation_event_key lib d =
     and_then (operation_cancellation_to_value d) (\<lambda>_.
     and_then (canonical_domain_message CANCEL_KEY_DOMAIN
       (Object [(''node_id'', String (oc_node_id d)), (''request_event_key'', String (oc_request_event_key d))])) (\<lambda>message.
     and_then (map_err Crypto (sha256 lib message)) (\<lambda>digest.
     Ok (''cancel_'' @ hex digest))))"

section \<open>Closures\<close>

record operation_closed =
  cl_node_id :: string
  cl_operation_id :: string
  cl_request_event_key :: string
  cl_status :: string
  cl_closed_at_ms :: u64
  cl_issuer_epoch :: u64

definition STATUSES :: "string list" where
  "STATUSES = [''rejected'', ''expired'', ''cancelled'', ''denied'']"

definition operation_closed_to_value :: "operation_closed \<Rightarrow> (json_value, document_error) result" where
  "operation_closed_to_value d =
     and_then (validate_opaque_id (cl_node_id d) ''node id'') (\<lambda>_.
     and_then (validate_opaque_id (cl_operation_id d) ''operation id'') (\<lambda>_.
     and_then (validate_opaque_id (cl_request_event_key d) ''request event key'') (\<lambda>_.
     and_then (reject_if (cl_status d \<notin> set STATUSES \<or> cl_closed_at_ms d = 0 \<or> cl_issuer_epoch d = 0)
       (Invalid ''operation closure binding'')) (\<lambda>_.
     Ok (Object
       [(''closed_at_ms'', Unsigned (cl_closed_at_ms d)),
        (''issuer_epoch'', Unsigned (cl_issuer_epoch d)),
        (''node_id'', String (cl_node_id d)),
        (''operation_id'', String (cl_operation_id d)),
        (''request_event_key'', String (cl_request_event_key d)),
        (''status'', String (cl_status d))])))))"

definition operation_closed_from_value :: "json_value \<Rightarrow> (operation_closed, document_error) result" where
  "operation_closed_from_value v =
     and_then (expect_fields v
       [''node_id'', ''operation_id'', ''request_event_key'', ''status'', ''closed_at_ms'',
        ''issuer_epoch'']
       []) (\<lambda>_.
     and_then (required_string v ''node_id'') (\<lambda>node_id.
     and_then (required_string v ''operation_id'') (\<lambda>operation_id.
     and_then (required_string v ''request_event_key'') (\<lambda>request_event_key.
     and_then (required_string v ''status'') (\<lambda>status.
     and_then (required_number v ''closed_at_ms'') (\<lambda>closed_at_ms.
     and_then (required_number v ''issuer_epoch'') (\<lambda>issuer_epoch.
     let d = \<lparr>cl_node_id = node_id, cl_operation_id = operation_id,
         cl_request_event_key = request_event_key, cl_status = status,
         cl_closed_at_ms = closed_at_ms, cl_issuer_epoch = issuer_epoch\<rparr>
     in and_then (operation_closed_to_value d) (\<lambda>_. Ok d))))))))"

section \<open>Node revocations and key rotations\<close>

record node_revocation =
  nv_node_id :: string
  nv_revoked_at_ms :: u64
  nv_issuer_epoch :: u64

definition node_revocation_to_value :: "node_revocation \<Rightarrow> (json_value, document_error) result" where
  "node_revocation_to_value d =
     and_then (validate_opaque_id (nv_node_id d) ''node id'') (\<lambda>_.
     and_then (reject_if (nv_revoked_at_ms d = 0 \<or> nv_issuer_epoch d = 0) (Invalid ''node revocation binding'')) (\<lambda>_.
     Ok (Object
       [(''issuer_epoch'', Unsigned (nv_issuer_epoch d)),
        (''node_id'', String (nv_node_id d)),
        (''revoked_at_ms'', Unsigned (nv_revoked_at_ms d))])))"

definition node_revocation_from_value :: "json_value \<Rightarrow> (node_revocation, document_error) result" where
  "node_revocation_from_value v =
     and_then (expect_fields v
       [''node_id'', ''revoked_at_ms'', ''issuer_epoch'']
       []) (\<lambda>_.
     and_then (required_string v ''node_id'') (\<lambda>node_id.
     and_then (required_number v ''revoked_at_ms'') (\<lambda>revoked_at_ms.
     and_then (required_number v ''issuer_epoch'') (\<lambda>issuer_epoch.
     let d = \<lparr>nv_node_id = node_id, nv_revoked_at_ms = revoked_at_ms, nv_issuer_epoch = issuer_epoch\<rparr>
     in and_then (node_revocation_to_value d) (\<lambda>_. Ok d)))))"

definition FINGERPRINT_DOMAIN :: string where
  "FINGERPRINT_DOMAIN = ''blindpass:fleet-node-fingerprint:v1'' @ nul"

definition node_key_fingerprint :: "libcrypto \<Rightarrow> string \<Rightarrow> string \<Rightarrow> (string, crypto_error) result" where
  "node_key_fingerprint lib signing_public_key recipient_public_key =
     and_then (reject_if (length signing_public_key \<noteq> 32 \<or> length recipient_public_key \<noteq> 32) InvalidKeyLength) (\<lambda>_.
     and_then (sha256 lib (FINGERPRINT_DOMAIN @ signing_public_key @ recipient_public_key)) (\<lambda>digest.
     Ok (hex digest)))"

record node_key_rotation =
  kr_node_id :: string
  kr_rotation_id :: string
  kr_from_key_version :: u64
  kr_to_key_version :: u64
  kr_signing_public :: string
  kr_recipient_public :: string
  kr_fingerprint :: string
  kr_issuer_epoch :: u64

definition node_key_rotation_to_value :: "libcrypto \<Rightarrow> node_key_rotation \<Rightarrow> (json_value, document_error) result" where
  "node_key_rotation_to_value lib d =
     and_then (validate_opaque_id (kr_node_id d) ''node id'') (\<lambda>_.
     and_then (validate_opaque_id (kr_rotation_id d) ''rotation id'') (\<lambda>_.
     and_then (reject_if (kr_from_key_version d = 0 \<or>
         checked_add_u64 (kr_from_key_version d) 1 \<noteq> Some (kr_to_key_version d) \<or> kr_issuer_epoch d = 0)
       (Invalid ''node key rotation version'')) (\<lambda>_.
     and_then (decode_base64_url (kr_signing_public d)) (\<lambda>signing_public.
     and_then (decode_base64_url (kr_recipient_public d)) (\<lambda>recipient_public.
     and_then (reject_if (length signing_public \<noteq> 32 \<or> length recipient_public \<noteq> 32) (Invalid ''node key rotation public key'')) (\<lambda>_.
     and_then (map_err Crypto (node_key_fingerprint lib signing_public recipient_public)) (\<lambda>computed.
     and_then (reject_if (computed \<noteq> kr_fingerprint d) (Invalid ''node key rotation fingerprint'')) (\<lambda>_.
     Ok (Object
       [(''fingerprint'', String (kr_fingerprint d)),
        (''from_key_version'', Unsigned (kr_from_key_version d)),
        (''issuer_epoch'', Unsigned (kr_issuer_epoch d)),
        (''node_id'', String (kr_node_id d)),
        (''recipient_public'', String (kr_recipient_public d)),
        (''rotation_id'', String (kr_rotation_id d)),
        (''signing_public'', String (kr_signing_public d)),
        (''to_key_version'', Unsigned (kr_to_key_version d))])))))))))"

definition node_key_rotation_from_value :: "libcrypto \<Rightarrow> json_value \<Rightarrow> (node_key_rotation, document_error) result" where
  "node_key_rotation_from_value lib v =
     and_then (expect_fields v
       [''node_id'', ''rotation_id'', ''from_key_version'', ''to_key_version'', ''signing_public'',
        ''recipient_public'', ''fingerprint'', ''issuer_epoch'']
       []) (\<lambda>_.
     and_then (required_string v ''node_id'') (\<lambda>node_id.
     and_then (required_string v ''rotation_id'') (\<lambda>rotation_id.
     and_then (required_number v ''from_key_version'') (\<lambda>from_key_version.
     and_then (required_number v ''to_key_version'') (\<lambda>to_key_version.
     and_then (required_string v ''signing_public'') (\<lambda>signing_public.
     and_then (required_string v ''recipient_public'') (\<lambda>recipient_public.
     and_then (required_string v ''fingerprint'') (\<lambda>fingerprint.
     and_then (required_number v ''issuer_epoch'') (\<lambda>issuer_epoch.
     let d = \<lparr>kr_node_id = node_id, kr_rotation_id = rotation_id,
         kr_from_key_version = from_key_version, kr_to_key_version = to_key_version,
         kr_signing_public = signing_public, kr_recipient_public = recipient_public,
         kr_fingerprint = fingerprint, kr_issuer_epoch = issuer_epoch\<rparr>
     in and_then (node_key_rotation_to_value lib d) (\<lambda>_. Ok d))))))))))"

section \<open>Time replies\<close>

record time_reply =
  tr_node_id :: string
  tr_challenge :: string
  tr_challenge_received_at_ms :: u64
  tr_controller_time_ms :: u64
  tr_issuer_epoch :: u64

definition time_reply_to_value :: "time_reply \<Rightarrow> (json_value, document_error) result" where
  "time_reply_to_value d =
     and_then (validate_opaque_id (tr_node_id d) ''node id'') (\<lambda>_.
     and_then (validate_token (tr_challenge d) ''time challenge'') (\<lambda>_.
     and_then (reject_if (tr_controller_time_ms d = 0 \<or> tr_issuer_epoch d = 0 \<or> tr_challenge_received_at_ms d = 0 \<or>
         tr_controller_time_ms d < tr_challenge_received_at_ms d) (Invalid ''time reply binding'')) (\<lambda>_.
     Ok (Object
       [(''challenge'', String (tr_challenge d)),
        (''challenge_received_at_ms'', Unsigned (tr_challenge_received_at_ms d)),
        (''controller_time_ms'', Unsigned (tr_controller_time_ms d)),
        (''issuer_epoch'', Unsigned (tr_issuer_epoch d)),
        (''node_id'', String (tr_node_id d))]))))"

definition time_reply_from_value :: "json_value \<Rightarrow> (time_reply, document_error) result" where
  "time_reply_from_value v =
     and_then (expect_fields v
       [''node_id'', ''challenge'', ''challenge_received_at_ms'', ''controller_time_ms'',
        ''issuer_epoch'']
       []) (\<lambda>_.
     and_then (required_string v ''node_id'') (\<lambda>node_id.
     and_then (required_string v ''challenge'') (\<lambda>challenge.
     and_then (required_number v ''challenge_received_at_ms'') (\<lambda>challenge_received_at_ms.
     and_then (required_number v ''controller_time_ms'') (\<lambda>controller_time_ms.
     and_then (required_number v ''issuer_epoch'') (\<lambda>issuer_epoch.
     let d = \<lparr>tr_node_id = node_id, tr_challenge = challenge,
         tr_challenge_received_at_ms = challenge_received_at_ms,
         tr_controller_time_ms = controller_time_ms, tr_issuer_epoch = issuer_epoch\<rparr>
     in and_then (time_reply_to_value d) (\<lambda>_. Ok d)))))))"

section \<open>Application acknowledgements\<close>

record application_ack =
  ak_node_id :: string
  ak_issuer_epoch :: u64
  ak_acknowledged_at_ms :: u64
  ak_event_keys :: "string list"

text \<open>The loop over the keys; its variable \<open>unique\<close> holds the keys seen so far.\<close>

fun check_event_keys :: "string list \<Rightarrow> string list \<Rightarrow> (unit, document_error) result" where
  "check_event_keys [] unique = Ok ()"
| "check_event_keys (key # keys) unique =
     (if length key < 16 \<or> 128 < length key \<or>
         \<not> list_all (\<lambda>b. is_ascii_alphanumeric b \<or> b = CHR ''_'' \<or> b = CHR ''-'') key \<or> key \<in> set unique
      then Err (Invalid ''application acknowledgement key'')
      else check_event_keys keys (key # unique))"

definition application_ack_to_value :: "application_ack \<Rightarrow> (json_value, document_error) result" where
  "application_ack_to_value d =
     and_then (validate_opaque_id (ak_node_id d) ''node id'') (\<lambda>_.
     and_then (reject_if (ak_issuer_epoch d = 0 \<or> ak_acknowledged_at_ms d = 0 \<or> ak_event_keys d = [] \<or>
         100 < length (ak_event_keys d)) (Invalid ''application acknowledgement bounds'')) (\<lambda>_.
     and_then (check_event_keys (ak_event_keys d) []) (\<lambda>_.
     Ok (Object
       [(''acknowledged_at_ms'', Unsigned (ak_acknowledged_at_ms d)),
        (''event_keys'', Array (map String (ak_event_keys d))),
        (''issuer_epoch'', Unsigned (ak_issuer_epoch d)),
        (''node_id'', String (ak_node_id d))]))))"

definition application_ack_from_value :: "json_value \<Rightarrow> (application_ack, document_error) result" where
  "application_ack_from_value v =
     and_then (expect_fields v
       [''node_id'', ''issuer_epoch'', ''acknowledged_at_ms'', ''event_keys'']
       []) (\<lambda>_.
     and_then (required_array v ''event_keys'' ''application acknowledgement keys'') (\<lambda>items.
     and_then (collect_results (string_item_of ''application acknowledgement key'') items) (\<lambda>event_keys.
     and_then (required_string v ''node_id'') (\<lambda>node_id.
     and_then (required_number v ''issuer_epoch'') (\<lambda>issuer_epoch.
     and_then (required_number v ''acknowledged_at_ms'') (\<lambda>acknowledged_at_ms.
     let d = \<lparr>ak_node_id = node_id, ak_issuer_epoch = issuer_epoch,
         ak_acknowledged_at_ms = acknowledged_at_ms, ak_event_keys = event_keys\<rparr>
     in and_then (application_ack_to_value d) (\<lambda>_. Ok d)))))))"

section \<open>The codecs obey the contract\<close>

lemmas field_eval = expect_fields_def required_string_def required_number_def optional_string_def

lemma required_array_Ok:
  "required_array v k l = Ok items \<longleftrightarrow> get v k = Some (Array items)"
proof -
  have "as_array x = Some items \<longleftrightarrow> x = Array items" for x by (cases x) auto
  then show ?thesis by (auto simp: required_array_def Option.bind_eq_Some_conv)
qed

lemma required_array_norm:
  "expect_fields v required optional = Ok u \<Longrightarrow>
    required_array (norm v) k l = map_ok (map norm) (required_array v k l)"
  by (cases "get v k"; cases "Option.bind (get v k) as_array") (auto simp: required_array_def get_norm)

lemma collect_items_norm:
  "collect_results (string_item_of l) (map norm xs) = collect_results (string_item_of l) xs"
  "collect_results mode_item_of (map norm xs) = collect_results mode_item_of xs"
  by (induction xs) (simp_all add: string_item_of_def mode_item_of_def)

lemma and_then_map_ok [simp]: "and_then (map_ok g r) f = and_then r (\<lambda>x. f (g x))"
  by (cases r) simp_all

lemma collect_strings_Ok: "collect_results (string_item_of l) xs = Ok ss \<longleftrightarrow> xs = map String ss"
proof -
  have "string_item_of l x = Ok t \<longleftrightarrow> x = String t" for x t by (cases x) (auto simp: string_item_of_def)
  then show ?thesis by (simp add: collect_results_Ok_iff list_all2_conv_all_nth list_eq_iff_nth_eq) auto
qed

lemma collect_modes_Ok: "collect_results mode_item_of xs = Ok ms \<longleftrightarrow> xs = map (\<lambda>m. String (consumption_str m)) ms"
proof -
  have "mode_item_of x = Ok m \<longleftrightarrow> x = String (consumption_str m)" for x m
    by (cases x) (auto simp: mode_item_of_def consumption_parse_Some)
  then show ?thesis by (simp add: collect_results_Ok_iff list_all2_conv_all_nth list_eq_iff_nth_eq) auto
qed

lemmas item_eval = required_array_def collect_strings_Ok collect_modes_Ok

lemma check_event_keys_Ok:
  "check_event_keys keys unique = Ok u \<longleftrightarrow>
    list_all is_valid_event_key keys \<and> distinct keys \<and> set keys \<inter> set unique = {}"
  by (induction keys unique rule: check_event_keys.induct) (auto simp: is_valid_event_key_def)

lemma invocation_id_ascii [simp]: "valid_invocation_id s \<Longrightarrow> is_ascii s"
  by (auto simp: valid_invocation_id_def is_ascii_def list_all_iff less_eq_char_def dest: ascii_less)

lemma hex_digits: "list_all (\<lambda>b. is_ascii_hexdigit b \<and> \<not> is_ascii_uppercase b) (hex bs)"
proof -
  have "is_ascii_hexdigit (hex_digit n) \<and> \<not> is_ascii_uppercase (hex_digit n)" if "n < 16" for n
    using that by (auto simp: hex_digit_def ascii_defs less_eq_char_def of_char_of)
  moreover have "byte b div 16 < 16" for b using byte_lt [of b] by (simp add: less_mult_imp_div_less)
  ultimately show ?thesis by (induction bs) (auto simp: hex_def hex2_def)
qed

lemma hex_ascii [simp]: "is_ascii (hex bs)"
  using hex_digits [of bs] by (auto simp: is_ascii_def list_all_iff dest: ascii_less)

lemma supported_ascii [simp]: "supported_operation_binding a m \<Longrightarrow> is_ascii a"
  by (auto simp: supported_operation_binding_def)

lemma decoded_ascii: "decode_base64_url s = Ok out \<Longrightarrow> is_ascii s"
  by (simp add: decode_base64_url_Ok)

lemma fingerprint_ascii: "node_key_fingerprint lib a b = Ok f \<Longrightarrow> is_ascii f"
  by (auto simp: node_key_fingerprint_def)

lemma registration_read_back: "registration_to_value d = Ok v \<Longrightarrow> registration_from_value v = Ok d"
  by (cases d; cases "fr_invocation_id d") (auto simp: registration_to_value_def registration_from_value_def field_eval consumption_parse_Some)

lemma registration_faithful: "registration_from_value v = Ok d \<Longrightarrow> registration_to_value d = Ok w \<Longrightarrow> norm w = norm v"
  unfolding registration_from_value_def registration_to_value_def Let_def
  by (clarsimp simp: required_Ok consumption_parse_Some simp del: norm.simps)
    (rule norm_eq_of_fields, assumption, auto simp: norm_number split: option.split option.split_asm)

interpretation registration: exact_codec registration_from_value registration_to_value
proof unfold_locales
  show "registration_from_value (norm v) = registration_from_value v" for v
    unfolding registration_from_value_def by (intro and_then_cong [OF expect_fields_norm]) (simp add: fields_norm)
  show "\<exists>w. registration_to_value d = Ok w" if "registration_from_value v = Ok d" for v d
    using that by (auto simp: registration_from_value_def Let_def)
  show "wire_safe v" if "registration_to_value d = Ok v" for d v
    using that by (auto simp: registration_to_value_def wire_safe_def split: option.split option.split_asm)
qed (fact registration_read_back registration_faithful)+

lemma grant_read_back: "grant_to_value d = Ok v \<Longrightarrow> grant_from_value v = Ok d"
  by (cases d; cases "gr_approval_reference d"; cases "gr_request_event_key d") (auto simp: grant_to_value_def grant_from_value_def field_eval consumption_parse_Some Let_def)

lemma grant_faithful: "grant_from_value v = Ok d \<Longrightarrow> grant_to_value d = Ok w \<Longrightarrow> norm w = norm v"
  unfolding grant_from_value_def grant_to_value_def Let_def
  by (clarsimp simp: required_Ok consumption_parse_Some Let_def simp del: norm.simps)
    (rule norm_eq_of_fields, assumption, auto simp: norm_number split: option.split option.split_asm)

interpretation grants: exact_codec grant_from_value grant_to_value
proof unfold_locales
  show "grant_from_value (norm v) = grant_from_value v" for v
    unfolding grant_from_value_def by (intro and_then_cong [OF expect_fields_norm]) (simp add: fields_norm)
  show "\<exists>w. grant_to_value d = Ok w" if "grant_from_value v = Ok d" for v d
    using that by (auto simp: grant_from_value_def Let_def)
  show "wire_safe v" if "grant_to_value d = Ok v" for d v
    using that by (auto simp: grant_to_value_def wire_safe_def split: option.split option.split_asm)
qed (fact grant_read_back grant_faithful)+

lemma revocation_read_back: "revocation_to_value d = Ok v \<Longrightarrow> revocation_from_value v = Ok d"
  by (cases d) (auto simp: revocation_to_value_def revocation_from_value_def field_eval)

lemma revocation_faithful: "revocation_from_value v = Ok d \<Longrightarrow> revocation_to_value d = Ok w \<Longrightarrow> norm w = norm v"
  unfolding revocation_from_value_def revocation_to_value_def Let_def
  by (clarsimp simp: required_Ok simp del: norm.simps)
    (rule norm_eq_of_fields, assumption, auto simp: norm_number)

interpretation revocations: exact_codec revocation_from_value revocation_to_value
proof unfold_locales
  show "revocation_from_value (norm v) = revocation_from_value v" for v
    unfolding revocation_from_value_def by (intro and_then_cong [OF expect_fields_norm]) (simp add: fields_norm)
  show "\<exists>w. revocation_to_value d = Ok w" if "revocation_from_value v = Ok d" for v d
    using that by (auto simp: revocation_from_value_def Let_def)
  show "wire_safe v" if "revocation_to_value d = Ok v" for d v
    using that by (auto simp: revocation_to_value_def wire_safe_def)
qed (fact revocation_read_back revocation_faithful)+

lemma operation_cancellation_read_back: "operation_cancellation_to_value d = Ok v \<Longrightarrow> operation_cancellation_from_value v = Ok d"
  by (cases d) (auto simp: operation_cancellation_to_value_def operation_cancellation_from_value_def field_eval)

lemma operation_cancellation_faithful: "operation_cancellation_from_value v = Ok d \<Longrightarrow> operation_cancellation_to_value d = Ok w \<Longrightarrow> norm w = norm v"
  unfolding operation_cancellation_from_value_def operation_cancellation_to_value_def Let_def
  by (clarsimp simp: required_Ok simp del: norm.simps)
    (rule norm_eq_of_fields, assumption, auto simp: norm_number)

interpretation cancellations: exact_codec operation_cancellation_from_value operation_cancellation_to_value
proof unfold_locales
  show "operation_cancellation_from_value (norm v) = operation_cancellation_from_value v" for v
    unfolding operation_cancellation_from_value_def by (intro and_then_cong [OF expect_fields_norm]) (simp add: fields_norm)
  show "\<exists>w. operation_cancellation_to_value d = Ok w" if "operation_cancellation_from_value v = Ok d" for v d
    using that by (auto simp: operation_cancellation_from_value_def Let_def)
  show "wire_safe v" if "operation_cancellation_to_value d = Ok v" for d v
    using that by (auto simp: operation_cancellation_to_value_def wire_safe_def)
qed (fact operation_cancellation_read_back operation_cancellation_faithful)+

lemma operation_closed_read_back: "operation_closed_to_value d = Ok v \<Longrightarrow> operation_closed_from_value v = Ok d"
  by (cases d) (auto simp: operation_closed_to_value_def operation_closed_from_value_def field_eval STATUSES_def)

lemma operation_closed_faithful: "operation_closed_from_value v = Ok d \<Longrightarrow> operation_closed_to_value d = Ok w \<Longrightarrow> norm w = norm v"
  unfolding operation_closed_from_value_def operation_closed_to_value_def Let_def
  by (clarsimp simp: required_Ok STATUSES_def simp del: norm.simps)
    (rule norm_eq_of_fields, assumption, auto simp: norm_number STATUSES_def)

interpretation closures: exact_codec operation_closed_from_value operation_closed_to_value
proof unfold_locales
  show "operation_closed_from_value (norm v) = operation_closed_from_value v" for v
    unfolding operation_closed_from_value_def by (intro and_then_cong [OF expect_fields_norm]) (simp add: fields_norm)
  show "\<exists>w. operation_closed_to_value d = Ok w" if "operation_closed_from_value v = Ok d" for v d
    using that by (auto simp: operation_closed_from_value_def Let_def)
  show "wire_safe v" if "operation_closed_to_value d = Ok v" for d v
    using that by (auto simp: operation_closed_to_value_def wire_safe_def STATUSES_def)
qed (fact operation_closed_read_back operation_closed_faithful)+

lemma node_revocation_read_back: "node_revocation_to_value d = Ok v \<Longrightarrow> node_revocation_from_value v = Ok d"
  by (cases d) (auto simp: node_revocation_to_value_def node_revocation_from_value_def field_eval)

lemma node_revocation_faithful: "node_revocation_from_value v = Ok d \<Longrightarrow> node_revocation_to_value d = Ok w \<Longrightarrow> norm w = norm v"
  unfolding node_revocation_from_value_def node_revocation_to_value_def Let_def
  by (clarsimp simp: required_Ok simp del: norm.simps)
    (rule norm_eq_of_fields, assumption, auto simp: norm_number)

interpretation node_revocations: exact_codec node_revocation_from_value node_revocation_to_value
proof unfold_locales
  show "node_revocation_from_value (norm v) = node_revocation_from_value v" for v
    unfolding node_revocation_from_value_def by (intro and_then_cong [OF expect_fields_norm]) (simp add: fields_norm)
  show "\<exists>w. node_revocation_to_value d = Ok w" if "node_revocation_from_value v = Ok d" for v d
    using that by (auto simp: node_revocation_from_value_def Let_def)
  show "wire_safe v" if "node_revocation_to_value d = Ok v" for d v
    using that by (auto simp: node_revocation_to_value_def wire_safe_def)
qed (fact node_revocation_read_back node_revocation_faithful)+

lemma time_reply_read_back: "time_reply_to_value d = Ok v \<Longrightarrow> time_reply_from_value v = Ok d"
  by (cases d) (auto simp: time_reply_to_value_def time_reply_from_value_def field_eval)

lemma time_reply_faithful: "time_reply_from_value v = Ok d \<Longrightarrow> time_reply_to_value d = Ok w \<Longrightarrow> norm w = norm v"
  unfolding time_reply_from_value_def time_reply_to_value_def Let_def
  by (clarsimp simp: required_Ok simp del: norm.simps)
    (rule norm_eq_of_fields, assumption, auto simp: norm_number)

interpretation time_replies: exact_codec time_reply_from_value time_reply_to_value
proof unfold_locales
  show "time_reply_from_value (norm v) = time_reply_from_value v" for v
    unfolding time_reply_from_value_def by (intro and_then_cong [OF expect_fields_norm]) (simp add: fields_norm)
  show "\<exists>w. time_reply_to_value d = Ok w" if "time_reply_from_value v = Ok d" for v d
    using that by (auto simp: time_reply_from_value_def Let_def)
  show "wire_safe v" if "time_reply_to_value d = Ok v" for d v
    using that by (auto simp: time_reply_to_value_def wire_safe_def)
qed (fact time_reply_read_back time_reply_faithful)+

lemma node_key_rotation_read_back: "node_key_rotation_to_value lib d = Ok v \<Longrightarrow> node_key_rotation_from_value lib v = Ok d"
  by (cases d) (auto simp: node_key_rotation_to_value_def node_key_rotation_from_value_def field_eval)

lemma node_key_rotation_faithful: "node_key_rotation_from_value lib v = Ok d \<Longrightarrow> node_key_rotation_to_value lib d = Ok w \<Longrightarrow> norm w = norm v"
  unfolding node_key_rotation_from_value_def node_key_rotation_to_value_def Let_def
  by (clarsimp simp: required_Ok simp del: norm.simps)
    (rule norm_eq_of_fields, assumption, auto simp: norm_number dest!: decoded_ascii fingerprint_ascii)

interpretation rotations: exact_codec "node_key_rotation_from_value lib" "node_key_rotation_to_value lib" for lib
proof unfold_locales
  show "node_key_rotation_from_value lib (norm v) = node_key_rotation_from_value lib v" for v
    unfolding node_key_rotation_from_value_def by (intro and_then_cong [OF expect_fields_norm]) (simp add: fields_norm)
  show "\<exists>w. node_key_rotation_to_value lib d = Ok w" if "node_key_rotation_from_value lib v = Ok d" for v d
    using that by (auto simp: node_key_rotation_from_value_def Let_def)
  show "wire_safe v" if "node_key_rotation_to_value lib d = Ok v" for d v
    using that by (auto simp: node_key_rotation_to_value_def wire_safe_def dest!: decoded_ascii fingerprint_ascii)
qed (fact node_key_rotation_read_back node_key_rotation_faithful)+

lemma application_ack_read_back: "application_ack_to_value d = Ok v \<Longrightarrow> application_ack_from_value v = Ok d"
  by (cases d) (auto simp: application_ack_to_value_def application_ack_from_value_def field_eval item_eval)

lemma application_ack_faithful:
  "application_ack_from_value v = Ok d \<Longrightarrow> application_ack_to_value d = Ok w \<Longrightarrow> norm w = norm v"
  unfolding application_ack_from_value_def application_ack_to_value_def Let_def
  by (clarsimp simp: required_Ok required_array_Ok collect_strings_Ok simp del: norm.simps)
    (rule norm_eq_of_fields, assumption, auto simp: norm_number)

interpretation acks: exact_codec application_ack_from_value application_ack_to_value
proof unfold_locales
  show "application_ack_from_value (norm v) = application_ack_from_value v" for v
    unfolding application_ack_from_value_def
    by (intro and_then_cong [OF expect_fields_norm]) (simp add: fields_norm required_array_norm collect_items_norm)
  show "\<exists>w. application_ack_to_value d = Ok w" if "application_ack_from_value v = Ok d" for v d
    using that by (auto simp: application_ack_from_value_def Let_def)
  show "wire_safe v" if "application_ack_to_value d = Ok v" for d v
    using that
    by (auto simp: application_ack_to_value_def wire_safe_def check_event_keys_Ok list_all_iff comp_def sum_list_triv)
qed (fact application_ack_read_back application_ack_faithful)+

text \<open>
  A snapshot is written with its actions and modes sorted, so it is read back in that order; this is
  the only document that the codec changes.
\<close>

definition sorted_snapshot :: "policy_snapshot \<Rightarrow> policy_snapshot" where
  "sorted_snapshot d = d\<lparr>ps_allowed_actions := sort (ps_allowed_actions d),
     ps_allowed_modes := sort_key consumption_str (ps_allowed_modes d)\<rparr>"

lemma sorted_distinct_adj: "sorted xs \<Longrightarrow> distinct_adj xs \<Longrightarrow> distinct xs"
  by (induction xs rule: induct_list012) auto

lemma length_remdups_adj_sort: "length (remdups_adj (sort xs)) = length xs \<longleftrightarrow> distinct xs"
proof
  assume "length (remdups_adj (sort xs)) = length xs"
  then have "distinct_adj (sort xs)" by (simp add: distinct_adj_conv_length_remdups_adj)
  then show "distinct xs" using sorted_distinct_adj [of "sort xs"] by simp
qed (simp add: remdups_adj_distinct)

lemma snapshot_Ok:
  "policy_snapshot_to_value d = Ok v \<longleftrightarrow>
     1 \<le> ps_local_ceiling_seconds d \<and> ps_local_ceiling_seconds d \<le> 3600 \<and> ps_policy_version d \<noteq> 0 \<and>
     length (ps_allowed_actions d) \<le> 100 \<and> length (ps_allowed_modes d) \<le> 3 \<and>
     list_all valid_action (ps_allowed_actions d) \<and> distinct (ps_allowed_actions d) \<and> distinct (ps_allowed_modes d) \<and>
     v = Object
       [(''allowed_actions'', Array (map String (sort (ps_allowed_actions d)))),
        (''allowed_modes'', Array (map String (sort (map consumption_str (ps_allowed_modes d))))),
        (''local_ceiling_seconds'', Unsigned (ps_local_ceiling_seconds d)),
        (''policy_version'', Unsigned (ps_policy_version d))]"
proof -
  have inj: "inj consumption_str" by (metis consumption_parse_str injI option.inject)
  have modes: "distinct (map consumption_str ms) \<longleftrightarrow> distinct ms" for ms
    using inj_on_subset [OF inj subset_UNIV] by (simp add: distinct_map)
  have len: "length (remdups_adj (sort (map consumption_str ms))) = length ms \<longleftrightarrow> distinct ms" for ms
    using length_remdups_adj_sort [of "map consumption_str ms"] modes [of ms] by simp
  have id: "remdups_adj (sort xs) = sort xs" if "distinct xs" for xs :: "string list"
    using that by (simp add: remdups_adj_distinct)
  show ?thesis
    unfolding policy_snapshot_to_value_def Let_def
    by (auto simp: length_remdups_adj_sort len id modes list_ex_iff list_all_iff not_less)
qed

lemma sort_map_key: "sort (map f xs) = map f (sort_key f xs)"
  using sort_key_map [where k = "\<lambda>x. x" and k' = f and h = f] by simp

lemma action_ascii [simp]: "valid_action a \<Longrightarrow> is_ascii a"
  by (auto simp: valid_action_def is_ascii_def list_all_iff dest: ascii_less)

lemma snapshot_read_back: "policy_snapshot_to_value d = Ok v \<Longrightarrow> policy_snapshot_from_value v = Ok (sorted_snapshot d)"
  by (cases d) (auto simp: snapshot_Ok policy_snapshot_from_value_def field_eval item_eval sorted_snapshot_def
      list_all_iff sort_map_key Let_def)

interpretation snapshots: document_codec policy_snapshot_from_value policy_snapshot_to_value sorted_snapshot
proof unfold_locales
  show "policy_snapshot_from_value (norm v) = policy_snapshot_from_value v" for v
    unfolding policy_snapshot_from_value_def
    by (intro and_then_cong [OF expect_fields_norm]) (simp add: fields_norm required_array_norm collect_items_norm)
  show "\<exists>w. policy_snapshot_to_value d = Ok w" if "policy_snapshot_from_value v = Ok d" for v d
    using that by (auto simp: policy_snapshot_from_value_def Let_def)
  show "wire_safe v" if "policy_snapshot_to_value d = Ok v" for d v
    using that by (auto simp: snapshot_Ok wire_safe_def list_all_iff comp_def sum_list_triv sort_map_key)
qed (fact snapshot_read_back)

end
