(* ===== verification/Fleet_Messages.thy ===== *)
theory Fleet_Messages
  imports Fleet
begin

text \<open>
  The messages of \<open>fleet.rs\<close> that are signed outside an envelope (enrollment proof, channel challenge,
  node event), and the properties of the documents and messages of that file.
\<close>

section \<open>Messages signed outside an envelope\<close>

definition ENROLLMENT_DOMAIN :: string where
  "ENROLLMENT_DOMAIN = ''blindpass:fleet-enrollment-proof:v1'' @ nul"
definition NODE_CHALLENGE_DOMAIN :: string where
  "NODE_CHALLENGE_DOMAIN = ''blindpass:fleet-node-challenge:v1'' @ nul"
definition NODE_EVENT_DOMAIN :: string where
  "NODE_EVENT_DOMAIN = ''blindpass:fleet-node-event:v1'' @ nul"

text \<open>\<open>u32::to_be_bytes\<close>.\<close>

definition be32 :: "nat \<Rightarrow> string" where
  "be32 n = [char_of (n div 2 ^ 24), char_of (n div 2 ^ 16), char_of (n div 2 ^ 8), char_of n]"

text \<open>The loop that appends each field behind its length.\<close>

fun push_fields :: "string list \<Rightarrow> string \<Rightarrow> (string, document_error) result" where
  "push_fields [] message = Ok message"
| "push_fields (field # rest) message =
     and_then (reject_if (2 ^ 32 \<le> length field) (Invalid ''enrollment proof field'')) (\<lambda>_.
     push_fields rest (message @ be32 (length field) @ field))"

definition enrollment_proof_message :: "string \<Rightarrow> string \<Rightarrow> string \<Rightarrow> (string, document_error) result" where
  "enrollment_proof_message token signing_public_key recipient_public_key =
     and_then (reject_if (length token < 48 \<or> 256 < length token \<or> length signing_public_key \<noteq> 32 \<or>
       length recipient_public_key \<noteq> 32) (Invalid ''enrollment proof binding'')) (\<lambda>_.
     push_fields [token, signing_public_key, recipient_public_key] ENROLLMENT_DOMAIN)"

text \<open>\<open>i64::saturating_sub\<close>.\<close>

definition saturating_sub_i64 :: "i64 \<Rightarrow> i64 \<Rightarrow> i64" where
  "saturating_sub_i64 a b = word_of_int (max i64_min (min i64_max (sint a - sint b)))"

definition node_session_challenge_message ::
    "string \<Rightarrow> string \<Rightarrow> string \<Rightarrow> string \<Rightarrow> string \<Rightarrow> u64 \<Rightarrow> u64 \<Rightarrow> i64 \<Rightarrow> i64 \<Rightarrow> (string, document_error) result" where
  "node_session_challenge_message tenant_id node_id protocol_version nonce capabilities_hash key_version
       issuer_epoch controller_time_ms expires_at_ms =
     and_then (reject_if (\<not> valid_identifier tenant_id \<or> \<not> valid_identifier node_id \<or>
         protocol_version \<noteq> ''blindpass-node/1'' \<or> length nonce \<noteq> 43 \<or> \<not> valid_base64url_text nonce \<or>
         \<not> valid_sha256_hex capabilities_hash \<or> key_version = 0 \<or> issuer_epoch = 0 \<or>
         sint controller_time_ms \<le> 0 \<or> sint expires_at_ms \<le> sint controller_time_ms \<or>
         60000 < sint (saturating_sub_i64 expires_at_ms controller_time_ms))
       (Invalid ''node challenge binding'')) (\<lambda>_.
     canonical_domain_message NODE_CHALLENGE_DOMAIN
       (Object
         [(''audience'', String ''blindpass-node''),
          (''capabilities_hash'', String capabilities_hash),
          (''controller_time_ms'', Integer controller_time_ms),
          (''expires_at_ms'', Integer expires_at_ms),
          (''issuer_epoch'', Unsigned issuer_epoch),
          (''key_version'', Unsigned key_version),
          (''node_id'', String node_id),
          (''nonce'', String nonce),
          (''protocol_version'', String protocol_version),
          (''tenant_id'', String tenant_id)]))"

definition node_event_message_bytes :: "string \<Rightarrow> string \<Rightarrow> string \<Rightarrow> json_value \<Rightarrow> (string, document_error) result" where
  "node_event_message_bytes node_id idempotency_key kind body =
     canonical_domain_message NODE_EVENT_DOMAIN
       (Object
         [(''body'', body),
          (''idempotency_key'', String idempotency_key),
          (''kind'', String kind),
          (''node_id'', String node_id)])"

definition node_event_kinds :: "string list" where
  "node_event_kinds =
     [''operation_request'', ''operation_result'', ''operation_cancel'', ''recipient_offer'', ''audit'',
      ''fulfillment_offer'', ''fulfillment_submit'', ''fulfillment_result'']"

definition node_event_message :: "string \<Rightarrow> string \<Rightarrow> string \<Rightarrow> json_value \<Rightarrow> (string, document_error) result" where
  "node_event_message node_id idempotency_key kind body =
     and_then (reject_if (\<not> valid_identifier node_id \<or> length idempotency_key < 16 \<or> 128 < length idempotency_key \<or>
         \<not> list_all (\<lambda>b. is_ascii_alphanumeric b \<or> b = CHR ''_'' \<or> b = CHR ''-'') idempotency_key \<or>
         kind \<notin> set node_event_kinds \<or> as_object body = None)
       (Invalid ''node event binding'')) (\<lambda>_.
     node_event_message_bytes node_id idempotency_key kind body)"

section \<open>Signed messages identify what they bind\<close>

lemma be32_inj: "m < 2 ^ 32 \<Longrightarrow> n < 2 ^ 32 \<Longrightarrow> be32 m = be32 n \<Longrightarrow> m = n"
proof -
  assume lt: "m < 2 ^ 32" "n < 2 ^ 32" and eq: "be32 m = be32 n"
  have split: "k = ((k div 2 ^ 24 * 256 + k div 2 ^ 16 mod 256) * 256 + k div 2 ^ 8 mod 256) * 256 + k mod 256" for k :: nat
  proof -
    have "k div 2 ^ 16 = k div 256 div 256" "k div 2 ^ 24 = k div 256 div 256 div 256"
      by (simp_all add: div_mult2_eq [symmetric])
    then show ?thesis by simp
  qed
  from eq have "m div 2 ^ 24 mod 256 = n div 2 ^ 24 mod 256" "m div 2 ^ 16 mod 256 = n div 2 ^ 16 mod 256"
    "m div 2 ^ 8 mod 256 = n div 2 ^ 8 mod 256" "m mod 256 = n mod 256"
    by (simp_all add: be32_def char_of_eq_iff take_bit_eq_mod)
  moreover from lt have "m div 2 ^ 24 mod 256 = m div 2 ^ 24" "n div 2 ^ 24 mod 256 = n div 2 ^ 24"
    by (simp_all add: less_mult_imp_div_less)
  ultimately show ?thesis using split [of m] split [of n] by simp
qed

lemma length_be32 [simp]: "length (be32 n) = 4"
  by (simp add: be32_def)

lemma enrollment_Ok:
  "enrollment_proof_message t s r = Ok m \<longleftrightarrow>
    48 \<le> length t \<and> length t \<le> 256 \<and> length s = 32 \<and> length r = 32 \<and>
    m = ENROLLMENT_DOMAIN @ be32 (length t) @ t @ be32 32 @ s @ be32 32 @ r"
  by (auto simp: enrollment_proof_message_def)

lemma domain_message_Ok:
  "canonical_domain_message domain v = Ok m \<longleftrightarrow> (\<exists>c. canonicalize_value v = Ok c \<and> m = domain @ c)"
  by (auto simp: canonical_domain_message_def)

lemma canonical_norm_eq:
  assumes "canonicalize_value v = Ok c" "canonicalize_value w = Ok c" "utf8_strings v" "utf8_strings w"
    "value_count v \<le> MAX_VALUES" "value_count w \<le> MAX_VALUES"
  shows "norm v = norm w"
proof -
  have "parse_json c = Ok (norm v)" "parse_json c = Ok (norm w)"
    using parse_json_writes canonicalize_value_Ok [OF assms(1,3)] canonicalize_value_Ok [OF assms(2,4)] assms(5,6)
    by blast+
  then show ?thesis by simp
qed

text \<open>Members of two objects with the same canonical form, looked up by name.\<close>

lemma norm_Object_get:
  assumes "norm (Object xs) = norm (Object ys)" "distinct (map fst xs)" "distinct (map fst ys)"
  shows "map_option norm (map_of xs k) = map_option norm (map_of ys k)"
proof -
  have look: "map_of (map norm_member (by_key zs)) k = map_option norm (map_of zs k)" if "distinct (map fst zs)" for zs
  proof -
    have "map_of (by_key zs) = map_of zs"
      using that by (intro map_of_eqI) (auto simp: distinct_map_fst_mset [OF that])
    then show ?thesis by (simp add: map_of_norm_member)
  qed
  have "map norm_member (by_key xs) = map norm_member (by_key ys)"
    using assms(1) by (simp add: norm_Object del: norm.simps)
  then show ?thesis using look [OF assms(2)] look [OF assms(3)] by metis
qed

lemma event_message_inj:
  assumes "node_event_message_bytes n k t b = Ok m" "node_event_message_bytes n' k' t' b' = Ok m"
    "list_all utf8_valid [n, k, t, n', k', t']" "utf8_strings b" "utf8_strings b'"
    "value_count b + 4 \<le> MAX_VALUES" "value_count b' + 4 \<le> MAX_VALUES"
  shows "n = n' \<and> k = k' \<and> t = t' \<and> norm b = norm b'"
proof -
  let ?o = "\<lambda>b k t n. [(''body'', b), (''idempotency_key'', String k), (''kind'', String t), (''node_id'', String n)]"
  from assms(1,2) obtain c where c: "canonicalize_value (Object (?o b k t n)) = Ok c"
      "canonicalize_value (Object (?o b' k' t' n')) = Ok c"
    by (auto simp: node_event_message_bytes_def domain_message_Ok)
  have "norm (Object (?o b k t n)) = norm (Object (?o b' k' t' n'))"
    using assms(3-7) by (intro canonical_norm_eq [OF c]) auto
  note eq = norm_Object_get [OF this]
  show ?thesis
    using eq [of "''body''"] eq [of "''idempotency_key''"] eq [of "''kind''"] eq [of "''node_id''"] by simp
qed

section \<open>Properties\<close>

text \<open>C22: a document that can be encoded and written is read back unchanged from its canonical
  bytes, although its members then come in another order; only a policy snapshot changes: it comes
  back with its actions and modes sorted.\<close>

theorem documents_roundtrip:
  assumes "canonicalize_value v = Ok c"
  shows "(registration_to_value d1 = Ok v \<longrightarrow> (\<exists>w. parse_json c = Ok w \<and> registration_from_value w = Ok d1)) \<and>
    (policy_snapshot_to_value d2 = Ok v \<longrightarrow>
      (\<exists>w. parse_json c = Ok w \<and> policy_snapshot_from_value w = Ok (sorted_snapshot d2))) \<and>
    (grant_to_value d3 = Ok v \<longrightarrow> (\<exists>w. parse_json c = Ok w \<and> grant_from_value w = Ok d3)) \<and>
    (revocation_to_value d4 = Ok v \<longrightarrow> (\<exists>w. parse_json c = Ok w \<and> revocation_from_value w = Ok d4)) \<and>
    (operation_cancellation_to_value d5 = Ok v \<longrightarrow>
      (\<exists>w. parse_json c = Ok w \<and> operation_cancellation_from_value w = Ok d5)) \<and>
    (operation_closed_to_value d6 = Ok v \<longrightarrow> (\<exists>w. parse_json c = Ok w \<and> operation_closed_from_value w = Ok d6)) \<and>
    (node_revocation_to_value d7 = Ok v \<longrightarrow> (\<exists>w. parse_json c = Ok w \<and> node_revocation_from_value w = Ok d7)) \<and>
    (node_key_rotation_to_value lib d8 = Ok v \<longrightarrow>
      (\<exists>w. parse_json c = Ok w \<and> node_key_rotation_from_value lib w = Ok d8)) \<and>
    (time_reply_to_value d9 = Ok v \<longrightarrow> (\<exists>w. parse_json c = Ok w \<and> time_reply_from_value w = Ok d9)) \<and>
    (application_ack_to_value d10 = Ok v \<longrightarrow> (\<exists>w. parse_json c = Ok w \<and> application_ack_from_value w = Ok d10))"
  by (intro conjI impI registration.wire_read_back [OF _ assms] snapshots.wire_read_back [OF _ assms]
      grants.wire_read_back [OF _ assms] revocations.wire_read_back [OF _ assms]
      cancellations.wire_read_back [OF _ assms] closures.wire_read_back [OF _ assms]
      node_revocations.wire_read_back [OF _ assms] rotations.wire_read_back [OF _ assms]
      time_replies.wire_read_back [OF _ assms] acks.wire_read_back [OF _ assms])

theorem documents_roundtrip_witness:
  "\<exists>v c w. node_revocation_to_value \<lparr>nv_node_id = ''n1'', nv_revoked_at_ms = 5, nv_issuer_epoch = 2\<rparr> = Ok v \<and>
     canonicalize_value v = Ok c \<and> parse_json c = Ok w \<and>
     node_revocation_from_value w = Ok \<lparr>nv_node_id = ''n1'', nv_revoked_at_ms = 5, nv_issuer_epoch = 2\<rparr>"
proof -
  let ?d = "\<lparr>nv_node_id = ''n1'', nv_revoked_at_ms = 5, nv_issuer_epoch = 2\<rparr>"
  let ?v = "Object [(''issuer_epoch'', Unsigned 2), (''node_id'', String ''n1''), (''revoked_at_ms'', Unsigned 5)]"
  have v: "node_revocation_to_value ?d = Ok ?v"
    by (simp add: node_revocation_to_value_def is_valid_opaque_id_def MAX_OPAQUE_ID_BYTES_def ascii_defs less_eq_char_def)
  obtain c where c: "canonicalize_value ?v = Ok c"
    by (simp add: canon_eval)
  with documents_roundtrip [OF c, of _ _ _ _ _ _ ?d] v show ?thesis by blast
qed

text \<open>C23: a grant body that is accepted lives at most an hour, a browser grant at most two minutes and
  only with the key of the request that it answers, and any other grant only for the marker action;
  the local ceiling is at most an hour and every version and epoch is positive.\<close>

theorem grant_limits:
  assumes "grant_from_value v = Ok g"
  shows "unat (gr_issued_at_ms g) < unat (gr_expires_at_ms g) \<and>
    unat (gr_expires_at_ms g) - unat (gr_issued_at_ms g) \<le> 3600000 \<and>
    (gr_mode g = BrowserSession \<longrightarrow> gr_action g = ''browser.session'' \<and>
       unat (gr_expires_at_ms g) - unat (gr_issued_at_ms g) \<le> 120000 \<and>
       (\<exists>key. gr_request_event_key g = Some key \<and> is_valid_event_key key)) \<and>
    (gr_mode g \<noteq> BrowserSession \<longrightarrow> gr_action g = ''noop.marker'') \<and>
    gr_audience g = ''blindpass-node'' \<and>
    unat (gr_local_ceiling_seconds g) \<in> {1..3600} \<and>
    0 < unat (gr_registration_version g) \<and> 0 < unat (gr_policy_version g) \<and> 0 < unat (gr_issuer_epoch g)"

proof -
  from assms obtain w where t: "grant_to_value g = Ok w" using grants.valid by blast
  then have lt: "gr_issued_at_ms g < gr_expires_at_ms g" and le: "gr_expires_at_ms g - gr_issued_at_ms g \<le> 3600000"
    and "supported_operation_binding (gr_action g) (gr_mode g)" "gr_audience g = ''blindpass-node''"
    and b: "gr_mode g = BrowserSession \<longrightarrow> gr_expires_at_ms g - gr_issued_at_ms g \<le> 120000 \<and> gr_request_event_key g \<noteq> None"
    and "1 \<le> gr_local_ceiling_seconds g" "gr_local_ceiling_seconds g \<le> 3600"
    and "gr_registration_version g \<noteq> 0" "gr_policy_version g \<noteq> 0" "gr_issuer_epoch g \<noteq> 0"
    by (auto simp: grant_to_value_def Let_def not_less not_le)
  moreover have "is_valid_event_key key" if "gr_request_event_key g = Some key" for key
    using t that by (auto simp: grant_to_value_def Let_def is_valid_opaque_id_def is_valid_event_key_def MAX_OPAQUE_ID_BYTES_def)
  moreover have "unat (gr_expires_at_ms g - gr_issued_at_ms g) = unat (gr_expires_at_ms g) - unat (gr_issued_at_ms g)"
    using lt by (intro unat_u64_sub) simp
  ultimately show ?thesis
    using word_le_nat_alt [of "gr_expires_at_ms g - gr_issued_at_ms g" 3600000]
      word_le_nat_alt [of "gr_expires_at_ms g - gr_issued_at_ms g" 120000]
    by (auto simp: word_less_nat_alt word_le_nat_alt supported_operation_binding_def unat_gt_0)
qed

text \<open>A browser grant that lives for a minute and a half, for concrete evaluations.\<close>

definition sample_grant :: grant where
  "sample_grant = \<lparr>gr_id = ''g1'', gr_operation_id = ''op1'', gr_node_id = ''n1'', gr_workload_id = ''w1'',
     gr_invocation_id = ''aaaaaaaaaaaaaaaaaaaaaaaaaaaaaaaa'', gr_unit = ''a.service'', gr_account = ''app'',
     gr_resource_id = ''r1'', gr_recipient_key_id = ''n1-3'', gr_registration_version = 1, gr_policy_version = 1,
     gr_approval_reference = None, gr_request_event_key = Some ''kkkkkkkkkkkkkkkk'',
     gr_action = ''browser.session'', gr_mode = BrowserSession, gr_audience = ''blindpass-node'',
     gr_issuer_epoch = 2, gr_issued_at_ms = 1000, gr_expires_at_ms = 91000, gr_local_ceiling_seconds = 60\<rparr>"

lemma list_all_replicate: "list_all P (replicate n x) \<longleftrightarrow> n = 0 \<or> P x"
  by (auto simp: list_all_iff)

lemmas char_eval = is_valid_opaque_id_def MAX_OPAQUE_ID_BYTES_def ascii_defs less_eq_char_def is_token_char_def
  list_all_replicate

lemma suffix_eval: "suffix p s \<longleftrightarrow> length p \<le> length s \<and> drop (length s - length p) s = p"
proof
  assume "length p \<le> length s \<and> drop (length s - length p) s = p"
  then show "suffix p s" by (metis suffix_drop)
qed (auto simp: suffix_def)

lemma sample_grant_valid: "is_ok (grant_to_value sample_grant)"
  by (simp add: is_ok_iff sample_grant_def grant_to_value_def Let_def char_eval validate_token_def validate_unit_def
      suffix_eval is_valid_account_identifier_def supported_operation_binding_def)

theorem grant_limits_witness:
  "\<exists>v. grant_from_value v = Ok sample_grant \<and>
    unat (gr_expires_at_ms sample_grant) - unat (gr_issued_at_ms sample_grant) \<le> 120000"
proof -
  from sample_grant_valid obtain v where "grant_to_value sample_grant = Ok v" by (auto simp: is_ok_iff)
  then have "grant_from_value v = Ok sample_grant" by (rule grants.read_back)
  with grant_limits [OF this] show ?thesis by (auto simp: sample_grant_def)
qed

text \<open>C24: the strict decoder of signatures and rotated keys accepts a text exactly when the decoder of
  the capabilities accepts it for the length of the result; both then return the same bytes.\<close>

theorem decode_base64_url_agrees:
  "decode_base64_url s = Ok out \<longleftrightarrow> base64_url_decode s (length out) = Some out"
  using decode_base64_url_Ok base64_decode_encode base64_decode_Some by metis

text \<open>C25: the message signed to prove possession of a node's keys determines the enrollment token and
  both keys.\<close>

theorem enrollment_message_injective:
  assumes "enrollment_proof_message t s r = Ok m" "enrollment_proof_message t' s' r' = Ok m"
  shows "t = t' \<and> s = s' \<and> r = r'"
proof -
  from assms have eq: "be32 (length t) @ t @ be32 32 @ s @ be32 32 @ r = be32 (length t') @ t' @ be32 32 @ s' @ be32 32 @ r'"
    and l: "length t \<le> 256" "length t' \<le> 256" "length s = 32" "length s' = 32"
    by (auto simp: enrollment_Ok)
  from eq have "be32 (length t) = be32 (length t')" by simp
  then have "length t = length t'" using l by (intro be32_inj) simp_all
  with eq l show ?thesis by simp
qed

theorem enrollment_message_injective_witness:
  "is_ok (enrollment_proof_message (replicate 48 (CHR ''t'')) (replicate 32 (CHR ''s'')) (replicate 32 (CHR ''r''))) \<and>
   enrollment_proof_message (replicate 49 (CHR ''t'')) (replicate 32 (CHR ''s'')) (replicate 32 (CHR ''r'')) \<noteq>
   enrollment_proof_message (replicate 48 (CHR ''t'')) (replicate 32 (CHR ''s'')) (replicate 32 (CHR ''r''))"
proof -
  let ?m = "\<lambda>n. enrollment_proof_message (replicate n (CHR ''t'')) (replicate 32 (CHR ''s'')) (replicate 32 (CHR ''r''))"
  obtain m where m: "?m 48 = Ok m" by (auto simp: enrollment_Ok)
  show ?thesis using m enrollment_message_injective [OF m, of "replicate 49 (CHR ''t'')"]
    by (metis is_ok.simps(1) length_replicate numeral_eq_iff semiring_norm(84) semiring_norm(88))
qed

text \<open>C26: a signed node event determines the node, the idempotency key, the event kind and the body up
  to the order of its members. This is stated for bodies whose strings are valid UTF-8, as Rust
  strings are, and for events that stay within the parser's limit on the number of values, where the
  event adds four values to those of its body.\<close>

theorem node_event_injective:
  assumes "node_event_message n k t b = Ok m" "node_event_message n' k' t' b' = Ok m"
    "utf8_strings b" "utf8_strings b'" "value_count b + 4 \<le> MAX_VALUES" "value_count b' + 4 \<le> MAX_VALUES"
  shows "n = n' \<and> k = k' \<and> t = t' \<and> norm b = norm b'"
proof (rule event_message_inj)
  have ascii: "is_ascii t" if "t \<in> set node_event_kinds" for t
    using that by (auto simp: node_event_kinds_def)
  have key: "is_ascii k" if "list_all (\<lambda>b. is_ascii_alphanumeric b \<or> b = CHR ''_'' \<or> b = CHR ''-'') k" for k
    using that by (auto simp: is_ascii_def list_all_iff dest: ascii_less)
  show "list_all utf8_valid [n, k, t, n', k', t']"
    using assms(1,2) ascii key by (simp add: node_event_message_def valid_identifier_def)
  show "node_event_message_bytes n k t b = Ok m" "node_event_message_bytes n' k' t' b' = Ok m"
    using assms(1,2) by (simp_all add: node_event_message_def)
qed (use assms in simp_all)

theorem node_event_injective_witness:
  "\<exists>m. node_event_message ''n1'' ''kkkkkkkkkkkkkkkk'' ''audit'' (Object [(''a'', Null)]) = Ok m \<and>
     node_event_message ''n2'' ''kkkkkkkkkkkkkkkk'' ''audit'' (Object [(''a'', Null)]) \<noteq> Ok m"
proof -
  have "is_ok (node_event_message ''n1'' ''kkkkkkkkkkkkkkkk'' ''audit'' (Object [(''a'', Null)]))"
    by (simp add: node_event_message_def node_event_message_bytes_def canonical_domain_message_def valid_identifier_def
        char_eval node_event_kinds_def canon_eval)
  then obtain m where m: "node_event_message ''n1'' ''kkkkkkkkkkkkkkkk'' ''audit'' (Object [(''a'', Null)]) = Ok m"
    by (auto simp: is_ok_iff)
  with node_event_injective [OF m, of "''n2''"] show ?thesis by (fastforce simp: MAX_VALUES_def)
qed

text \<open>The message that the key of a cancellation is the digest of.\<close>

definition cancellation_message :: "operation_cancellation \<Rightarrow> (string, document_error) result" where
  "cancellation_message d =
     canonical_domain_message CANCEL_KEY_DOMAIN
       (Object [(''node_id'', String (oc_node_id d)), (''request_event_key'', String (oc_request_event_key d))])"

text \<open>C27: the key of a cancellation is a valid event key and identifies the node and the request that is
  cancelled, and nothing else of the document: two keys are equal exactly when both agree, or when
  the two different messages that name node and request, and that are hashed for the two keys, have
  the same SHA-256 digest.\<close>

theorem cancellation_key_identifies:
  assumes "cancellation_event_key lib d = Ok k" "cancellation_event_key lib d' = Ok k'"
  shows "is_valid_event_key k \<and>
    (k = k' \<longleftrightarrow> oc_node_id d = oc_node_id d' \<and> oc_request_event_key d = oc_request_event_key d' \<or>
      (\<exists>m m'. cancellation_message d = Ok m \<and> cancellation_message d' = Ok m' \<and> m \<noteq> m' \<and>
         sha256 lib m = sha256 lib m'))"
proof -
  let ?v = "\<lambda>d. Object [(''node_id'', String (oc_node_id d)), (''request_event_key'', String (oc_request_event_key d))]"
  from assms obtain c h c' h' where c: "canonicalize_value (?v d) = Ok c" "canonicalize_value (?v d') = Ok c'"
    and h: "sha256 lib (CANCEL_KEY_DOMAIN @ c) = Ok h" "sha256 lib (CANCEL_KEY_DOMAIN @ c') = Ok h'"
    and k: "k = ''cancel_'' @ hex h" "k' = ''cancel_'' @ hex h'"
    and ids: "is_valid_opaque_id (oc_node_id d)" "is_valid_event_key (oc_request_event_key d)"
      "is_valid_opaque_id (oc_node_id d')" "is_valid_event_key (oc_request_event_key d')"
    by (auto simp: cancellation_event_key_def domain_message_Ok operation_cancellation_to_value_def)
  have same: "oc_node_id d = oc_node_id d' \<and> oc_request_event_key d = oc_request_event_key d'" if "c = c'"
  proof -
    have "norm (?v d) = norm (?v d')"
      using ids c that by (intro canonical_norm_eq [of _ c]) (auto simp: MAX_VALUES_def)
    note eq = norm_Object_get [OF this]
    show ?thesis using eq [of "''node_id''"] eq [of "''request_event_key''"] by simp
  qed
  have "is_valid_event_key k"
    using sha256_length [OF h(1)] hex_digits [of h]
    by (auto simp: k is_valid_event_key_def list_all_iff ascii_defs less_eq_char_def)
  moreover have "k = k' \<longleftrightarrow> h = h'" using hex_inj by (auto simp: k)
  moreover have "c = c'" if "oc_node_id d = oc_node_id d'" "oc_request_event_key d = oc_request_event_key d'"
    using c that by simp
  moreover have "cancellation_message d = Ok (CANCEL_KEY_DOMAIN @ c)" "cancellation_message d' = Ok (CANCEL_KEY_DOMAIN @ c')"
    using c by (simp_all add: cancellation_message_def domain_message_Ok)
  ultimately show ?thesis using h same by auto
qed

theorem cancellation_key_identifies_witness:
  "\<exists>k k'. cancellation_event_key toy_lib \<lparr>oc_node_id = ''n1'', oc_workload_id = ''w1'',
      oc_invocation_id = ''aaaaaaaaaaaaaaaaaaaaaaaaaaaaaaaa'', oc_request_event_key = ''kkkkkkkkkkkkkkkk''\<rparr> = Ok k \<and>
    cancellation_event_key toy_lib \<lparr>oc_node_id = ''n1'', oc_workload_id = ''w2'',
      oc_invocation_id = ''aaaaaaaaaaaaaaaaaaaaaaaaaaaaaaaa'', oc_request_event_key = ''kkkkkkkkkkkkkkkk''\<rparr> = Ok k' \<and>
    is_valid_event_key k \<and> k = k'"
proof -
  let ?d = "\<lambda>w. \<lparr>oc_node_id = ''n1'', oc_workload_id = w,
      oc_invocation_id = ''aaaaaaaaaaaaaaaaaaaaaaaaaaaaaaaa'', oc_request_event_key = ''kkkkkkkkkkkkkkkk''\<rparr>"
  have "is_ok (cancellation_event_key toy_lib (?d ''w1''))" "is_ok (cancellation_event_key toy_lib (?d ''w2''))"
    by (simp_all add: is_ok_iff cancellation_event_key_def operation_cancellation_to_value_def domain_message_Ok
        valid_invocation_id_def is_valid_event_key_def char_eval canon_eval sha256_def toy_lib_def checksum_def N_SECRET_def)
  then obtain k k' where k: "cancellation_event_key toy_lib (?d ''w1'') = Ok k" "cancellation_event_key toy_lib (?d ''w2'') = Ok k'"
    by (auto simp: is_ok_iff)
  with cancellation_key_identifies [OF k] show ?thesis by auto
qed

end
