(* ===== verification/Provisioning.thy ===== *)
theory Provisioning
  imports Fleet_Messages
begin

text \<open>
  Browser provisioning (\<open>crates/blindpass-core/src/provisioning.rs\<close>): the binding that a recipient
  offer carries, which embeds the grant, and the sealed delivery that answers it. Signing and
  verifying offers needs envelopes and is in \<open>Envelope\<close>.
\<close>

section \<open>Bindings\<close>

datatype provisioning_error = InvalidProvisioningBinding

definition PROVISIONING_DOMAIN :: string where
  "PROVISIONING_DOMAIN = ''blindpass:fleet-browser-source:v1'' @ nul"
definition MAX_METADATA_BYTES :: nat where "MAX_METADATA_BYTES = 16384"

definition FIELDS :: "string list" where
  "FIELDS =
     [''version'', ''purpose'', ''offer_id'', ''node_key_version'', ''source_unit'', ''credential'',
      ''recipient_public'', ''issued_at_ms'', ''expires_at_ms'', ''grant'']"

record provisioning_binding =
  pb_offer_id :: string
  pb_node_key_version :: u64
  pb_source_unit :: string
  pb_credential :: string
  pb_recipient_public :: string
  pb_issued_at_ms :: u64
  pb_expires_at_ms :: u64
  pb_grant :: grant

definition binding_number :: "json_value \<Rightarrow> string \<Rightarrow> (u64, provisioning_error) result" where
  "binding_number v key = ok_or (Option.bind (get v key) as_u64) InvalidProvisioningBinding"

definition binding_string :: "json_value \<Rightarrow> string \<Rightarrow> (string, provisioning_error) result" where
  "binding_string v key = ok_or (Option.bind (get v key) as_str) InvalidProvisioningBinding"

definition binding_identifier :: "string \<Rightarrow> nat \<Rightarrow> bool \<Rightarrow> bool" where
  "binding_identifier v maximum unit \<longleftrightarrow>
     v \<noteq> [] \<and> length v \<le> maximum \<and> \<not> prefix ''.'' v \<and>
     list_all (\<lambda>b. is_ascii_alphanumeric b \<or> b = CHR ''_'' \<or> b = CHR ''-'' \<or> b = CHR ''.'' \<or>
       unit \<and> (b = CHR ''@'' \<or> b = CHR '':'')) v \<and>
     (\<not> unit \<or> suffix ''.service'' v)"

text \<open>\<open>format!("{}-{}", node_id, version)\<close>, the name of a node's key.\<close>

definition versioned_key_id :: "string \<Rightarrow> u64 \<Rightarrow> string" where
  "versioned_key_id node_id version = node_id @ ''-'' @ dec (unat version)"

text \<open>The condition under which \<open>to_value\<close> returns its error.\<close>

definition binding_invalid :: "provisioning_binding \<Rightarrow> string \<Rightarrow> bool" where
  "binding_invalid b public =
     (let g = pb_grant b in
      \<not> is_valid_opaque_id (pb_offer_id b) \<or> length (pb_offer_id b) < 16 \<or> pb_node_key_version b = 0 \<or>
      \<not> binding_identifier (pb_source_unit b) 255 True \<or> \<not> binding_identifier (pb_credential b) 128 False \<or>
      \<not> binding_identifier (gr_unit g) 255 True \<or> \<not> is_valid_opaque_id (gr_resource_id g) \<or>
      (case gr_request_event_key g of None \<Rightarrow> True | Some key \<Rightarrow> length key < 16 \<or> \<not> is_valid_opaque_id key) \<or>
      (case gr_approval_reference g of None \<Rightarrow> False | Some key \<Rightarrow> \<not> is_valid_opaque_id key) \<or>
      length public \<noteq> 32 \<or> list_all (\<lambda>c. byte c = 0) public \<or> base64_url_encode public \<noteq> pb_recipient_public b \<or>
      gr_mode g \<noteq> BrowserSession \<or> gr_action g \<noteq> ''browser.session'' \<or>
      length (gr_invocation_id g) \<noteq> 32 \<or>
      \<not> list_all (\<lambda>b. is_ascii_digit b \<or> CHR ''a'' \<le> b \<and> b \<le> CHR ''f'') (gr_invocation_id g) \<or>
      gr_recipient_key_id g \<noteq> versioned_key_id (gr_node_id g) (pb_node_key_version b) \<or>
      pb_issued_at_ms b < gr_issued_at_ms g \<or> gr_expires_at_ms g < pb_expires_at_ms b \<or>
      pb_expires_at_ms b \<le> pb_issued_at_ms b \<or> 180000 < pb_expires_at_ms b - pb_issued_at_ms b)"

definition binding_to_value :: "provisioning_binding \<Rightarrow> (json_value, provisioning_error) result" where
  "binding_to_value b =
     and_then (map_err (\<lambda>_. InvalidProvisioningBinding) (grant_to_value (pb_grant b))) (\<lambda>grant.
     and_then (ok_or (base64_url_decode (pb_recipient_public b) 32) InvalidProvisioningBinding) (\<lambda>public.
     and_then (reject_if (binding_invalid b public) InvalidProvisioningBinding) (\<lambda>_.
     let v = Object
       [(''version'', Unsigned 1),
        (''purpose'', String ''browser_source''),
        (''offer_id'', String (pb_offer_id b)),
        (''node_key_version'', Unsigned (pb_node_key_version b)),
        (''source_unit'', String (pb_source_unit b)),
        (''credential'', String (pb_credential b)),
        (''recipient_public'', String (pb_recipient_public b)),
        (''issued_at_ms'', Unsigned (pb_issued_at_ms b)),
        (''expires_at_ms'', Unsigned (pb_expires_at_ms b)),
        (''grant'', grant)] in
     and_then (map_err (\<lambda>_. InvalidProvisioningBinding) (canonicalize_value v)) (\<lambda>bytes.
     and_then (reject_if (MAX_METADATA_BYTES < length bytes) InvalidProvisioningBinding) (\<lambda>_.
     Ok v)))))"

definition binding_from_value :: "json_value \<Rightarrow> (provisioning_binding, provisioning_error) result" where
  "binding_from_value v =
     and_then (ok_or (as_object v) InvalidProvisioningBinding) (\<lambda>members.
     and_then (reject_if (length members \<noteq> length FIELDS \<or> list_ex (\<lambda>e. fst e \<notin> set FIELDS) members)
       InvalidProvisioningBinding) (\<lambda>_.
     and_then (binding_number v ''version'') (\<lambda>version.
     and_then (reject_if (version \<noteq> 1) InvalidProvisioningBinding) (\<lambda>_.
     and_then (binding_string v ''purpose'') (\<lambda>purpose.
     and_then (reject_if (purpose \<noteq> ''browser_source'') InvalidProvisioningBinding) (\<lambda>_.
     and_then (binding_string v ''offer_id'') (\<lambda>offer_id.
     and_then (binding_number v ''node_key_version'') (\<lambda>node_key_version.
     and_then (binding_string v ''source_unit'') (\<lambda>source_unit.
     and_then (binding_string v ''credential'') (\<lambda>credential.
     and_then (binding_string v ''recipient_public'') (\<lambda>recipient_public.
     and_then (binding_number v ''issued_at_ms'') (\<lambda>issued_at_ms.
     and_then (binding_number v ''expires_at_ms'') (\<lambda>expires_at_ms.
     and_then (ok_or (get v ''grant'') InvalidProvisioningBinding) (\<lambda>g.
     and_then (map_err (\<lambda>_. InvalidProvisioningBinding) (grant_from_value g)) (\<lambda>grant.
     let b = \<lparr>pb_offer_id = offer_id, pb_node_key_version = node_key_version, pb_source_unit = source_unit,
       pb_credential = credential, pb_recipient_public = recipient_public, pb_issued_at_ms = issued_at_ms,
       pb_expires_at_ms = expires_at_ms, pb_grant = grant\<rparr>
     in and_then (binding_to_value b) (\<lambda>_. Ok b))))))))))))))))"

definition binding_from_json :: "string \<Rightarrow> (provisioning_binding, provisioning_error) result" where
  "binding_from_json source =
     and_then (reject_if (MAX_METADATA_BYTES < length source) InvalidProvisioningBinding) (\<lambda>_.
     and_then (map_err (\<lambda>_. InvalidProvisioningBinding) (parse_json source)) binding_from_value)"

definition binding_to_json :: "provisioning_binding \<Rightarrow> (string, provisioning_error) result" where
  "binding_to_json b =
     and_then (binding_to_value b) (\<lambda>v. map_err (\<lambda>_. InvalidProvisioningBinding) (canonicalize_value v))"

definition binding_aad :: "provisioning_binding \<Rightarrow> (string, provisioning_error) result" where
  "binding_aad b = and_then (binding_to_json b) (\<lambda>json. Ok (PROVISIONING_DOMAIN @ json))"

definition validate_against ::
    "provisioning_binding \<Rightarrow> grant \<Rightarrow> u64 \<Rightarrow> u64 \<Rightarrow> (unit, provisioning_error) result" where
  "validate_against b current node_key_version now_ms =
     and_then (binding_to_value b) (\<lambda>_.
     reject_if (pb_grant b \<noteq> current \<or> pb_node_key_version b \<noteq> node_key_version \<or>
       now_ms < pb_issued_at_ms b \<or> pb_expires_at_ms b \<le> now_ms) InvalidProvisioningBinding)"

section \<open>Deliveries\<close>

record provisioning_delivery =
  pd_binding :: provisioning_binding
  pd_enc :: string
  pd_ciphertext :: string

definition decode_sealed :: "string \<Rightarrow> string \<Rightarrow> (string \<times> string, provisioning_error) result" where
  "decode_sealed enc ciphertext =
     and_then (ok_or (base64_url_decode enc 32) InvalidProvisioningBinding) (\<lambda>enc_bytes.
     and_then (reject_if (2 ^ 64 \<le> length ciphertext * 3) InvalidProvisioningBinding) (\<lambda>_.
     let size = length ciphertext * 3 div 4 in
     and_then (reject_if (\<not> (16 \<le> size \<and> size \<le> 65552) \<or> list_all (\<lambda>b. byte b = 0) enc_bytes)
       InvalidProvisioningBinding) (\<lambda>_.
     and_then (ok_or (base64_url_decode ciphertext size) InvalidProvisioningBinding) (\<lambda>ciphertext_bytes.
     and_then (reject_if (base64_url_encode enc_bytes \<noteq> enc \<or> base64_url_encode ciphertext_bytes \<noteq> ciphertext)
       InvalidProvisioningBinding) (\<lambda>_.
     Ok (enc_bytes, ciphertext_bytes))))))"

definition delivery_to_value :: "provisioning_delivery \<Rightarrow> (json_value, provisioning_error) result" where
  "delivery_to_value d =
     and_then (decode_sealed (pd_enc d) (pd_ciphertext d)) (\<lambda>_.
     and_then (binding_to_value (pd_binding d)) (\<lambda>b.
     let v = Object [(''binding'', b), (''enc'', String (pd_enc d)), (''ciphertext'', String (pd_ciphertext d))] in
     and_then (map_err (\<lambda>_. InvalidProvisioningBinding) (canonicalize_value v)) (\<lambda>bytes.
     and_then (reject_if (131072 < length bytes) InvalidProvisioningBinding) (\<lambda>_.
     Ok v))))"

definition DELIVERY_FIELDS :: "string list" where
  "DELIVERY_FIELDS = [''binding'', ''enc'', ''ciphertext'']"

definition delivery_from_value :: "json_value \<Rightarrow> (provisioning_delivery, provisioning_error) result" where
  "delivery_from_value v =
     and_then (ok_or (as_object v) InvalidProvisioningBinding) (\<lambda>members.
     and_then (reject_if (length members \<noteq> 3 \<or> list_ex (\<lambda>e. fst e \<notin> set DELIVERY_FIELDS) members)
       InvalidProvisioningBinding) (\<lambda>_.
     and_then (ok_or (get v ''binding'') InvalidProvisioningBinding) (\<lambda>b.
     and_then (binding_from_value b) (\<lambda>binding.
     and_then (binding_string v ''enc'') (\<lambda>enc.
     and_then (binding_string v ''ciphertext'') (\<lambda>ciphertext.
     let d = \<lparr>pd_binding = binding, pd_enc = enc, pd_ciphertext = ciphertext\<rparr>
     in and_then (delivery_to_value d) (\<lambda>_. Ok d)))))))"

section \<open>The codecs obey the contract\<close>

text \<open>Counting members and checking their names is as strict as \<^const>\<open>expect_fields\<close>.\<close>

lemma counted_fields:
  assumes "length members = length names" "\<not> list_ex (\<lambda>e. fst e \<notin> set names) members" "distinct names"
    "list_all (\<lambda>k. get (Object members) k \<noteq> None) names"
  shows "expect_fields (Object members) names [] = Ok ()"
proof -
  have eq: "set (map fst members) = set names"
    using assms(2,4) by (auto simp: list_ex_iff list_all_iff map_of_eq_None_iff)
  then have "distinct (map fst members)"
    using assms(1,3) by (metis card_distinct distinct_card length_map)
  with eq show ?thesis by (simp add: expect_fields_Ok)
qed

lemma binding_fields:
  assumes "binding_from_value v = Ok b"
  shows "expect_fields v FIELDS [] = Ok ()"
proof -
  from assms obtain members where v: "v = Object members" "length members = length FIELDS"
      "\<not> list_ex (\<lambda>e. fst e \<notin> set FIELDS) members"
    by (cases v) (auto simp: binding_from_value_def)
  moreover from assms have "list_all (\<lambda>k. get v k \<noteq> None) FIELDS"
    by (auto simp: binding_from_value_def binding_number_def binding_string_def FIELDS_def Option.bind_eq_Some_conv
        simp del: get.simps)
  moreover have "distinct FIELDS" by (simp add: FIELDS_def)
  ultimately show ?thesis using counted_fields by blast
qed

lemma provisioning_result_eqI:
  fixes r r' :: "('a, provisioning_error) result"
  assumes "\<And>x. r = Ok x \<longleftrightarrow> r' = Ok x"
  shows "r = r'"
proof (cases r; cases r')
  fix e e' assume "r = Err e" "r' = Err e'"
  then show ?thesis by (cases e; cases e') simp
qed (use assms in auto)

lemma object_shape_norm:
  assumes "as_object v = Some members"
  shows "\<exists>members'. as_object (norm v) = Some members' \<and> length members' = length members \<and>
    (list_ex (\<lambda>e. P (fst e)) members' \<longleftrightarrow> list_ex (\<lambda>e. P (fst e)) members)"
proof -
  from assms have "v = Object members" by (cases v) auto
  then show ?thesis by (auto simp: norm_Object list_ex_iff simp del: norm.simps)
qed

lemma as_object_norm_None: "as_object (norm v) = None \<longleftrightarrow> as_object v = None"
  by (cases v) auto

lemma binding_same:
  assumes "expect_fields v FIELDS [] = Ok ()"
  shows "binding_from_value (norm v) = binding_from_value v"
proof -
  from assms obtain members where "as_object v = Some members" by (auto simp: expect_fields_Ok)
  from this object_shape_norm [OF this, of "\<lambda>k. k \<notin> set FIELDS"] show ?thesis
    by (cases "get v ''grant''")
      (auto simp: binding_from_value_def binding_number_def binding_string_def get_norm [OF assms] bind_map_option
        comp_def grants.reorder)
qed

lemma binding_reorder: "binding_from_value (norm v) = binding_from_value v"
proof (rule provisioning_result_eqI)
  fix b
  show "binding_from_value (norm v) = Ok b \<longleftrightarrow> binding_from_value v = Ok b"
    using binding_fields [of v b] binding_fields [of "norm v" b] binding_same [of v]
    by (auto simp: expect_fields_norm)
qed

lemma grant_count: "grant_to_value g = Ok v \<Longrightarrow> value_count v \<le> 21"
  by (auto simp: grant_to_value_def Let_def split: option.splits)

lemma identifier_ascii [simp]: "binding_identifier s m u \<Longrightarrow> is_ascii s"
  by (auto simp: binding_identifier_def is_ascii_def list_all_iff dest: ascii_less)

lemma binding_to_value_Ok:
  "binding_to_value b = Ok v \<longleftrightarrow>
    (\<exists>g public c. grant_to_value (pb_grant b) = Ok g \<and> base64_url_decode (pb_recipient_public b) 32 = Some public \<and>
      \<not> binding_invalid b public \<and> canonicalize_value v = Ok c \<and> length c \<le> MAX_METADATA_BYTES \<and>
      v = Object
       [(''version'', Unsigned 1),
        (''purpose'', String ''browser_source''),
        (''offer_id'', String (pb_offer_id b)),
        (''node_key_version'', Unsigned (pb_node_key_version b)),
        (''source_unit'', String (pb_source_unit b)),
        (''credential'', String (pb_credential b)),
        (''recipient_public'', String (pb_recipient_public b)),
        (''issued_at_ms'', Unsigned (pb_issued_at_ms b)),
        (''expires_at_ms'', Unsigned (pb_expires_at_ms b)),
        (''grant'', g)])"
  by (auto simp: binding_to_value_def Let_def not_less)

lemma binding_read_back: "binding_to_value b = Ok v \<Longrightarrow> binding_from_value v = Ok b"
proof -
  assume a: "binding_to_value b = Ok v"
  then obtain g where g: "grant_from_value g = Ok (pb_grant b)" and v: "v = Object
       [(''version'', Unsigned 1), (''purpose'', String ''browser_source''), (''offer_id'', String (pb_offer_id b)),
        (''node_key_version'', Unsigned (pb_node_key_version b)), (''source_unit'', String (pb_source_unit b)),
        (''credential'', String (pb_credential b)), (''recipient_public'', String (pb_recipient_public b)),
        (''issued_at_ms'', Unsigned (pb_issued_at_ms b)), (''expires_at_ms'', Unsigned (pb_expires_at_ms b)), (''grant'', g)]"
    using grants.read_back by (auto simp: binding_to_value_Ok)
  show ?thesis
    using g a unfolding v binding_from_value_def
    by (cases b) (simp add: binding_number_def binding_string_def FIELDS_def)
qed

lemma binding_faithful:
  assumes "binding_from_value v = Ok b" "binding_to_value b = Ok w"
  shows "norm w = norm v"
proof -
  from assms(1) obtain g where f: "Option.bind (get v ''version'') as_u64 = Some 1"
    "Option.bind (get v ''purpose'') as_str = Some ''browser_source''" "Option.bind (get v ''offer_id'') as_str = Some (pb_offer_id b)"
    "Option.bind (get v ''node_key_version'') as_u64 = Some (pb_node_key_version b)"
    "Option.bind (get v ''source_unit'') as_str = Some (pb_source_unit b)" "Option.bind (get v ''credential'') as_str = Some (pb_credential b)"
    "Option.bind (get v ''recipient_public'') as_str = Some (pb_recipient_public b)"
    "Option.bind (get v ''issued_at_ms'') as_u64 = Some (pb_issued_at_ms b)"
    "Option.bind (get v ''expires_at_ms'') as_u64 = Some (pb_expires_at_ms b)"
    and g: "get v ''grant'' = Some g" "grant_from_value g = Ok (pb_grant b)"
    by (auto simp: binding_from_value_def binding_number_def binding_string_def Let_def)
  have "as_str x = Some t \<longleftrightarrow> x = String t" for x t by (cases x) auto
  note f = f [unfolded Option.bind_eq_Some_conv this]
  from assms(2) obtain g' where g': "grant_to_value (pb_grant b) = Ok g'" and w: "w = Object
       [(''version'', Unsigned 1), (''purpose'', String ''browser_source''), (''offer_id'', String (pb_offer_id b)),
        (''node_key_version'', Unsigned (pb_node_key_version b)), (''source_unit'', String (pb_source_unit b)),
        (''credential'', String (pb_credential b)), (''recipient_public'', String (pb_recipient_public b)),
        (''issued_at_ms'', Unsigned (pb_issued_at_ms b)), (''expires_at_ms'', Unsigned (pb_expires_at_ms b)), (''grant'', g')]"
    by (auto simp: binding_to_value_Ok)
  have "norm g' = norm g" using grants.faithful [OF g(2) g'] .
  then show ?thesis
    unfolding w using f g(1) binding_fields [OF assms(1)]
    by (intro norm_eq_of_fields) (auto simp: FIELDS_def norm_number)
qed

interpretation bindings: exact_codec binding_from_value binding_to_value
proof unfold_locales
  show "\<exists>w. binding_to_value b = Ok w" if "binding_from_value v = Ok b" for v b
    using that by (auto simp: binding_from_value_def Let_def)
  show "wire_safe v" if t: "binding_to_value b = Ok v" for b v
  proof -
    from t obtain g where g: "grant_to_value (pb_grant b) = Ok g" by (auto simp: binding_to_value_Ok)
    from t have "is_ascii (pb_recipient_public b)"
      using base64_decode_Some [of "pb_recipient_public b" 32] by (auto simp: binding_to_value_Ok)
    with grants.safe [OF g] grant_count [OF g] t g show ?thesis
      by (auto simp: binding_to_value_Ok wire_safe_def binding_invalid_def Let_def)
  qed
qed (fact binding_reorder binding_read_back binding_faithful)+

lemma delivery_fields:
  assumes "delivery_from_value v = Ok d"
  shows "expect_fields v DELIVERY_FIELDS [] = Ok ()"
proof -
  from assms obtain members where v: "v = Object members" "length members = length DELIVERY_FIELDS"
      "\<not> list_ex (\<lambda>e. fst e \<notin> set DELIVERY_FIELDS) members"
    by (cases v) (auto simp: delivery_from_value_def DELIVERY_FIELDS_def)
  moreover from assms have "list_all (\<lambda>k. get v k \<noteq> None) DELIVERY_FIELDS"
    by (auto simp: delivery_from_value_def binding_string_def DELIVERY_FIELDS_def Option.bind_eq_Some_conv
        simp del: get.simps)
  moreover have "distinct DELIVERY_FIELDS" by (simp add: DELIVERY_FIELDS_def)
  ultimately show ?thesis using counted_fields by blast
qed

lemma delivery_same:
  assumes "expect_fields v DELIVERY_FIELDS [] = Ok ()"
  shows "delivery_from_value (norm v) = delivery_from_value v"
proof -
  from assms obtain members where "as_object v = Some members" by (auto simp: expect_fields_Ok)
  from this object_shape_norm [OF this, of "\<lambda>k. k \<notin> set DELIVERY_FIELDS"] show ?thesis
    by (cases "get v ''binding''")
      (auto simp: delivery_from_value_def binding_string_def get_norm [OF assms] bind_map_option comp_def binding_reorder)
qed

lemma delivery_to_value_Ok:
  "delivery_to_value d = Ok v \<longleftrightarrow>
    (\<exists>b sealed c. binding_to_value (pd_binding d) = Ok b \<and> decode_sealed (pd_enc d) (pd_ciphertext d) = Ok sealed \<and>
      canonicalize_value v = Ok c \<and> length c \<le> 131072 \<and>
      v = Object [(''binding'', b), (''enc'', String (pd_enc d)), (''ciphertext'', String (pd_ciphertext d))])"
  by (auto simp: delivery_to_value_def Let_def not_less)

lemma base64_decode_conv:
  "base64_url_decode s n = Some out \<longleftrightarrow> out \<noteq> [] \<and> length out = n \<and> s = base64_url_encode out"
  using base64_decode_Some base64_decode_encode by blast

lemma base64_size: "length (base64_url_encode c) * 3 div 4 = length c"
  unfolding length_base64_url_encode by presburger

lemma decode_sealed_Ok:
  "decode_sealed enc ciphertext = Ok (e, c) \<longleftrightarrow>
    enc = base64_url_encode e \<and> ciphertext = base64_url_encode c \<and> length e = 32 \<and> \<not> list_all (\<lambda>b. byte b = 0) e \<and>
    16 \<le> length c \<and> length c \<le> 65552" (is "?l \<longleftrightarrow> ?r")
proof
  assume ?l
  then show ?r by (auto simp: decode_sealed_def Let_def dest!: base64_decode_Some)
next
  assume r: ?r
  then have "e \<noteq> []" "c \<noteq> []" "length (base64_url_encode c) * 3 < 18446744073709551616"
    by (auto simp: length_base64_url_encode)
  with r base64_size [of c] base64_decode_encode [of e] base64_decode_encode [of c] show ?l
    by (simp add: decode_sealed_def Let_def)
qed

lemma delivery_reorder: "delivery_from_value (norm v) = delivery_from_value v"
proof (rule provisioning_result_eqI)
  fix d
  show "delivery_from_value (norm v) = Ok d \<longleftrightarrow> delivery_from_value v = Ok d"
    using delivery_fields [of v d] delivery_fields [of "norm v" d] delivery_same [of v]
    by (auto simp: expect_fields_norm)
qed

lemma delivery_read_back: "delivery_to_value d = Ok v \<Longrightarrow> delivery_from_value v = Ok d"
proof -
  assume a: "delivery_to_value d = Ok v"
  then obtain b where b: "binding_from_value b = Ok (pd_binding d)"
    and v: "v = Object [(''binding'', b), (''enc'', String (pd_enc d)), (''ciphertext'', String (pd_ciphertext d))]"
    using bindings.read_back by (auto simp: delivery_to_value_Ok)
  show ?thesis
    using b a unfolding v delivery_from_value_def
    by (cases d) (simp add: binding_string_def DELIVERY_FIELDS_def)
qed

lemma delivery_faithful:
  assumes "delivery_from_value v = Ok d" "delivery_to_value d = Ok w"
  shows "norm w = norm v"
proof -
  have str: "as_str x = Some t \<longleftrightarrow> x = String t" for x t by (cases x) auto
  from assms(1) obtain b where f: "get v ''enc'' = Some (String (pd_enc d))"
    "get v ''ciphertext'' = Some (String (pd_ciphertext d))" "get v ''binding'' = Some b"
    and b: "binding_from_value b = Ok (pd_binding d)"
    by (auto simp: delivery_from_value_def binding_string_def Let_def Option.bind_eq_Some_conv str)
  from assms(2) obtain b' where b': "binding_to_value (pd_binding d) = Ok b'"
    and w: "w = Object [(''binding'', b'), (''enc'', String (pd_enc d)), (''ciphertext'', String (pd_ciphertext d))]"
    by (auto simp: delivery_to_value_Ok)
  have "norm b' = norm b" using bindings.faithful [OF b b'] .
  then show ?thesis
    unfolding w using f delivery_fields [OF assms(1)]
    by (intro norm_eq_of_fields) (auto simp: DELIVERY_FIELDS_def)
qed

lemma binding_count: "binding_to_value b = Ok v \<Longrightarrow> value_count v \<le> 31"
  using grant_count by (auto simp: binding_to_value_Ok)

interpretation deliveries: exact_codec delivery_from_value delivery_to_value
proof unfold_locales
  show "\<exists>w. delivery_to_value d = Ok w" if "delivery_from_value v = Ok d" for v d
    using that by (auto simp: delivery_from_value_def Let_def)
  show "wire_safe v" if t: "delivery_to_value d = Ok v" for d v
  proof -
    from t obtain b where b: "binding_to_value (pd_binding d) = Ok b" by (auto simp: delivery_to_value_Ok)
    with bindings.safe [OF b] binding_count [OF b] t show ?thesis
      by (auto simp: delivery_to_value_Ok wire_safe_def decode_sealed_Ok)
  qed
qed (fact delivery_reorder delivery_read_back delivery_faithful)+

section \<open>Properties\<close>

lemma binding_json_read_back:
  assumes "binding_to_json b = Ok s"
  shows "binding_from_json s = Ok b"
proof -
  from assms obtain v where v: "binding_to_value b = Ok v" "canonicalize_value v = Ok s"
    by (auto simp: binding_to_json_def)
  moreover from v have "length s \<le> MAX_METADATA_BYTES" by (auto simp: binding_to_value_Ok)
  ultimately show ?thesis using bindings.wire_read_back [OF v] by (auto simp: binding_from_json_def)
qed

text \<open>A binding for \<^const>\<open>sample_grant\<close>, for concrete evaluations.\<close>

definition sample_binding :: provisioning_binding where
  "sample_binding = \<lparr>pb_offer_id = ''offeroffer012345'', pb_node_key_version = 3, pb_source_unit = ''b.service'',
     pb_credential = ''token'', pb_recipient_public = base64_url_encode (replicate 32 (CHR ''p'')),
     pb_issued_at_ms = 2000, pb_expires_at_ms = 90000, pb_grant = sample_grant\<rparr>"

lemma utf8_base64 [simp]: "utf8_valid (base64_url_encode s)"
  by (rule ascii_valid) (rule base64_ascii)

lemma length_write_base64: "length (write_string (base64_url_encode s)) = (length s * 4 + 2) div 3 + 2"
proof -
  have "0x20 \<le> byte b \<and> byte b < 0x80 \<and> b \<noteq> quote \<and> b \<noteq> backslash" if "is_base64_char b" for b
    using that by (auto simp: is_base64_char_def ascii_defs less_eq_char_def)
  with encode_base64_chars [of s] have "write_string (base64_url_encode s) = quote # base64_url_encode s @ [quote]"
    by (intro write_string_plain) (auto simp: list_all_iff)
  then show ?thesis by (simp add: length_base64_url_encode)
qed

lemma sample_grant_value:
  "\<exists>g. grant_to_value sample_grant = Ok g \<and> well_formed 1 g \<and> written_length g \<le> 600"
  by (simp add: sample_grant_def grant_to_value_def Let_def char_eval validate_token_def validate_unit_def
      suffix_eval is_valid_account_identifier_def supported_operation_binding_def canon_eval)

lemma sample_binding_valid: "is_ok (binding_to_value sample_binding)"
proof -
  obtain g where g: "grant_to_value sample_grant = Ok g" "well_formed 1 g" "written_length g \<le> 600"
    using sample_grant_value by blast
  let ?v = "Object
       [(''version'', Unsigned 1), (''purpose'', String ''browser_source''), (''offer_id'', String ''offeroffer012345''),
        (''node_key_version'', Unsigned 3), (''source_unit'', String ''b.service''), (''credential'', String ''token''),
        (''recipient_public'', String (base64_url_encode (replicate 32 (CHR ''p'')))),
        (''issued_at_ms'', Unsigned 2000), (''expires_at_ms'', Unsigned 90000), (''grant'', g)]"
  have "well_formed 0 ?v" using g(2) by (simp add: canon_eval)
  moreover have l: "written_length ?v \<le> 1000" using g(3) by (simp add: length_write_base64) (simp add: canon_eval)
  ultimately obtain c where "canonicalize_value ?v = Ok c" "length c \<le> 1000"
    using canonicalize_well_formed [of ?v] by (auto simp: MAX_CANONICAL_JSON_BYTES_def)
  moreover have "base64_url_decode (base64_url_encode (replicate 32 (CHR ''p''))) 32 = Some (replicate 32 (CHR ''p''))"
    using base64_decode_encode [of "replicate 32 (CHR ''p'')"] by simp
  moreover have "dec 3 = ''3''" by (simp add: dec.simps char_of_eq_iff)
  ultimately show ?thesis
    using g(1) by (auto simp: is_ok_iff binding_to_value_Ok sample_binding_def binding_invalid_def Let_def char_eval
        sample_grant_def binding_identifier_def suffix_eval versioned_key_id_def MAX_METADATA_BYTES_def)
qed

text \<open>C28: a binding is read back from its own text, and the associated data that its ciphertext is
  sealed with determines it: no two bindings share associated data.\<close>

theorem binding_aad_injective:
  assumes "binding_aad b = Ok a"
  shows "(\<exists>s. binding_to_json b = Ok s \<and> binding_from_json s = Ok b) \<and> (binding_aad b' = Ok a \<longleftrightarrow> b' = b)"
proof -
  from assms obtain s where s: "binding_to_json b = Ok s" "a = PROVISIONING_DOMAIN @ s" by (auto simp: binding_aad_def)
  have "b' = b" if "binding_aad b' = Ok a"
  proof -
    from that s have "binding_to_json b' = Ok s" by (auto simp: binding_aad_def)
    with binding_json_read_back [OF this] binding_json_read_back [OF s(1)] show ?thesis by simp
  qed
  with assms s binding_json_read_back show ?thesis by blast
qed

theorem binding_aad_injective_witness:
  "\<exists>a. binding_aad sample_binding = Ok a \<and>
    binding_aad (sample_binding\<lparr>pb_expires_at_ms := 90001\<rparr>) \<noteq> Ok a"
proof -
  from sample_binding_valid obtain v where v: "binding_to_value sample_binding = Ok v" by (auto simp: is_ok_iff)
  then obtain c where "canonicalize_value v = Ok c" by (auto simp: binding_to_value_Ok)
  with v have a: "binding_aad sample_binding = Ok (PROVISIONING_DOMAIN @ c)"
    by (simp add: binding_aad_def binding_to_json_def)
  with binding_aad_injective [OF a, of "sample_binding\<lparr>pb_expires_at_ms := 90001\<rparr>"] show ?thesis
    by (auto simp: sample_binding_def)
qed

text \<open>C29: a binding that is accepted against the current grant is for exactly that grant and key
  version, is read within its own window, and that window lies within the one of the grant; an offer
  therefore lives at most two minutes, although the code's own limit is three.\<close>

theorem binding_window:
  assumes "validate_against b current version now = Ok ()"
  shows "pb_grant b = current \<and> pb_node_key_version b = version \<and>
    gr_recipient_key_id current = versioned_key_id (gr_node_id current) version \<and>
    unat (gr_issued_at_ms current) \<le> unat (pb_issued_at_ms b) \<and> unat (pb_issued_at_ms b) \<le> unat now \<and>
    unat now < unat (pb_expires_at_ms b) \<and> unat (pb_expires_at_ms b) \<le> unat (gr_expires_at_ms current) \<and>
    unat (pb_expires_at_ms b) \<le> unat (pb_issued_at_ms b) + 120000"
proof -
  from assms obtain public g where b: "\<not> binding_invalid b public" "grant_to_value (pb_grant b) = Ok g"
    and eq: "pb_grant b = current" "pb_node_key_version b = version" "pb_issued_at_ms b \<le> now" "now < pb_expires_at_ms b"
    by (auto simp: validate_against_def binding_to_value_Ok not_less not_le)
  moreover have "gr_issued_at_ms current \<le> pb_issued_at_ms b" "pb_expires_at_ms b \<le> gr_expires_at_ms current"
    and mode: "gr_mode current = BrowserSession"
    using b(1) eq by (auto simp: binding_invalid_def Let_def not_less)
  moreover have "gr_expires_at_ms current - gr_issued_at_ms current \<le> 120000" "gr_issued_at_ms current < gr_expires_at_ms current"
    using b(2) eq(1) mode by (auto simp: grant_to_value_def Let_def not_less not_le)
  moreover from this have "unat (gr_expires_at_ms current) - unat (gr_issued_at_ms current) \<le> 120000"
    using unat_u64_sub [OF less_imp_le, of "gr_issued_at_ms current" "gr_expires_at_ms current"]
    by (auto simp: word_le_nat_alt)
  ultimately show ?thesis
    by (auto simp: binding_invalid_def Let_def word_le_nat_alt word_less_nat_alt)
qed

theorem binding_window_witness:
  "validate_against sample_binding sample_grant 3 5000 = Ok () \<and>
   unat (pb_expires_at_ms sample_binding) \<le> unat (pb_issued_at_ms sample_binding) + 120000"
proof -
  have "validate_against sample_binding sample_grant 3 5000 = Ok ()"
    using sample_binding_valid by (auto simp: validate_against_def is_ok_iff) (auto simp: sample_binding_def)
  with binding_window [OF this] show ?thesis by blast
qed

end
