(* ===== verification/Custody.thy ===== *)
theory Custody
  imports Crypto
begin

text \<open>
  Recipient keys (\<open>crates/blindpass-core/src/custody.rs\<close>): HPKE in base mode over the library's X25519,
  HMAC and ChaCha20-Poly1305, and the broker's store of one-use recipient keys. Random bytes and
  clock readings are arguments: \<open>rnd\<close> is what \<open>RAND_bytes\<close> fills, a reading is what \<open>Instant::now()\<close>
  and the boot clock return when they are asked. Instants and durations count nanoseconds.
\<close>

section \<open>HPKE\<close>

definition KEM_ID :: nat where "KEM_ID = 0x0020"
definition KDF_ID :: nat where "KDF_ID = 0x0001"
definition AEAD_ID :: nat where "AEAD_ID = 0x0003"

record sealed_message =
  sm_enc :: string
  sm_ciphertext :: string

record recipient_key_pair =
  rk_private :: string
  rk_public :: string

definition from_private_key :: "libcrypto \<Rightarrow> string \<Rightarrow> (recipient_key_pair, crypto_error) result" where
  "from_private_key lib private_key =
     and_then (reject_if (length private_key \<noteq> N_SECRET) InvalidKeyLength) (\<lambda>_.
     and_then (map_err OpenSsl (lib_x25519_public lib private_key)) (\<lambda>public_key.
     and_then (reject_if (length public_key \<noteq> N_SECRET) (OpenSsl ''EVP_PKEY_get_raw_public_key failed'')) (\<lambda>_.
     Ok \<lparr>rk_private = private_key, rk_public = public_key\<rparr>)))"

definition generate :: "libcrypto \<Rightarrow> string option \<Rightarrow> (recipient_key_pair, crypto_error) result" where
  "generate lib rnd =
     and_then (ok_or rnd (OpenSsl ''RAND_bytes failed'')) (\<lambda>private_key.
     from_private_key lib private_key)"

definition derive_shared :: "libcrypto \<Rightarrow> string \<Rightarrow> string \<Rightarrow> (string, crypto_error) result" where
  "derive_shared lib private_key peer_public_key =
     and_then (reject_if (length peer_public_key \<noteq> N_SECRET) InvalidKeyLength) (\<lambda>_.
     and_then (map_err OpenSsl (lib_x25519_derive lib private_key peer_public_key)) (\<lambda>shared.
     and_then (reject_if (length shared \<noteq> N_SECRET) (OpenSsl ''EVP_PKEY_derive failed'')) (\<lambda>_.
     and_then (reject_if (list_all (\<lambda>b. byte b = 0) shared) InvalidEncapsulation) (\<lambda>_.
     Ok shared))))"

text \<open>\<open>u16::to_be_bytes\<close>.\<close>

definition be16 :: "nat \<Rightarrow> string" where
  "be16 n = [char_of (n div 256), char_of n]"

definition kem_suite_id :: string where "kem_suite_id = ''KEM'' @ be16 KEM_ID"
definition hpke_suite_id :: string where
  "hpke_suite_id = ''HPKE'' @ be16 KEM_ID @ be16 KDF_ID @ be16 AEAD_ID"

definition labeled_extract ::
    "libcrypto \<Rightarrow> string \<Rightarrow> string \<Rightarrow> string \<Rightarrow> string \<Rightarrow> (string, crypto_error) result" where
  "labeled_extract lib salt suite_id label input =
     hmac_sha256 lib salt (''HPKE-v1'' @ suite_id @ label @ input)"

text \<open>The loop over \<open>counter\<close>, with its variables \<open>previous\<close> and \<open>output\<close>.\<close>

fun expand_loop ::
    "libcrypto \<Rightarrow> string \<Rightarrow> string \<Rightarrow> nat list \<Rightarrow> string \<Rightarrow> string \<Rightarrow> (string, crypto_error) result" where
  "expand_loop lib prk labeled_info [] previous output = Ok output"
| "expand_loop lib prk labeled_info (counter # counters) previous output =
     and_then (hmac_sha256 lib prk (previous @ labeled_info @ [char_of counter])) (\<lambda>block.
     expand_loop lib prk labeled_info counters block (output @ block))"

definition labeled_expand ::
    "libcrypto \<Rightarrow> string \<Rightarrow> string \<Rightarrow> string \<Rightarrow> string \<Rightarrow> nat \<Rightarrow> (string, crypto_error) result" where
  "labeled_expand lib prk suite_id label info len =
     and_then (reject_if (65535 < len) (OpenSsl ''HPKE expansion too large'')) (\<lambda>_.
     let labeled_info = be16 len @ ''HPKE-v1'' @ suite_id @ label @ info;
         block_count = (len + N_SECRET - 1) div N_SECRET in
     and_then (expand_loop lib prk labeled_info [1..<Suc block_count] [] []) (\<lambda>output.
     Ok (take len output)))"

definition key_schedule ::
    "libcrypto \<Rightarrow> string \<Rightarrow> string \<Rightarrow> string \<Rightarrow> string \<Rightarrow> (string \<times> string, crypto_error) result" where
  "key_schedule lib shared_secret enc recipient_public_key info =
     (let kem_context = enc @ recipient_public_key in
     and_then (labeled_extract lib [] kem_suite_id ''eae_prk'' shared_secret) (\<lambda>eae_prk.
     and_then (labeled_expand lib eae_prk kem_suite_id ''shared_secret'' kem_context N_SECRET) (\<lambda>shared_secret.
     and_then (labeled_extract lib [] hpke_suite_id ''psk_id_hash'' []) (\<lambda>psk_id_hash.
     and_then (labeled_extract lib [] hpke_suite_id ''info_hash'' info) (\<lambda>info_hash.
     let key_schedule_context = [CHR 0x00] @ psk_id_hash @ info_hash in
     and_then (labeled_extract lib shared_secret hpke_suite_id ''secret'' []) (\<lambda>secret.
     and_then (labeled_expand lib secret hpke_suite_id ''key'' key_schedule_context N_SECRET) (\<lambda>key.
     and_then (labeled_expand lib secret hpke_suite_id ''base_nonce'' key_schedule_context N_NONCE) (\<lambda>nonce.
     Ok (key, nonce)))))))))"

definition aead_encrypt ::
    "libcrypto \<Rightarrow> string \<Rightarrow> string \<Rightarrow> string \<Rightarrow> string \<Rightarrow> (string, crypto_error) result" where
  "aead_encrypt lib key nonce plaintext aad =
     and_then (reject_if (length key \<noteq> N_SECRET \<or> length nonce \<noteq> N_NONCE) InvalidKeyLength) (\<lambda>_.
     and_then (map_err OpenSsl (lib_seal lib key nonce aad plaintext)) (\<lambda>(output, tag).
     and_then (reject_if (length tag \<noteq> N_TAG) (OpenSsl ''EVP_CIPHER_CTX_ctrl get tag failed'')) (\<lambda>_.
     Ok (output @ tag))))"

definition aead_decrypt ::
    "libcrypto \<Rightarrow> string \<Rightarrow> string \<Rightarrow> string \<Rightarrow> string \<Rightarrow> (string, crypto_error) result" where
  "aead_decrypt lib key nonce ciphertext aad =
     and_then (reject_if (length key \<noteq> N_SECRET \<or> length nonce \<noteq> N_NONCE) InvalidKeyLength) (\<lambda>_.
     and_then (reject_if (length ciphertext < N_TAG) InvalidCiphertext) (\<lambda>_.
     let at = length ciphertext - N_TAG; tag = drop at ciphertext in
     and_then (map_err OpenSsl (lib_open lib key nonce aad (take at ciphertext) tag)) (\<lambda>opened.
     ok_or opened AuthenticationFailed)))"

definition open_with_info ::
    "libcrypto \<Rightarrow> recipient_key_pair \<Rightarrow> string \<Rightarrow> string \<Rightarrow> string \<Rightarrow> string \<Rightarrow> (string, crypto_error) result" where
  "open_with_info lib pair enc ciphertext info aad =
     and_then (reject_if (length enc \<noteq> N_SECRET) InvalidEncapsulation) (\<lambda>_.
     and_then (reject_if (length ciphertext < N_TAG) InvalidCiphertext) (\<lambda>_.
     and_then (derive_shared lib (rk_private pair) enc) (\<lambda>shared_secret.
     and_then (key_schedule lib shared_secret enc (rk_public pair) info) (\<lambda>(key, nonce).
     aead_decrypt lib key nonce ciphertext aad))))"

definition seal_with_ephemeral ::
    "libcrypto \<Rightarrow> string \<Rightarrow> (recipient_key_pair, crypto_error) result \<Rightarrow> string \<Rightarrow> string \<Rightarrow> string
      \<Rightarrow> (sealed_message, crypto_error) result" where
  "seal_with_ephemeral lib recipient_public_key made plaintext info aad =
     and_then (reject_if (length recipient_public_key \<noteq> N_SECRET) InvalidKeyLength) (\<lambda>_.
     and_then made (\<lambda>ephemeral.
     let enc = rk_public ephemeral in
     and_then (derive_shared lib (rk_private ephemeral) recipient_public_key) (\<lambda>shared_secret.
     and_then (key_schedule lib shared_secret enc recipient_public_key info) (\<lambda>(key, nonce).
     and_then (aead_encrypt lib key nonce plaintext aad) (\<lambda>ciphertext.
     Ok \<lparr>sm_enc = enc, sm_ciphertext = ciphertext\<rparr>)))))"

text \<open>
  The two sealing functions have the same body; they differ in where the ephemeral key comes from,
  which both make after checking the recipient's key.
\<close>

definition seal_with_info ::
    "libcrypto \<Rightarrow> string option \<Rightarrow> string \<Rightarrow> string \<Rightarrow> string \<Rightarrow> string \<Rightarrow> (sealed_message, crypto_error) result" where
  "seal_with_info lib rnd recipient_public_key plaintext info aad =
     seal_with_ephemeral lib recipient_public_key (generate lib rnd) plaintext info aad"

definition seal_with_ephemeral_private_and_info ::
    "libcrypto \<Rightarrow> string \<Rightarrow> string \<Rightarrow> string \<Rightarrow> string \<Rightarrow> string \<Rightarrow> (sealed_message, crypto_error) result" where
  "seal_with_ephemeral_private_and_info lib recipient_public_key ephemeral_private_key plaintext info aad =
     seal_with_ephemeral lib recipient_public_key (from_private_key lib ephemeral_private_key) plaintext info aad"

definition open_message :: "libcrypto \<Rightarrow> recipient_key_pair \<Rightarrow> string \<Rightarrow> string \<Rightarrow> string \<Rightarrow> (string, crypto_error) result" where
  "open_message lib pair enc ciphertext aad = open_with_info lib pair enc ciphertext [] aad"

definition seal_message :: "libcrypto \<Rightarrow> string option \<Rightarrow> string \<Rightarrow> string \<Rightarrow> string \<Rightarrow> (sealed_message, crypto_error) result" where
  "seal_message lib rnd recipient_public_key plaintext aad = seal_with_info lib rnd recipient_public_key plaintext [] aad"

section \<open>The store of one-use keys\<close>

record reading =
  at_instant :: nat
  at_boottime :: "i64 option"

record custody_entry =
  ce_key_pair :: recipient_key_pair
  ce_expires_at :: nat
  ce_expires_at_boottime_ms :: i64

record ephemeral_custody =
  ec_entries :: "string \<rightharpoonup> custody_entry"
  ec_lifetime :: nat

definition current_entry :: "custody_entry \<Rightarrow> reading \<Rightarrow> bool" where
  "current_entry e r \<longleftrightarrow>
     at_instant r < ce_expires_at e \<and>
     (case at_boottime r of
        None \<Rightarrow> False
      | Some boot \<Rightarrow> 0 \<le> sint boot \<and> sint boot < sint (ce_expires_at_boottime_ms e))"

definition new_custody :: "nat \<Rightarrow> ephemeral_custody" where
  "new_custody lifetime = \<lparr>ec_entries = Map.empty, ec_lifetime = lifetime\<rparr>"

text \<open>\<open>Instant::checked_add\<close> fails when the seconds do not fit in 63 bits.\<close>

definition instant_checked_add :: "nat \<Rightarrow> nat \<Rightarrow> nat option" where
  "instant_checked_add now duration =
     (if (now + duration) div 1000000000 < 2 ^ 63 then Some (now + duration) else None)"

definition purge_expired_at :: "ephemeral_custody \<Rightarrow> reading \<Rightarrow> ephemeral_custody" where
  "purge_expired_at c r =
     c\<lparr>ec_entries := (\<lambda>id. case ec_entries c id of
        None \<Rightarrow> None | Some e \<Rightarrow> if current_entry e r then Some e else None)\<rparr>"

definition lifetime_millis :: "nat \<Rightarrow> i64 option" where
  "lifetime_millis lifetime =
     (let millis = lifetime div 1000000 in if int millis \<le> i64_max then Some (of_nat millis) else None)"

text \<open>
  Each operation returns the store and its result. \<open>provision\<close> reads the clocks once to purge and
  once for the deadlines; \<open>open_once_with_info\<close> once to purge and before and after opening.
\<close>

definition new_entry :: "libcrypto \<Rightarrow> nat \<Rightarrow> reading \<Rightarrow> string option \<Rightarrow> (custody_entry, crypto_error) result" where
  "new_entry lib lifetime r rnd =
     and_then (ok_or (instant_checked_add (at_instant r) lifetime) (OpenSsl ''custody lifetime invalid'')) (\<lambda>expires_at.
     and_then (ok_or (at_boottime r) (UnsupportedHost ''boottime_unavailable'')) (\<lambda>boot.
     and_then (ok_or (lifetime_millis lifetime) (OpenSsl ''custody lifetime invalid'')) (\<lambda>millis.
     and_then (ok_or (checked_add_i64 boot millis) (OpenSsl ''custody lifetime invalid'')) (\<lambda>expires_at_boottime_ms.
     and_then (generate lib rnd) (\<lambda>pair.
     Ok \<lparr>ce_key_pair = pair, ce_expires_at = expires_at, ce_expires_at_boottime_ms = expires_at_boottime_ms\<rparr>)))))"

definition provision ::
    "libcrypto \<Rightarrow> ephemeral_custody \<Rightarrow> string \<Rightarrow> reading \<Rightarrow> reading \<Rightarrow> string option
      \<Rightarrow> ephemeral_custody \<times> (string, crypto_error) result" where
  "provision lib c recipient_id r1 r2 rnd =
     (if recipient_id = [] \<or> 128 < length recipient_id \<or> CHR ''/'' \<in> set recipient_id
      then (c, Err (OpenSsl ''invalid recipient id''))
      else let c = purge_expired_at c r1 in
        if ec_entries c recipient_id \<noteq> None then (c, Err (OpenSsl ''recipient already provisioned''))
        else case new_entry lib (ec_lifetime c) r2 rnd of
            Err e \<Rightarrow> (c, Err e)
          | Ok entry \<Rightarrow>
              (c\<lparr>ec_entries := (ec_entries c)(recipient_id \<mapsto> entry)\<rparr>, Ok (rk_public (ce_key_pair entry))))"

definition open_once_with_info ::
    "libcrypto \<Rightarrow> ephemeral_custody \<Rightarrow> string \<Rightarrow> string \<Rightarrow> string \<Rightarrow> string \<Rightarrow> string \<Rightarrow> reading \<Rightarrow> reading \<Rightarrow> reading
      \<Rightarrow> ephemeral_custody \<times> (string, crypto_error) result" where
  "open_once_with_info lib c recipient_id enc ciphertext info aad r1 r2 r3 =
     (let c = purge_expired_at c r1; expired = OpenSsl ''recipient key missing or expired'' in
      case ec_entries c recipient_id of
        None \<Rightarrow> (c, Err expired)
      | Some entry \<Rightarrow>
          (c\<lparr>ec_entries := (ec_entries c)(recipient_id := None)\<rparr>,
           and_then (reject_if (\<not> current_entry entry r2) expired) (\<lambda>_.
           and_then (open_with_info lib (ce_key_pair entry) enc ciphertext info aad) (\<lambda>plaintext.
           and_then (reject_if (\<not> current_entry entry r3) expired) (\<lambda>_.
           Ok plaintext)))))"

definition open_once ::
    "libcrypto \<Rightarrow> ephemeral_custody \<Rightarrow> string \<Rightarrow> string \<Rightarrow> string \<Rightarrow> string \<Rightarrow> reading \<Rightarrow> reading \<Rightarrow> reading
      \<Rightarrow> ephemeral_custody \<times> (string, crypto_error) result" where
  "open_once lib c recipient_id enc ciphertext aad r1 r2 r3 =
     open_once_with_info lib c recipient_id enc ciphertext [] aad r1 r2 r3"

section \<open>Opening inverts sealing\<close>

text \<open>
  What is documented of the library: the two sides of a key agreement derive the same secret, and
  decryption with the same key, nonce and associated data returns the plaintext.
\<close>

definition x25519_agrees :: "libcrypto \<Rightarrow> bool" where
  "x25519_agrees lib \<longleftrightarrow>
     (\<forall>a b pa pb. lib_x25519_public lib a = Ok pa \<longrightarrow> lib_x25519_public lib b = Ok pb \<longrightarrow>
        lib_x25519_derive lib a pb = lib_x25519_derive lib b pa)"

definition aead_correct :: "libcrypto \<Rightarrow> bool" where
  "aead_correct lib \<longleftrightarrow>
     (\<forall>k n a p c t. lib_seal lib k n a p = Ok (c, t) \<longrightarrow> lib_open lib k n a c t = Ok (Some p))"

lemma from_private_key_Ok:
  "from_private_key lib sk = Ok pair \<longleftrightarrow>
    length sk = 32 \<and> (\<exists>pk. lib_x25519_public lib sk = Ok pk \<and> length pk = 32 \<and> pair = \<lparr>rk_private = sk, rk_public = pk\<rparr>)"
  by (auto simp: from_private_key_def N_SECRET_def)

lemma aead_open_seal:
  assumes "aead_correct lib" "aead_encrypt lib k n p a = Ok c"
  shows "aead_decrypt lib k n c a = Ok p" and "16 \<le> length c"
  using assms by (auto simp: aead_encrypt_def aead_decrypt_def aead_correct_def N_TAG_def Let_def)

lemma seal_with_ephemeral_open:
  assumes lib: "x25519_agrees lib" "aead_correct lib"
    and "from_private_key lib esk = Ok eph" "from_private_key lib sk = Ok pair"
    and "seal_with_ephemeral lib (rk_public pair) (Ok eph) p info aad = Ok sealed"
  shows "open_with_info lib pair (sm_enc sealed) (sm_ciphertext sealed) info aad = Ok p"
proof -
  from assms(5) obtain shared key nonce c where s:
    "derive_shared lib (rk_private eph) (rk_public pair) = Ok shared"
    "key_schedule lib shared (rk_public eph) (rk_public pair) info = Ok (key, nonce)"
    "aead_encrypt lib key nonce p aad = Ok c" "sealed = \<lparr>sm_enc = rk_public eph, sm_ciphertext = c\<rparr>"
    by (auto simp: seal_with_ephemeral_def Let_def)
  have pub: "lib_x25519_public lib (rk_private eph) = Ok (rk_public eph)" "length (rk_public eph) = 32"
    "lib_x25519_public lib (rk_private pair) = Ok (rk_public pair)"
    using assms(3,4) by (auto simp: from_private_key_Ok)
  then have "lib_x25519_derive lib (rk_private pair) (rk_public eph) = lib_x25519_derive lib (rk_private eph) (rk_public pair)"
    using lib(1) unfolding x25519_agrees_def by blast
  with s(1) pub have "derive_shared lib (rk_private pair) (rk_public eph) = Ok shared"
    by (auto simp: derive_shared_def N_SECRET_def)
  with s pub aead_open_seal [OF lib(2) s(3)] show ?thesis
    by (simp add: open_with_info_def N_SECRET_def N_TAG_def)
qed

lemma seal_open:
  assumes "x25519_agrees lib" "aead_correct lib" "from_private_key lib sk = Ok pair"
    "seal_with_info lib rnd (rk_public pair) p info aad = Ok sealed"
  shows "open_with_info lib pair (sm_enc sealed) (sm_ciphertext sealed) info aad = Ok p"
proof -
  from assms(4) obtain esk eph where e: "generate lib rnd = Ok eph" "from_private_key lib esk = Ok eph"
    by (auto simp: seal_with_info_def seal_with_ephemeral_def generate_def)
  with assms(4) show ?thesis
    using seal_with_ephemeral_open [OF assms(1,2) e(2) assms(3)] by (simp add: seal_with_info_def)
qed

lemma toy_lib_laws: "x25519_agrees toy_lib" "aead_correct toy_lib" "ed25519_correct toy_lib"
proof -
  have "map2 (\<lambda>a b. char_of (byte a + byte b)) xs ys = (map2 (\<lambda>a b. char_of (byte a + byte b)) ys xs :: string)" for xs ys
    by (rule nth_equalityI) (simp_all add: add.commute)
  then show "x25519_agrees toy_lib" by (simp add: x25519_agrees_def toy_lib_def)
qed (simp_all add: aead_correct_def ed25519_correct_def toy_lib_def)

section \<open>Runs of the store\<close>

text \<open>
  What can happen to a fresh store, seen from one recipient: \<open>made\<close> counts its successful
  provisionings, \<open>opened\<close> its successful openings, and \<open>since\<close> is the reading at its last
  provisioning.
\<close>

inductive custody_run ::
    "libcrypto \<Rightarrow> nat \<Rightarrow> string \<Rightarrow> ephemeral_custody \<Rightarrow> nat \<Rightarrow> nat \<Rightarrow> reading option \<Rightarrow> bool"
  for lib lifetime recipient where
  start: "custody_run lib lifetime recipient (new_custody lifetime) 0 0 None"
| provision: "custody_run lib lifetime recipient c made opened since \<Longrightarrow>
    provision lib c x r1 r2 rnd = (c', res) \<Longrightarrow>
    custody_run lib lifetime recipient c' (if x = recipient \<and> is_ok res then Suc made else made) opened
      (if x = recipient \<and> is_ok res then Some r2 else since)"
| open_once: "custody_run lib lifetime recipient c made opened since \<Longrightarrow>
    open_once_with_info lib c x enc ct info aad r1 r2 r3 = (c', res) \<Longrightarrow>
    custody_run lib lifetime recipient c' made (if x = recipient \<and> is_ok res then Suc opened else opened) since"
| purge: "custody_run lib lifetime recipient c made opened since \<Longrightarrow>
    custody_run lib lifetime recipient (purge_expired_at c r) made opened since"

definition deadline_of :: "nat \<Rightarrow> custody_entry \<Rightarrow> reading \<Rightarrow> bool" where
  "deadline_of lifetime e r \<longleftrightarrow>
     ce_expires_at e = at_instant r + lifetime \<and>
     (\<exists>boot. at_boottime r = Some boot \<and>
        sint (ce_expires_at_boottime_ms e) = sint boot + int (lifetime div 1000000))"

definition custody_inv :: "nat \<Rightarrow> string \<Rightarrow> ephemeral_custody \<Rightarrow> nat \<Rightarrow> nat \<Rightarrow> reading option \<Rightarrow> bool" where
  "custody_inv lifetime recipient c made opened since \<longleftrightarrow>
     ec_lifetime c = lifetime \<and> opened \<le> made \<and>
     (case ec_entries c recipient of
        None \<Rightarrow> True
      | Some e \<Rightarrow> opened < made \<and> (\<exists>r. since = Some r \<and> deadline_of lifetime e r))"

lemma purge_entries: "ec_entries (purge_expired_at c r) x = Some e \<longleftrightarrow> ec_entries c x = Some e \<and> current_entry e r"
  by (auto simp: purge_expired_at_def split: option.splits)

lemma purge_lifetime [simp]: "ec_lifetime (purge_expired_at c r) = ec_lifetime c"
  by (simp add: purge_expired_at_def)

lemma purge_inv: "custody_inv l x c m n since \<Longrightarrow> custody_inv l x (purge_expired_at c r) m n since"
  using purge_entries by (fastforce simp: custody_inv_def split: option.splits)

lemma lifetime_millis_Some: "lifetime_millis l = Some m \<Longrightarrow> sint m = int (l div 1000000)"
  by (auto simp: lifetime_millis_def Let_def i64_min_def intro!: sint_of_i64 [of "int (l div 1000000)", simplified] split: if_splits)

lemma checked_add_i64_Some: "checked_add_i64 a b = Some c \<Longrightarrow> sint c = sint a + sint b"
proof -
  assume "checked_add_i64 a b = Some c"
  then have "c = a + b" "i64_min \<le> sint a + sint b" "sint a + sint b \<le> i64_max"
    by (auto simp: checked_add_i64_def split: if_splits)
  with sint_of_i64 [of "sint a + sint b"] show ?thesis by simp
qed

lemma new_entry_deadline: "new_entry lib l r rnd = Ok e \<Longrightarrow> deadline_of l e r"
  by (auto simp: new_entry_def deadline_of_def instant_checked_add_def
      dest!: lifetime_millis_Some checked_add_i64_Some split: if_splits)

lemma provision_result:
  assumes "provision lib c x r1 r2 rnd = (c', res)"
  shows "is_ok res \<Longrightarrow> \<exists>e. new_entry lib (ec_lifetime c) r2 rnd = Ok e \<and>
      c' = (purge_expired_at c r1)\<lparr>ec_entries := (ec_entries (purge_expired_at c r1))(x \<mapsto> e)\<rparr>"
    and "\<not> is_ok res \<Longrightarrow> c' = c \<or> c' = purge_expired_at c r1"
  using assms by (auto simp: provision_def Let_def split: if_splits result.splits)

lemma provision_inv:
  assumes inv: "custody_inv l who c m n since" and step: "provision lib c x r1 r2 rnd = (c', res)"
  shows "custody_inv l who c' (if x = who \<and> is_ok res then Suc m else m) n
    (if x = who \<and> is_ok res then Some r2 else since)"
proof (cases "is_ok res")
  case True
  then obtain e where "new_entry lib (ec_lifetime c) r2 rnd = Ok e"
    "c' = (purge_expired_at c r1)\<lparr>ec_entries := (ec_entries (purge_expired_at c r1))(x \<mapsto> e)\<rparr>"
    using provision_result(1) [OF step] by blast
  with True purge_inv [OF inv, of r1] new_entry_deadline show ?thesis
    by (auto simp: custody_inv_def split: option.splits)
next
  case False
  then show ?thesis using provision_result(2) [OF step False] inv purge_inv [OF inv, of r1] by auto
qed

lemma open_once_result:
  assumes "open_once_with_info lib c x enc ct info aad r1 r2 r3 = (c', res)"
  shows "ec_lifetime c' = ec_lifetime c" "ec_entries c' = (ec_entries (purge_expired_at c r1))(x := None)"
    "res = Ok p \<Longrightarrow> \<exists>e. ec_entries c x = Some e \<and> current_entry e r1 \<and> current_entry e r2 \<and> current_entry e r3 \<and>
       open_with_info lib (ce_key_pair e) enc ct info aad = Ok p"
  using assms purge_entries
  by (fastforce simp: open_once_with_info_def Let_def fun_upd_idem_iff split: option.splits)+

lemma open_once_inv:
  assumes inv: "custody_inv l who c m n since"
    and step: "open_once_with_info lib c x enc ct info aad r1 r2 r3 = (c', res)"
  shows "custody_inv l who c' m (if x = who \<and> is_ok res then Suc n else n) since"
proof -
  have "n < m" if "x = who" "is_ok res"
    using inv that open_once_result(3) [OF step] by (auto simp: custody_inv_def is_ok_iff split: option.splits)
  with purge_inv [OF inv, of r1] open_once_result(1,2) [OF step] show ?thesis
    by (auto simp: custody_inv_def split: option.splits)
qed

lemma custody_run_inv: "custody_run lib l who c m n since \<Longrightarrow> custody_inv l who c m n since"
proof (induction rule: custody_run.induct)
  case start
  then show ?case by (simp add: custody_inv_def new_custody_def)
next
  case (provision c made opened since x r1 r2 rnd c' res)
  then show ?case by (intro provision_inv)
next
  case (open_once c made opened since x enc ct info aad r1 r2 r3 c' res)
  then show ?case by (intro open_once_inv)
qed (rule purge_inv)

section \<open>Properties\<close>

definition toy_pair :: recipient_key_pair where
  "toy_pair = \<lparr>rk_private = replicate 32 (CHR ''s''), rk_public = replicate 32 (CHR ''s'')\<rparr>"

lemma toy_pair_made: "from_private_key toy_lib (replicate 32 (CHR ''s'')) = Ok toy_pair"
  by (simp add: from_private_key_Ok toy_lib_def toy_pair_def)

lemma toy_sealed:
  "\<exists>sealed. seal_with_info toy_lib (Some (replicate 32 (CHR ''e''))) (rk_public toy_pair) p info aad = Ok sealed"
proof -
  have "hmac_sha256 toy_lib k d = Ok (checksum (k @ d))" for k d
    by (simp add: hmac_sha256_def toy_lib_def checksum_def N_SECRET_def)
  moreover have "length (checksum d) = 32" for d by (simp add: checksum_def)
  ultimately show ?thesis
    by (simp add: seal_with_info_def seal_with_ephemeral_def generate_def from_private_key_Ok Let_def toy_pair_def
        derive_shared_def key_schedule_def labeled_extract_def labeled_expand_def aead_encrypt_def
        N_SECRET_def N_NONCE_def N_TAG_def list_all_iff)
      (simp add: toy_lib_def)
qed

text \<open>C30: what is sealed to a recipient's public key opens with its private key to the same plaintext,
  under the same info and associated data, whatever ephemeral key was drawn.\<close>

theorem hpke_roundtrip:
  assumes "x25519_agrees lib" "aead_correct lib" "from_private_key lib sk = Ok pair"
    "seal_with_info lib rnd (rk_public pair) plaintext info aad = Ok sealed"
  shows "open_with_info lib pair (sm_enc sealed) (sm_ciphertext sealed) info aad = Ok plaintext"
  using seal_open [OF assms] .

theorem hpke_roundtrip_witness:
  "\<exists>sealed. seal_with_info toy_lib (Some (replicate 32 (CHR ''e''))) (rk_public toy_pair) ''secret'' ''i'' ''a'' = Ok sealed \<and>
     open_with_info toy_lib toy_pair (sm_enc sealed) (sm_ciphertext sealed) ''i'' ''a'' = Ok ''secret''"
  using toy_sealed [of "''secret''" "''i''" "''a''"] hpke_roundtrip [OF toy_lib_laws(1,2) toy_pair_made] by blast

text \<open>C31: in every run of the store, an opening succeeds only with a key that was provisioned for that
  recipient and has not been opened since, and only before the lifetime has passed since its
  provisioning on both clocks, the one that stops in suspension and the one that does not.\<close>

theorem custody_opens_once_in_time:
  assumes "custody_run lib lifetime recipient c made opened since"
    "open_once_with_info lib c recipient enc ct info aad r1 r2 r3 = (c', Ok plaintext)"
  shows "opened < made \<and> ec_entries c' recipient = None \<and>
    (\<exists>r boot boot3. since = Some r \<and> at_boottime r = Some boot \<and> at_boottime r3 = Some boot3 \<and>
       at_instant r3 < at_instant r + lifetime \<and> sint boot3 < sint boot + int (lifetime div 1000000))"
proof -
  obtain e where e: "ec_entries c recipient = Some e" "current_entry e r3"
    using open_once_result(3) [OF assms(2) refl] by blast
  with custody_run_inv [OF assms(1)] obtain r where "opened < made" "since = Some r" "deadline_of lifetime e r"
    by (auto simp: custody_inv_def)
  with e(2) open_once_result(2) [OF assms(2)] show ?thesis
    by (auto simp: deadline_of_def current_entry_def split: option.splits)
qed

theorem custody_opens_once_in_time_witness:
  "\<exists>c c' enc ct. custody_run toy_lib 5000000 ''r'' c 1 0 (Some \<lparr>at_instant = 0, at_boottime = Some 100\<rparr>) \<and>
     open_once_with_info toy_lib c ''r'' enc ct [] [] \<lparr>at_instant = 10, at_boottime = Some 101\<rparr>
       \<lparr>at_instant = 10, at_boottime = Some 101\<rparr> \<lparr>at_instant = 20, at_boottime = Some 101\<rparr> = (c', Ok ''secret'') \<and>
     ec_entries c' ''r'' = None"
proof -
  let ?r0 = "\<lparr>at_instant = 0, at_boottime = Some 100\<rparr>" and ?r1 = "\<lparr>at_instant = 10, at_boottime = Some 101\<rparr>"
    and ?r2 = "\<lparr>at_instant = 20, at_boottime = Some 101\<rparr>"
  let ?e = "\<lparr>ce_key_pair = toy_pair, ce_expires_at = 5000000, ce_expires_at_boottime_ms = 105\<rparr>"
  let ?c = "(new_custody 5000000)\<lparr>ec_entries := [''r'' \<mapsto> ?e]\<rparr>"
  have entry: "new_entry toy_lib 5000000 ?r0 (Some (replicate 32 (CHR ''s''))) = Ok ?e"
    by (simp add: new_entry_def instant_checked_add_def lifetime_millis_def checked_add_i64_def i64_min_def i64_max_def
        generate_def toy_pair_made)
  have "provision toy_lib (new_custody 5000000) ''r'' ?r0 ?r0 (Some (replicate 32 (CHR ''s''))) = (?c, Ok (rk_public toy_pair))"
    by (simp add: provision_def new_custody_def purge_expired_at_def entry)
  from custody_run.provision [OF custody_run.start this, where recipient = "''r''"]
  have run: "custody_run toy_lib 5000000 ''r'' ?c 1 0 (Some ?r0)" by simp
  obtain sealed :: sealed_message where sealed: "open_with_info toy_lib toy_pair (sm_enc sealed) (sm_ciphertext sealed) [] [] = Ok ''secret''"
    using toy_sealed [of "''secret''" "[]" "[]"] seal_open [OF toy_lib_laws(1,2) toy_pair_made] by blast
  obtain c' where "open_once_with_info toy_lib ?c ''r'' (sm_enc sealed) (sm_ciphertext sealed) [] [] ?r1 ?r1 ?r2 = (c', Ok ''secret'')"
    by (simp add: open_once_with_info_def purge_expired_at_def current_entry_def sealed)
  from custody_opens_once_in_time [OF run this] this run show ?thesis by blast
qed

end
