(* ===== verification/Fulfillment.thy ===== *)
theory Fulfillment
  imports Fleet_Messages Custody
begin

text \<open>
  Cross-workload fulfillment (\<open>crates/blindpass-core/src/fulfillment.rs\<close>): the parties and the terms
  that the controller attests, the recipient's one-use offer, the issuer's sealed submission, and the
  revocation and result documents, with what sealing binds. The documents that embed signed
  envelopes, and signing and verifying, are in \<open>Envelope\<close>.
\<close>

section \<open>Limits and validators\<close>

definition MODE_REENCRYPT :: string where "MODE_REENCRYPT = ''reencrypt''"
definition MAX_FULFILLMENT_LIFETIME_MS :: u64 where "MAX_FULFILLMENT_LIFETIME_MS = 600000"
definition MAX_OFFER_LIFETIME_MS :: u64 where "MAX_OFFER_LIFETIME_MS = 180000"
definition MAX_PLAINTEXT_BYTES :: u64 where "MAX_PLAINTEXT_BYTES = 8192"
definition AEAD_TAG_BYTES :: nat where "AEAD_TAG_BYTES = 16"

definition TERMS_DOMAIN :: string where
  "TERMS_DOMAIN = ''blindpass:fleet-fulfillment-terms:v1'' @ nul"
definition INFO_DOMAIN :: string where
  "INFO_DOMAIN = ''blindpass:fleet-fulfillment-info:v1'' @ nul"
definition AAD_DOMAIN :: string where
  "AAD_DOMAIN = ''blindpass:fleet-fulfillment-aad:v1'' @ nul"

definition long_id :: "string \<Rightarrow> string \<Rightarrow> (unit, document_error) result" where
  "long_id v label = reject_if (length v < 16 \<or> \<not> is_valid_opaque_id v) (Invalid label)"

definition credential_name :: "string \<Rightarrow> (unit, document_error) result" where
  "credential_name v =
     reject_if (v = [] \<or> 128 < length v \<or> prefix ''.'' v \<or>
       \<not> list_all (\<lambda>b. is_ascii_alphanumeric b \<or> b = CHR ''_'' \<or> b = CHR ''-'' \<or> b = CHR ''.'') v)
       (Invalid ''credential name'')"

definition public_key :: "string \<Rightarrow> string \<Rightarrow> (string, document_error) result" where
  "public_key v label =
     and_then (ok_or (base64_url_decode v 32) (Invalid label)) (\<lambda>bytes.
     and_then (reject_if (list_all (\<lambda>b. byte b = 0) bytes \<or> base64_url_encode bytes \<noteq> v) (Invalid label)) (\<lambda>_.
     Ok bytes))"

section \<open>Parties\<close>

record fulfillment_party =
  fp_node_id :: string
  fp_workload_id :: string
  fp_unit :: string
  fp_credential :: string
  fp_registration_version :: u64
  fp_key_version :: u64
  fp_signing_public :: string
  fp_recipient_public :: string
  fp_fingerprint :: string

definition party_to_value :: "libcrypto \<Rightarrow> fulfillment_party \<Rightarrow> (json_value, document_error) result" where
  "party_to_value lib d =
     and_then (reject_if (\<not> is_valid_opaque_id (fp_node_id d) \<or> \<not> is_valid_opaque_id (fp_workload_id d))
       (Invalid ''fulfillment party identifier'')) (\<lambda>_.
     and_then (validate_unit (fp_unit d)) (\<lambda>_.
     and_then (credential_name (fp_credential d)) (\<lambda>_.
     and_then (reject_if (fp_registration_version d = 0 \<or> fp_key_version d = 0) (Invalid ''fulfillment party version'')) (\<lambda>_.
     and_then (public_key (fp_signing_public d) ''party signing key'') (\<lambda>signing.
     and_then (public_key (fp_recipient_public d) ''party recipient key'') (\<lambda>recipient.
     and_then (map_err Crypto (node_key_fingerprint lib signing recipient)) (\<lambda>computed.
     and_then (reject_if (computed \<noteq> fp_fingerprint d) (Invalid ''party fingerprint'')) (\<lambda>_.
     Ok (Object
       [(''node_id'', String (fp_node_id d)),
        (''workload_id'', String (fp_workload_id d)),
        (''unit'', String (fp_unit d)),
        (''credential'', String (fp_credential d)),
        (''registration_version'', Unsigned (fp_registration_version d)),
        (''key_version'', Unsigned (fp_key_version d)),
        (''signing_public'', String (fp_signing_public d)),
        (''recipient_public'', String (fp_recipient_public d)),
        (''fingerprint'', String (fp_fingerprint d))])))))))))"

definition party_from_value :: "libcrypto \<Rightarrow> json_value \<Rightarrow> (fulfillment_party, document_error) result" where
  "party_from_value lib v =
     and_then (expect_fields v
       [''node_id'', ''workload_id'', ''unit'', ''credential'', ''registration_version'',
        ''key_version'', ''signing_public'', ''recipient_public'', ''fingerprint'']
       []) (\<lambda>_.
     and_then (required_string v ''node_id'') (\<lambda>node_id.
     and_then (required_string v ''workload_id'') (\<lambda>workload_id.
     and_then (required_string v ''unit'') (\<lambda>unit.
     and_then (required_string v ''credential'') (\<lambda>credential.
     and_then (required_number v ''registration_version'') (\<lambda>registration_version.
     and_then (required_number v ''key_version'') (\<lambda>key_version.
     and_then (required_string v ''signing_public'') (\<lambda>signing_public.
     and_then (required_string v ''recipient_public'') (\<lambda>recipient_public.
     and_then (required_string v ''fingerprint'') (\<lambda>fingerprint.
     let d = \<lparr>fp_node_id = node_id, fp_workload_id = workload_id, fp_unit = unit,
         fp_credential = credential, fp_registration_version = registration_version,
         fp_key_version = key_version, fp_signing_public = signing_public,
         fp_recipient_public = recipient_public, fp_fingerprint = fingerprint\<rparr>
     in and_then (party_to_value lib d) (\<lambda>_. Ok d)))))))))))"

definition party_signing_bytes :: "fulfillment_party \<Rightarrow> (string, document_error) result" where
  "party_signing_bytes d = public_key (fp_signing_public d) ''party signing key''"

definition party_key_id :: "fulfillment_party \<Rightarrow> string" where
  "party_key_id d = fp_node_id d @ ''-'' @ dec (unat (fp_key_version d))"

section \<open>Terms\<close>

record fulfillment_terms =
  ft_fulfillment_id :: string
  ft_tenant_id :: string
  ft_issuer :: fulfillment_party
  ft_recipient :: fulfillment_party
  ft_policy_version :: u64
  ft_rule_id :: string
  ft_approval_reference :: "string option"
  ft_prior_fulfillment_id :: "string option"
  ft_max_plaintext_bytes :: u64
  ft_issued_at_ms :: u64
  ft_expires_at_ms :: u64
  ft_issuer_epoch :: u64

definition terms_to_value :: "libcrypto \<Rightarrow> fulfillment_terms \<Rightarrow> (json_value, document_error) result" where
  "terms_to_value lib d =
     and_then (long_id (ft_fulfillment_id d) ''fulfillment id'') (\<lambda>_.
     and_then (reject_if (\<not> is_valid_opaque_id (ft_tenant_id d)) (Invalid ''tenant id'')) (\<lambda>_.
     and_then (validate_token (ft_rule_id d) ''rule id'') (\<lambda>_.
     and_then (case ft_approval_reference d of
         Some reference \<Rightarrow> validate_token reference ''approval reference'' | None \<Rightarrow> Ok ()) (\<lambda>_.
     and_then (case ft_prior_fulfillment_id d of
         Some prior \<Rightarrow> long_id prior ''prior fulfillment id'' | None \<Rightarrow> Ok ()) (\<lambda>_.
     and_then (reject_if (fp_node_id (ft_issuer d) = fp_node_id (ft_recipient d) \<or>
         fp_workload_id (ft_issuer d) = fp_workload_id (ft_recipient d) \<or> ft_policy_version d = 0 \<or>
         ft_issuer_epoch d = 0 \<or> ft_max_plaintext_bytes d = 0 \<or> MAX_PLAINTEXT_BYTES < ft_max_plaintext_bytes d \<or>
         ft_issued_at_ms d = 0 \<or> ft_expires_at_ms d \<le> ft_issued_at_ms d \<or>
         MAX_FULFILLMENT_LIFETIME_MS < ft_expires_at_ms d - ft_issued_at_ms d)
       (Invalid ''fulfillment terms binding or lifetime'')) (\<lambda>_.
     and_then (party_to_value lib (ft_issuer d)) (\<lambda>issuer.
     and_then (party_to_value lib (ft_recipient d)) (\<lambda>recipient.
     Ok (Object
       ([(''version'', Unsigned 1),
         (''fulfillment_id'', String (ft_fulfillment_id d)),
         (''tenant_id'', String (ft_tenant_id d)),
         (''mode'', String MODE_REENCRYPT),
         (''issuer'', issuer),
         (''recipient'', recipient),
         (''policy_version'', Unsigned (ft_policy_version d)),
         (''rule_id'', String (ft_rule_id d)),
         (''max_plaintext_bytes'', Unsigned (ft_max_plaintext_bytes d)),
         (''issued_at_ms'', Unsigned (ft_issued_at_ms d)),
         (''expires_at_ms'', Unsigned (ft_expires_at_ms d)),
         (''issuer_epoch'', Unsigned (ft_issuer_epoch d))] @
        (case ft_approval_reference d of
           Some reference \<Rightarrow> [(''approval_reference'', String reference)] | None \<Rightarrow> []) @
        (case ft_prior_fulfillment_id d of
           Some prior \<Rightarrow> [(''prior_fulfillment_id'', String prior)] | None \<Rightarrow> [])))))))))))"

text \<open>A member that is itself a document.\<close>

definition nested :: "json_value \<Rightarrow> string \<Rightarrow> string \<Rightarrow> (json_value \<Rightarrow> ('a, document_error) result) \<Rightarrow> ('a, document_error) result" where
  "nested v key label f = and_then (ok_or (get v key) (Invalid label)) f"

text \<open>The version and mode of terms, read before the rest; another version is refused before the mode is read.\<close>

definition terms_header :: "json_value \<Rightarrow> (unit, document_error) result" where
  "terms_header v =
     and_then (required_number v ''version'') (\<lambda>version.
     if version \<noteq> 1 then Err (Invalid ''fulfillment terms version or mode'')
     else and_then (required_string v ''mode'') (\<lambda>mode.
       reject_if (mode \<noteq> MODE_REENCRYPT) (Invalid ''fulfillment terms version or mode'')))"

definition terms_from_value :: "libcrypto \<Rightarrow> json_value \<Rightarrow> (fulfillment_terms, document_error) result" where
  "terms_from_value lib v =
     and_then (expect_fields v
       [''version'', ''fulfillment_id'', ''tenant_id'', ''mode'', ''issuer'', ''recipient'',
        ''policy_version'', ''rule_id'', ''max_plaintext_bytes'', ''issued_at_ms'',
        ''expires_at_ms'', ''issuer_epoch'']
       [''approval_reference'', ''prior_fulfillment_id'']) (\<lambda>_.
     and_then (terms_header v) (\<lambda>_.
     and_then (required_string v ''fulfillment_id'') (\<lambda>fulfillment_id.
     and_then (required_string v ''tenant_id'') (\<lambda>tenant_id.
     and_then (nested v ''issuer'' ''issuer'' (party_from_value lib)) (\<lambda>issuer.
     and_then (nested v ''recipient'' ''recipient'' (party_from_value lib)) (\<lambda>recipient.
     and_then (required_number v ''policy_version'') (\<lambda>policy_version.
     and_then (required_string v ''rule_id'') (\<lambda>rule_id.
     and_then (optional_string v ''approval_reference'' ''approval reference'') (\<lambda>approval_reference.
     and_then (optional_string v ''prior_fulfillment_id'' ''prior id'') (\<lambda>prior_fulfillment_id.
     and_then (required_number v ''max_plaintext_bytes'') (\<lambda>max_plaintext_bytes.
     and_then (required_number v ''issued_at_ms'') (\<lambda>issued_at_ms.
     and_then (required_number v ''expires_at_ms'') (\<lambda>expires_at_ms.
     and_then (required_number v ''issuer_epoch'') (\<lambda>issuer_epoch.
     let d = \<lparr>ft_fulfillment_id = fulfillment_id, ft_tenant_id = tenant_id, ft_issuer = issuer,
         ft_recipient = recipient, ft_policy_version = policy_version, ft_rule_id = rule_id,
         ft_approval_reference = approval_reference,
         ft_prior_fulfillment_id = prior_fulfillment_id,
         ft_max_plaintext_bytes = max_plaintext_bytes, ft_issued_at_ms = issued_at_ms,
         ft_expires_at_ms = expires_at_ms, ft_issuer_epoch = issuer_epoch\<rparr>
     in and_then (terms_to_value lib d) (\<lambda>_. Ok d)))))))))))))))"

definition terms_digest :: "libcrypto \<Rightarrow> fulfillment_terms \<Rightarrow> (string, document_error) result" where
  "terms_digest lib d =
     and_then (terms_to_value lib d) (\<lambda>v.
     and_then (map_err Canonical (canonicalize_value v)) (\<lambda>canonical.
     map_err Crypto (sha256 lib (TERMS_DOMAIN @ canonical))))"

definition terms_digest_hex :: "libcrypto \<Rightarrow> fulfillment_terms \<Rightarrow> (string, document_error) result" where
  "terms_digest_hex lib d = and_then (terms_digest lib d) (\<lambda>digest. Ok (hex digest))"

definition contains_window :: "fulfillment_terms \<Rightarrow> u64 \<Rightarrow> u64 \<Rightarrow> bool" where
  "contains_window d issued_at_ms expires_at_ms \<longleftrightarrow>
     ft_issued_at_ms d \<le> issued_at_ms \<and> expires_at_ms \<le> ft_expires_at_ms d"

section \<open>Offers\<close>

record fulfillment_offer =
  fo_fulfillment_id :: string
  fo_terms_digest :: string
  fo_offer_id :: string
  fo_node_id :: string
  fo_node_key_version :: u64
  fo_recipient_public :: string
  fo_issued_at_ms :: u64
  fo_expires_at_ms :: u64

definition offer_to_value :: "fulfillment_offer \<Rightarrow> (json_value, document_error) result" where
  "offer_to_value d =
     and_then (long_id (fo_fulfillment_id d) ''fulfillment id'') (\<lambda>_.
     and_then (long_id (fo_offer_id d) ''offer id'') (\<lambda>_.
     and_then (reject_if (\<not> valid_sha256_hex (fo_terms_digest d) \<or> \<not> is_valid_opaque_id (fo_node_id d) \<or>
         fo_node_key_version d = 0 \<or> fo_issued_at_ms d = 0 \<or> fo_expires_at_ms d \<le> fo_issued_at_ms d \<or>
         MAX_OFFER_LIFETIME_MS < fo_expires_at_ms d - fo_issued_at_ms d)
       (Invalid ''fulfillment offer binding or lifetime'')) (\<lambda>_.
     and_then (public_key (fo_recipient_public d) ''offer key'') (\<lambda>_.
     Ok (Object
       [(''fulfillment_id'', String (fo_fulfillment_id d)),
        (''terms_digest'', String (fo_terms_digest d)),
        (''offer_id'', String (fo_offer_id d)),
        (''node_id'', String (fo_node_id d)),
        (''node_key_version'', Unsigned (fo_node_key_version d)),
        (''recipient_public'', String (fo_recipient_public d)),
        (''issued_at_ms'', Unsigned (fo_issued_at_ms d)),
        (''expires_at_ms'', Unsigned (fo_expires_at_ms d))])))))"

definition offer_from_value :: "json_value \<Rightarrow> (fulfillment_offer, document_error) result" where
  "offer_from_value v =
     and_then (expect_fields v
       [''fulfillment_id'', ''terms_digest'', ''offer_id'', ''node_id'', ''node_key_version'',
        ''recipient_public'', ''issued_at_ms'', ''expires_at_ms'']
       []) (\<lambda>_.
     and_then (required_string v ''fulfillment_id'') (\<lambda>fulfillment_id.
     and_then (required_string v ''terms_digest'') (\<lambda>terms_digest.
     and_then (required_string v ''offer_id'') (\<lambda>offer_id.
     and_then (required_string v ''node_id'') (\<lambda>node_id.
     and_then (required_number v ''node_key_version'') (\<lambda>node_key_version.
     and_then (required_string v ''recipient_public'') (\<lambda>recipient_public.
     and_then (required_number v ''issued_at_ms'') (\<lambda>issued_at_ms.
     and_then (required_number v ''expires_at_ms'') (\<lambda>expires_at_ms.
     let d = \<lparr>fo_fulfillment_id = fulfillment_id, fo_terms_digest = terms_digest,
         fo_offer_id = offer_id, fo_node_id = node_id, fo_node_key_version = node_key_version,
         fo_recipient_public = recipient_public, fo_issued_at_ms = issued_at_ms,
         fo_expires_at_ms = expires_at_ms\<rparr>
     in and_then (offer_to_value d) (\<lambda>_. Ok d))))))))))"

definition offer_recipient_key :: "fulfillment_offer \<Rightarrow> (string, document_error) result" where
  "offer_recipient_key d = public_key (fo_recipient_public d) ''offer key''"

section \<open>Submissions\<close>

record fulfillment_submit =
  fs_fulfillment_id :: string
  fs_terms_digest :: string
  fs_offer_id :: string
  fs_node_id :: string
  fs_node_key_version :: u64
  fs_enc :: string
  fs_ciphertext :: string
  fs_ciphertext_digest :: string
  fs_issued_at_ms :: u64

definition submit_sealed_bytes :: "fulfillment_submit \<Rightarrow> (string \<times> string, document_error) result" where
  "submit_sealed_bytes d =
     and_then (public_key (fs_enc d) ''encapsulation'') (\<lambda>enc.
     and_then (reject_if (2 ^ 64 \<le> length (fs_ciphertext d) * 3) (Invalid ''ciphertext'')) (\<lambda>_.
     let size = length (fs_ciphertext d) * 3 div 4; maximum = unat MAX_PLAINTEXT_BYTES + AEAD_TAG_BYTES in
     and_then (reject_if (\<not> (AEAD_TAG_BYTES + 1 \<le> size \<and> size \<le> maximum)) (Invalid ''ciphertext length'')) (\<lambda>_.
     and_then (ok_or (base64_url_decode (fs_ciphertext d) size) (Invalid ''ciphertext'')) (\<lambda>ciphertext.
     and_then (reject_if (base64_url_encode ciphertext \<noteq> fs_ciphertext d) (Invalid ''ciphertext encoding'')) (\<lambda>_.
     Ok (enc, ciphertext))))))"

definition submit_to_value :: "fulfillment_submit \<Rightarrow> (json_value, document_error) result" where
  "submit_to_value d =
     and_then (long_id (fs_fulfillment_id d) ''fulfillment id'') (\<lambda>_.
     and_then (long_id (fs_offer_id d) ''offer id'') (\<lambda>_.
     and_then (reject_if (\<not> valid_sha256_hex (fs_terms_digest d) \<or> \<not> valid_sha256_hex (fs_ciphertext_digest d) \<or>
         \<not> is_valid_opaque_id (fs_node_id d) \<or> fs_node_key_version d = 0 \<or> fs_issued_at_ms d = 0)
       (Invalid ''fulfillment submission binding'')) (\<lambda>_.
     and_then (submit_sealed_bytes d) (\<lambda>_.
     Ok (Object
       [(''fulfillment_id'', String (fs_fulfillment_id d)),
        (''terms_digest'', String (fs_terms_digest d)),
        (''offer_id'', String (fs_offer_id d)),
        (''node_id'', String (fs_node_id d)),
        (''node_key_version'', Unsigned (fs_node_key_version d)),
        (''enc'', String (fs_enc d)),
        (''ciphertext'', String (fs_ciphertext d)),
        (''ciphertext_digest'', String (fs_ciphertext_digest d)),
        (''issued_at_ms'', Unsigned (fs_issued_at_ms d))])))))"

definition submit_from_value :: "json_value \<Rightarrow> (fulfillment_submit, document_error) result" where
  "submit_from_value v =
     and_then (expect_fields v
       [''fulfillment_id'', ''terms_digest'', ''offer_id'', ''node_id'', ''node_key_version'',
        ''enc'', ''ciphertext'', ''ciphertext_digest'', ''issued_at_ms'']
       []) (\<lambda>_.
     and_then (required_string v ''fulfillment_id'') (\<lambda>fulfillment_id.
     and_then (required_string v ''terms_digest'') (\<lambda>terms_digest.
     and_then (required_string v ''offer_id'') (\<lambda>offer_id.
     and_then (required_string v ''node_id'') (\<lambda>node_id.
     and_then (required_number v ''node_key_version'') (\<lambda>node_key_version.
     and_then (required_string v ''enc'') (\<lambda>enc.
     and_then (required_string v ''ciphertext'') (\<lambda>ciphertext.
     and_then (required_string v ''ciphertext_digest'') (\<lambda>ciphertext_digest.
     and_then (required_number v ''issued_at_ms'') (\<lambda>issued_at_ms.
     let d = \<lparr>fs_fulfillment_id = fulfillment_id, fs_terms_digest = terms_digest,
         fs_offer_id = offer_id, fs_node_id = node_id, fs_node_key_version = node_key_version,
         fs_enc = enc, fs_ciphertext = ciphertext, fs_ciphertext_digest = ciphertext_digest,
         fs_issued_at_ms = issued_at_ms\<rparr>
     in and_then (submit_to_value d) (\<lambda>_. Ok d)))))))))))"

definition submit_computed_digest :: "libcrypto \<Rightarrow> fulfillment_submit \<Rightarrow> (string, document_error) result" where
  "submit_computed_digest lib d =
     and_then (submit_sealed_bytes d) (\<lambda>(enc, ciphertext).
     and_then (map_err Crypto (sha256 lib (enc @ ciphertext))) (\<lambda>digest.
     Ok (hex digest)))"

definition fulfillment_info :: "libcrypto \<Rightarrow> fulfillment_terms \<Rightarrow> (string, document_error) result" where
  "fulfillment_info lib d = and_then (terms_digest lib d) (\<lambda>digest. Ok (INFO_DOMAIN @ digest))"

definition fulfillment_aad :: "fulfillment_offer \<Rightarrow> (string, document_error) result" where
  "fulfillment_aad d =
     and_then (map_err Canonical (canonicalize_value (Object
       [(''offer_id'', String (fo_offer_id d)),
        (''recipient_public'', String (fo_recipient_public d)),
        (''terms_digest'', String (fo_terms_digest d))]))) (\<lambda>canonical.
     Ok (AAD_DOMAIN @ canonical))"

definition offer_matches_terms :: "libcrypto \<Rightarrow> fulfillment_offer \<Rightarrow> fulfillment_terms \<Rightarrow> (unit, document_error) result" where
  "offer_matches_terms lib offer terms =
     (if fo_fulfillment_id offer \<noteq> ft_fulfillment_id terms then Err (Invalid ''offer does not match terms'')
      else and_then (terms_digest_hex lib terms) (\<lambda>digest.
        reject_if (fo_terms_digest offer \<noteq> digest \<or> fo_node_id offer \<noteq> fp_node_id (ft_recipient terms) \<or>
          fo_node_key_version offer \<noteq> fp_key_version (ft_recipient terms) \<or>
          \<not> contains_window terms (fo_issued_at_ms offer) (fo_expires_at_ms offer))
          (Invalid ''offer does not match terms'')))"

section \<open>Revocations and results\<close>

datatype fulfillment_side = Issuer | Recipient

fun side_str :: "fulfillment_side \<Rightarrow> string" where
  "side_str Issuer = ''issuer''"
| "side_str Recipient = ''recipient''"

definition side_parse :: "string \<Rightarrow> fulfillment_side option" where
  "side_parse v = (if v = ''issuer'' then Some Issuer else if v = ''recipient'' then Some Recipient else None)"

datatype revocation_reason = ROperator | RExpired | RPolicy | RRecovery | RFeatureDisabled | RFailed

fun reason_str :: "revocation_reason \<Rightarrow> string" where
  "reason_str ROperator = ''operator''"
| "reason_str RExpired = ''expired''"
| "reason_str RPolicy = ''policy''"
| "reason_str RRecovery = ''recovery''"
| "reason_str RFeatureDisabled = ''feature_disabled''"
| "reason_str RFailed = ''failed''"

definition reason_parse :: "string \<Rightarrow> revocation_reason option" where
  "reason_parse v =
     (if v = ''operator'' then Some ROperator
      else if v = ''expired'' then Some RExpired
      else if v = ''policy'' then Some RPolicy
      else if v = ''recovery'' then Some RRecovery
      else if v = ''feature_disabled'' then Some RFeatureDisabled
      else if v = ''failed'' then Some RFailed
      else None)"

datatype result_state = Stored | Consumed | Failed

fun state_str :: "result_state \<Rightarrow> string" where
  "state_str Stored = ''stored''"
| "state_str Consumed = ''consumed''"
| "state_str Failed = ''failed''"

definition state_parse :: "string \<Rightarrow> result_state option" where
  "state_parse v =
     (if v = ''stored'' then Some Stored
      else if v = ''consumed'' then Some Consumed
      else if v = ''failed'' then Some Failed
      else None)"

record fulfillment_revocation =
  fv_fulfillment_id :: string
  fv_terms_digest :: string
  fv_node_id :: string
  fv_reason :: revocation_reason
  fv_revoked_at_ms :: u64
  fv_retain_until_ms :: u64
  fv_issuer_epoch :: u64

definition fulfillment_revocation_to_value :: "fulfillment_revocation \<Rightarrow> (json_value, document_error) result" where
  "fulfillment_revocation_to_value d =
     and_then (long_id (fv_fulfillment_id d) ''fulfillment id'') (\<lambda>_.
     and_then (reject_if (\<not> valid_sha256_hex (fv_terms_digest d) \<or> \<not> is_valid_opaque_id (fv_node_id d) \<or>
         fv_revoked_at_ms d = 0 \<or> fv_retain_until_ms d < fv_revoked_at_ms d \<or> fv_issuer_epoch d = 0)
       (Invalid ''fulfillment revocation binding'')) (\<lambda>_.
     Ok (Object
       [(''fulfillment_id'', String (fv_fulfillment_id d)),
        (''terms_digest'', String (fv_terms_digest d)),
        (''node_id'', String (fv_node_id d)),
        (''reason'', String (reason_str (fv_reason d))),
        (''revoked_at_ms'', Unsigned (fv_revoked_at_ms d)),
        (''retain_until_ms'', Unsigned (fv_retain_until_ms d)),
        (''issuer_epoch'', Unsigned (fv_issuer_epoch d))])))"

definition fulfillment_revocation_from_value :: "json_value \<Rightarrow> (fulfillment_revocation, document_error) result" where
  "fulfillment_revocation_from_value v =
     and_then (expect_fields v
       [''fulfillment_id'', ''terms_digest'', ''node_id'', ''reason'', ''revoked_at_ms'',
        ''retain_until_ms'', ''issuer_epoch'']
       []) (\<lambda>_.
     and_then (required_string v ''fulfillment_id'') (\<lambda>fulfillment_id.
     and_then (required_string v ''terms_digest'') (\<lambda>terms_digest.
     and_then (required_string v ''node_id'') (\<lambda>node_id.
     and_then (required_string v ''reason'') (\<lambda>text.
     and_then (ok_or (reason_parse text) (Invalid ''revocation reason'')) (\<lambda>reason.
     and_then (required_number v ''revoked_at_ms'') (\<lambda>revoked_at_ms.
     and_then (required_number v ''retain_until_ms'') (\<lambda>retain_until_ms.
     and_then (required_number v ''issuer_epoch'') (\<lambda>issuer_epoch.
     let d = \<lparr>fv_fulfillment_id = fulfillment_id, fv_terms_digest = terms_digest, fv_node_id = node_id,
         fv_reason = reason, fv_revoked_at_ms = revoked_at_ms,
         fv_retain_until_ms = retain_until_ms, fv_issuer_epoch = issuer_epoch\<rparr>
     in and_then (fulfillment_revocation_to_value d) (\<lambda>_. Ok d))))))))))"

record fulfillment_result =
  fx_fulfillment_id :: string
  fx_terms_digest :: string
  fx_side :: fulfillment_side
  fx_state :: result_state
  fx_code :: "string option"
  fx_observed_at_ms :: u64

definition valid_code :: "string \<Rightarrow> bool" where
  "valid_code code \<longleftrightarrow>
     code \<noteq> [] \<and> length code \<le> 64 \<and>
     list_all (\<lambda>b. is_ascii_lowercase b \<or> b = CHR ''_'' \<or> is_ascii_digit b) code"

text \<open>The arms of the match on side, state and code that are accepted.\<close>

definition result_shape :: "fulfillment_side \<Rightarrow> result_state \<Rightarrow> string option \<Rightarrow> bool" where
  "result_shape side state code \<longleftrightarrow>
     (case (side, state, code) of
        (Recipient, Stored, None) \<Rightarrow> True
      | (Recipient, Consumed, None) \<Rightarrow> True
      | (_, Failed, Some code) \<Rightarrow> valid_code code
      | _ \<Rightarrow> False)"

definition fulfillment_result_to_value :: "fulfillment_result \<Rightarrow> (json_value, document_error) result" where
  "fulfillment_result_to_value d =
     and_then (long_id (fx_fulfillment_id d) ''fulfillment id'') (\<lambda>_.
     and_then (reject_if (\<not> valid_sha256_hex (fx_terms_digest d) \<or> fx_observed_at_ms d = 0)
       (Invalid ''fulfillment result binding'')) (\<lambda>_.
     and_then (reject_if (\<not> result_shape (fx_side d) (fx_state d) (fx_code d)) (Invalid ''fulfillment result state'')) (\<lambda>_.
     Ok (Object
       ([(''fulfillment_id'', String (fx_fulfillment_id d)),
         (''terms_digest'', String (fx_terms_digest d)),
         (''side'', String (side_str (fx_side d))),
         (''state'', String (state_str (fx_state d))),
         (''observed_at_ms'', Unsigned (fx_observed_at_ms d))] @
        (case fx_code d of Some code \<Rightarrow> [(''code'', String code)] | None \<Rightarrow> []))))))"

definition fulfillment_result_from_value :: "json_value \<Rightarrow> (fulfillment_result, document_error) result" where
  "fulfillment_result_from_value v =
     and_then (expect_fields v
       [''fulfillment_id'', ''terms_digest'', ''side'', ''state'', ''observed_at_ms'']
       [''code'']) (\<lambda>_.
     and_then (required_string v ''fulfillment_id'') (\<lambda>fulfillment_id.
     and_then (required_string v ''terms_digest'') (\<lambda>terms_digest.
     and_then (required_string v ''side'') (\<lambda>text.
     and_then (ok_or (side_parse text) (Invalid ''result side'')) (\<lambda>side.
     and_then (required_string v ''state'') (\<lambda>text.
     and_then (ok_or (state_parse text) (Invalid ''result state'')) (\<lambda>state.
     and_then (optional_string v ''code'' ''result code'') (\<lambda>code.
     and_then (required_number v ''observed_at_ms'') (\<lambda>observed_at_ms.
     let d = \<lparr>fx_fulfillment_id = fulfillment_id, fx_terms_digest = terms_digest, fx_side = side,
         fx_state = state, fx_code = code, fx_observed_at_ms = observed_at_ms\<rparr>
     in and_then (fulfillment_result_to_value d) (\<lambda>_. Ok d))))))))))"

section \<open>The codecs obey the contract\<close>

lemma side_parse_Some: "side_parse s = Some x \<longleftrightarrow> s = side_str x"
  by (cases x) (auto simp: side_parse_def)

lemma state_parse_Some: "state_parse s = Some x \<longleftrightarrow> s = state_str x"
  by (cases x) (auto simp: state_parse_def)

lemma reason_parse_Some: "reason_parse s = Some x \<longleftrightarrow> s = reason_str x"
  by (cases x) (auto simp: reason_parse_def)

lemmas parse_Some = side_parse_Some state_parse_Some reason_parse_Some

lemma side_ascii [simp]: "is_ascii (side_str x)"
  by (cases x) simp_all

lemma state_ascii [simp]: "is_ascii (state_str x)"
  by (cases x) simp_all

lemma reason_ascii [simp]: "is_ascii (reason_str x)"
  by (cases x) simp_all

lemma public_key_Ok:
  "public_key v label = Ok bytes \<longleftrightarrow> length bytes = 32 \<and> \<not> list_all (\<lambda>b. byte b = 0) bytes \<and> v = base64_url_encode bytes"
proof
  assume "public_key v label = Ok bytes"
  then show "length bytes = 32 \<and> \<not> list_all (\<lambda>b. byte b = 0) bytes \<and> v = base64_url_encode bytes"
    by (auto simp: public_key_def dest!: base64_decode_Some)
next
  assume a: "length bytes = 32 \<and> \<not> list_all (\<lambda>b. byte b = 0) bytes \<and> v = base64_url_encode bytes"
  then have "bytes \<noteq> []" by auto
  from base64_decode_encode [OF this] a show "public_key v label = Ok bytes" by (simp add: public_key_def)
qed

lemma long_id_Ok [simp]: "long_id v label = Ok u \<longleftrightarrow> 16 \<le> length v \<and> is_valid_opaque_id v"
  by (auto simp: long_id_def)

lemma public_key_ascii: "public_key v label = Ok bytes \<Longrightarrow> is_ascii v"
  by (simp add: public_key_Ok)

lemma credential_ascii [simp]: "credential_name v = Ok u \<Longrightarrow> is_ascii v"
  by (auto simp: credential_name_def is_ascii_def list_all_iff dest: ascii_less)

lemma code_ascii [simp]: "valid_code v \<Longrightarrow> is_ascii v"
  by (auto simp: valid_code_def is_ascii_def list_all_iff dest: ascii_less)

lemma result_code_ascii: "result_shape side state (Some code) \<Longrightarrow> is_ascii code"
  by (cases side; cases state) (auto simp: result_shape_def)

lemma sealed_bytes_Ok:
  assumes "submit_sealed_bytes d = Ok x"
  shows "public_key (fs_enc d) ''encapsulation'' = Ok (fst x) \<and> base64_url_encode (snd x) = fs_ciphertext d \<and>
     16 < length (snd x) \<and> length (snd x) \<le> unat MAX_PLAINTEXT_BYTES + AEAD_TAG_BYTES"
proof -
  let ?size = "length (fs_ciphertext d) * 3 div 4"
  from assms obtain enc ct where x: "public_key (fs_enc d) ''encapsulation'' = Ok enc" "x = (enc, ct)"
      "base64_url_decode (fs_ciphertext d) ?size = Some ct" "base64_url_encode ct = fs_ciphertext d"
      and size: "AEAD_TAG_BYTES + 1 \<le> ?size" "?size \<le> unat MAX_PLAINTEXT_BYTES + AEAD_TAG_BYTES"
    unfolding submit_sealed_bytes_def Let_def and_then_eq_Ok reject_if_eq_Ok ok_or_eq_Ok not_not result.inject by blast
  from base64_decode_Some [OF x(3)] have "?size = length ct" by metis
  then show ?thesis
    using x(1,2,4) size unfolding AEAD_TAG_BYTES_def by (metis Suc_eq_plus1 Suc_le_eq fst_conv snd_conv)
qed

lemma sealed_ascii: "submit_sealed_bytes d = Ok x \<Longrightarrow> is_ascii (fs_enc d) \<and> is_ascii (fs_ciphertext d)"
  by (drule sealed_bytes_Ok) (metis base64_ascii public_key_ascii)

lemma party_read_back: "party_to_value lib d = Ok v \<Longrightarrow> party_from_value lib v = Ok d"
  by (cases d) (auto simp: party_to_value_def party_from_value_def field_eval)

lemma party_faithful: "party_from_value lib v = Ok d \<Longrightarrow> party_to_value lib d = Ok w \<Longrightarrow> norm w = norm v"
  unfolding party_from_value_def party_to_value_def Let_def
  by (clarsimp simp: required_Ok simp del: norm.simps)
    (rule norm_eq_of_fields, assumption, auto simp: norm_number dest!: public_key_ascii fingerprint_ascii)

interpretation parties: exact_codec "party_from_value lib" "party_to_value lib" for lib
proof unfold_locales
  show "party_from_value lib (norm v) = party_from_value lib v" for v
    unfolding party_from_value_def by (intro and_then_cong [OF expect_fields_norm]) (simp add: fields_norm)
  show "\<exists>w. party_to_value lib d = Ok w" if "party_from_value lib v = Ok d" for v d
    using that by (auto simp: party_from_value_def Let_def)
  show "wire_safe v" if "party_to_value lib d = Ok v" for d v
    using that by (auto simp: party_to_value_def wire_safe_def dest!: public_key_ascii fingerprint_ascii)
qed (fact party_read_back party_faithful)+

lemma offer_read_back: "offer_to_value d = Ok v \<Longrightarrow> offer_from_value v = Ok d"
  by (cases d) (auto simp: offer_to_value_def offer_from_value_def field_eval)

lemma offer_faithful: "offer_from_value v = Ok d \<Longrightarrow> offer_to_value d = Ok w \<Longrightarrow> norm w = norm v"
  unfolding offer_from_value_def offer_to_value_def Let_def
  by (clarsimp simp: required_Ok simp del: norm.simps)
    (rule norm_eq_of_fields, assumption, auto simp: norm_number dest!: public_key_ascii)

interpretation offers: exact_codec offer_from_value offer_to_value
proof unfold_locales
  show "offer_from_value (norm v) = offer_from_value v" for v
    unfolding offer_from_value_def by (intro and_then_cong [OF expect_fields_norm]) (simp add: fields_norm)
  show "\<exists>w. offer_to_value d = Ok w" if "offer_from_value v = Ok d" for v d
    using that by (auto simp: offer_from_value_def Let_def)
  show "wire_safe v" if "offer_to_value d = Ok v" for d v
    using that by (auto simp: offer_to_value_def wire_safe_def dest!: public_key_ascii)
qed (fact offer_read_back offer_faithful)+

lemma submit_read_back: "submit_to_value d = Ok v \<Longrightarrow> submit_from_value v = Ok d"
  by (cases d) (auto simp: submit_to_value_def submit_from_value_def field_eval)

lemma submit_faithful: "submit_from_value v = Ok d \<Longrightarrow> submit_to_value d = Ok w \<Longrightarrow> norm w = norm v"
  unfolding submit_from_value_def submit_to_value_def Let_def
  by (clarsimp simp: required_Ok simp del: norm.simps)
    (rule norm_eq_of_fields, assumption, auto simp: norm_number dest!: sealed_ascii)

interpretation submits: exact_codec submit_from_value submit_to_value
proof unfold_locales
  show "submit_from_value (norm v) = submit_from_value v" for v
    unfolding submit_from_value_def by (intro and_then_cong [OF expect_fields_norm]) (simp add: fields_norm)
  show "\<exists>w. submit_to_value d = Ok w" if "submit_from_value v = Ok d" for v d
    using that by (auto simp: submit_from_value_def Let_def)
  show "wire_safe v" if "submit_to_value d = Ok v" for d v
    using that by (auto simp: submit_to_value_def wire_safe_def dest!: sealed_ascii)
qed (fact submit_read_back submit_faithful)+

lemma fulfillment_revocation_read_back: "fulfillment_revocation_to_value d = Ok v \<Longrightarrow> fulfillment_revocation_from_value v = Ok d"
  by (cases d) (auto simp: fulfillment_revocation_to_value_def fulfillment_revocation_from_value_def field_eval parse_Some)

lemma fulfillment_revocation_faithful: "fulfillment_revocation_from_value v = Ok d \<Longrightarrow> fulfillment_revocation_to_value d = Ok w \<Longrightarrow> norm w = norm v"
  unfolding fulfillment_revocation_from_value_def fulfillment_revocation_to_value_def Let_def
  by (clarsimp simp: required_Ok parse_Some simp del: norm.simps)
    (rule norm_eq_of_fields, assumption, auto simp: norm_number)

interpretation fulfillment_revocations: exact_codec fulfillment_revocation_from_value fulfillment_revocation_to_value
proof unfold_locales
  show "fulfillment_revocation_from_value (norm v) = fulfillment_revocation_from_value v" for v
    unfolding fulfillment_revocation_from_value_def by (intro and_then_cong [OF expect_fields_norm]) (simp add: fields_norm)
  show "\<exists>w. fulfillment_revocation_to_value d = Ok w" if "fulfillment_revocation_from_value v = Ok d" for v d
    using that by (auto simp: fulfillment_revocation_from_value_def Let_def)
  show "wire_safe v" if "fulfillment_revocation_to_value d = Ok v" for d v
    using that by (auto simp: fulfillment_revocation_to_value_def wire_safe_def)
qed (fact fulfillment_revocation_read_back fulfillment_revocation_faithful)+

lemma fulfillment_result_read_back: "fulfillment_result_to_value d = Ok v \<Longrightarrow> fulfillment_result_from_value v = Ok d"
  by (cases d; cases "fx_code d") (auto simp: fulfillment_result_to_value_def fulfillment_result_from_value_def field_eval parse_Some)

lemma fulfillment_result_faithful: "fulfillment_result_from_value v = Ok d \<Longrightarrow> fulfillment_result_to_value d = Ok w \<Longrightarrow> norm w = norm v"
  unfolding fulfillment_result_from_value_def fulfillment_result_to_value_def Let_def
  by (clarsimp simp: required_Ok parse_Some simp del: norm.simps)
    (rule norm_eq_of_fields, assumption, auto simp: norm_number dest: result_code_ascii split: option.split option.split_asm)

interpretation fulfillment_results: exact_codec fulfillment_result_from_value fulfillment_result_to_value
proof unfold_locales
  show "fulfillment_result_from_value (norm v) = fulfillment_result_from_value v" for v
    unfolding fulfillment_result_from_value_def by (intro and_then_cong [OF expect_fields_norm]) (simp add: fields_norm)
  show "\<exists>w. fulfillment_result_to_value d = Ok w" if "fulfillment_result_from_value v = Ok d" for v d
    using that by (auto simp: fulfillment_result_from_value_def Let_def)
  show "wire_safe v" if "fulfillment_result_to_value d = Ok v" for d v
    using that by (auto simp: fulfillment_result_to_value_def wire_safe_def dest: result_code_ascii split: option.split option.split_asm)
qed (fact fulfillment_result_read_back fulfillment_result_faithful)+

lemma nested_norm:
  "expect_fields v required optional = Ok u \<Longrightarrow> (\<And>x. f (norm x) = f x) \<Longrightarrow> nested (norm v) key label f = nested v key label f"
  by (cases "get v key") (simp_all add: nested_def get_norm)

lemma nested_Ok: "nested v key label f = Ok y \<longleftrightarrow> (\<exists>x. get v key = Some x \<and> f x = Ok y)"
  by (simp add: nested_def)

lemma terms_header_norm:
  assumes "expect_fields v required optional = Ok u"
  shows "terms_header (norm v) = terms_header v"
  unfolding terms_header_def fields_norm [OF assms] ..

lemma terms_header_Ok:
  "terms_header v = Ok u \<longleftrightarrow>
    (\<exists>x. get v ''version'' = Some x \<and> as_u64 x = Some 1) \<and> get v ''mode'' = Some (String MODE_REENCRYPT)"
  by (auto simp: terms_header_def required_Ok)

lemma terms_to_value_Ok:
  "terms_to_value lib d = Ok v \<longleftrightarrow>
    (\<exists>issuer recipient. party_to_value lib (ft_issuer d) = Ok issuer \<and> party_to_value lib (ft_recipient d) = Ok recipient \<and>
      16 \<le> length (ft_fulfillment_id d) \<and> is_valid_opaque_id (ft_fulfillment_id d) \<and> is_valid_opaque_id (ft_tenant_id d) \<and>
      validate_token (ft_rule_id d) ''rule id'' = Ok () \<and>
      (case ft_approval_reference d of None \<Rightarrow> True | Some r \<Rightarrow> validate_token r ''approval reference'' = Ok ()) \<and>
      (case ft_prior_fulfillment_id d of None \<Rightarrow> True | Some r \<Rightarrow> 16 \<le> length r \<and> is_valid_opaque_id r) \<and>
      fp_node_id (ft_issuer d) \<noteq> fp_node_id (ft_recipient d) \<and> fp_workload_id (ft_issuer d) \<noteq> fp_workload_id (ft_recipient d) \<and>
      ft_policy_version d \<noteq> 0 \<and> ft_issuer_epoch d \<noteq> 0 \<and> ft_max_plaintext_bytes d \<noteq> 0 \<and>
      ft_max_plaintext_bytes d \<le> MAX_PLAINTEXT_BYTES \<and> ft_issued_at_ms d \<noteq> 0 \<and> ft_issued_at_ms d < ft_expires_at_ms d \<and>
      ft_expires_at_ms d - ft_issued_at_ms d \<le> MAX_FULFILLMENT_LIFETIME_MS \<and>
      v = Object
       ([(''version'', Unsigned 1), (''fulfillment_id'', String (ft_fulfillment_id d)),
         (''tenant_id'', String (ft_tenant_id d)), (''mode'', String MODE_REENCRYPT), (''issuer'', issuer),
         (''recipient'', recipient), (''policy_version'', Unsigned (ft_policy_version d)),
         (''rule_id'', String (ft_rule_id d)), (''max_plaintext_bytes'', Unsigned (ft_max_plaintext_bytes d)),
         (''issued_at_ms'', Unsigned (ft_issued_at_ms d)), (''expires_at_ms'', Unsigned (ft_expires_at_ms d)),
         (''issuer_epoch'', Unsigned (ft_issuer_epoch d))] @
        (case ft_approval_reference d of Some reference \<Rightarrow> [(''approval_reference'', String reference)] | None \<Rightarrow> []) @
        (case ft_prior_fulfillment_id d of Some prior \<Rightarrow> [(''prior_fulfillment_id'', String prior)] | None \<Rightarrow> [])))"
  unfolding terms_to_value_def by (cases "ft_approval_reference d"; cases "ft_prior_fulfillment_id d") (auto simp: not_less not_le)

lemma terms_read_back: "terms_to_value lib d = Ok v \<Longrightarrow> terms_from_value lib v = Ok d"
proof -
  assume a: "terms_to_value lib d = Ok v"
  then obtain issuer recipient where p: "party_from_value lib issuer = Ok (ft_issuer d)"
      "party_from_value lib recipient = Ok (ft_recipient d)" and v: "v = Object
       ([(''version'', Unsigned 1), (''fulfillment_id'', String (ft_fulfillment_id d)),
         (''tenant_id'', String (ft_tenant_id d)), (''mode'', String MODE_REENCRYPT), (''issuer'', issuer),
         (''recipient'', recipient), (''policy_version'', Unsigned (ft_policy_version d)),
         (''rule_id'', String (ft_rule_id d)), (''max_plaintext_bytes'', Unsigned (ft_max_plaintext_bytes d)),
         (''issued_at_ms'', Unsigned (ft_issued_at_ms d)), (''expires_at_ms'', Unsigned (ft_expires_at_ms d)),
         (''issuer_epoch'', Unsigned (ft_issuer_epoch d))] @
        (case ft_approval_reference d of Some reference \<Rightarrow> [(''approval_reference'', String reference)] | None \<Rightarrow> []) @
        (case ft_prior_fulfillment_id d of Some prior \<Rightarrow> [(''prior_fulfillment_id'', String prior)] | None \<Rightarrow> []))"
    unfolding terms_to_value_Ok using parties.read_back by blast
  have "terms_from_value lib v = and_then (terms_to_value lib d) (\<lambda>_. Ok d)"
    unfolding v terms_from_value_def using p
    by (cases d; cases "ft_approval_reference d"; cases "ft_prior_fulfillment_id d")
      (simp_all add: field_eval nested_def terms_header_def Let_def)
  with a show ?thesis by simp
qed

lemma terms_faithful:
  assumes "terms_from_value lib v = Ok d" "terms_to_value lib d = Ok w"
  shows "norm w = norm v"
proof -
  from assms(1) obtain issuer recipient where
    p: "party_from_value lib issuer = Ok (ft_issuer d)" "party_from_value lib recipient = Ok (ft_recipient d)"
    and f: "get v ''issuer'' = Some issuer" "get v ''recipient'' = Some recipient"
    by (auto simp: terms_from_value_def nested_Ok Let_def)
  have n: "party_to_value lib (ft_issuer d) = Ok x \<Longrightarrow> norm x = norm issuer"
    "party_to_value lib (ft_recipient d) = Ok y \<Longrightarrow> norm y = norm recipient" for x y
    using parties.faithful p by blast+
  show ?thesis
    using assms n f unfolding terms_from_value_def terms_to_value_Ok Let_def
    by (clarsimp simp: required_Ok nested_Ok terms_header_Ok simp del: norm.simps)
      (rule norm_eq_of_fields, assumption, auto simp: norm_number split: option.split)
qed

lemma party_count: "party_to_value lib d = Ok v \<Longrightarrow> value_count v = 10"
  by (auto simp: party_to_value_def)

interpretation terms: exact_codec "terms_from_value lib" "terms_to_value lib" for lib
proof unfold_locales
  show "terms_from_value lib (norm v) = terms_from_value lib v" for v
    unfolding terms_from_value_def
    by (intro and_then_cong [OF expect_fields_norm]) (simp add: fields_norm nested_norm terms_header_norm parties.reorder)
  show "\<exists>w. terms_to_value lib d = Ok w" if "terms_from_value lib v = Ok d" for v d
    using that by (auto simp: terms_from_value_def Let_def)
  show "wire_safe v" if t: "terms_to_value lib d = Ok v" for d v
  proof -
    from t obtain issuer recipient where p: "party_to_value lib (ft_issuer d) = Ok issuer"
        "party_to_value lib (ft_recipient d) = Ok recipient" by (auto simp: terms_to_value_Ok)
    from t p parties.safe [OF p(1)] parties.safe [OF p(2)] party_count [OF p(1)] party_count [OF p(2)] show ?thesis
      by (auto simp: terms_to_value_Ok wire_safe_def MODE_REENCRYPT_def split: option.splits)
  qed
qed (fact terms_read_back terms_faithful)+

end
