(* ===== verification/Envelope.thy ===== *)
theory Envelope
  imports Provisioning Fulfillment Custody
begin

text \<open>
  Signed envelopes: \<open>SignedEnvelope\<close> and \<open>validate_document_body\<close> of \<open>fleet.rs\<close>, and the functions of
  \<open>fulfillment.rs\<close> and \<open>provisioning.rs\<close> that sign, verify, nest and open them.

  Reading an envelope validates its body, and the body of an authorization or a delivery holds
  further envelopes, which are read the same way. The functions that take part in this recursion have
  the validation as their argument \<open>validate\<close>; \<open>validate_document_body\<close> ties the knot with a bounded
  number of unfoldings, and \<open>validate_document_body_unfold\<close> shows that the bound is never reached.
\<close>

section \<open>The envelope\<close>

definition DOCUMENT_VERSION :: u64 where "DOCUMENT_VERSION = 1"

definition DOCUMENT_DOMAIN :: string where
  "DOCUMENT_DOMAIN = ''blindpass:fleet-document:v1'' @ nul"

record signed_envelope =
  se_kind :: document_kind
  se_body :: json_value
  se_key_id :: string
  se_epoch :: u64
  se_signature :: string

type_synonym body_check = "document_kind \<Rightarrow> json_value \<Rightarrow> u64 \<Rightarrow> (unit, document_error) result"

definition is_object :: "json_value \<Rightarrow> bool" where
  "is_object v \<longleftrightarrow> as_object v \<noteq> None"

definition unsigned_fields :: "signed_envelope \<Rightarrow> (string \<times> json_value) list" where
  "unsigned_fields e =
     [(''body'', se_body e),
      (''epoch'', Unsigned (se_epoch e)),
      (''kid'', String (se_key_id e)),
      (''kind'', String (kind_str (se_kind e))),
      (''v'', Unsigned DOCUMENT_VERSION)]"

definition signing_bytes :: "signed_envelope \<Rightarrow> (string, document_error) result" where
  "signing_bytes e =
     and_then (map_err Canonical (canonicalize_value (Object (unsigned_fields e)))) (\<lambda>canonical.
     Ok (DOCUMENT_DOMAIN @ canonical))"

definition to_json :: "signed_envelope \<Rightarrow> (string, document_error) result" where
  "to_json e =
     map_err Canonical (canonicalize_value (Object
       (unsigned_fields e @ [(''sig'', String (base64_url_encode (se_signature e)))])))"

definition body_json :: "signed_envelope \<Rightarrow> (string, document_error) result" where
  "body_json e = map_err Canonical (canonicalize_value (se_body e))"

definition sign_with ::
    "libcrypto \<Rightarrow> body_check \<Rightarrow> document_kind \<Rightarrow> json_value \<Rightarrow> string \<Rightarrow> u64 \<Rightarrow> ed25519_key_pair
      \<Rightarrow> (signed_envelope, document_error) result" where
  "sign_with lib validate kind body key_id epoch issuer =
     and_then (validate_key_id key_id) (\<lambda>_.
     and_then (reject_if (epoch = 0) (Invalid ''issuer epoch'')) (\<lambda>_.
     and_then (reject_if (\<not> is_object body) (Invalid ''body must be an object'')) (\<lambda>_.
     and_then (validate kind body epoch) (\<lambda>_.
     let unsigned = \<lparr>se_kind = kind, se_body = body, se_key_id = key_id, se_epoch = epoch,
         se_signature = replicate SIGNATURE_BYTES (CHR 0x00)\<rparr>
     in and_then (signing_bytes unsigned) (\<lambda>message.
     and_then (map_err Crypto (ed25519_sign lib issuer message)) (\<lambda>signature.
     Ok (unsigned\<lparr>se_signature := signature\<rparr>)))))))"

definition read_epoch :: "json_value \<Rightarrow> (u64, document_error) result" where
  "read_epoch v =
     ok_or (Option.bind (Option.bind (get v ''epoch'') as_u64) (\<lambda>epoch. if epoch > 0 then Some epoch else None))
       (Invalid ''issuer epoch'')"

definition read_body :: "json_value \<Rightarrow> (json_value, document_error) result" where
  "read_body v =
     ok_or (Option.bind (get v ''body'') (\<lambda>body. if is_object body then Some body else None))
       (Invalid ''body must be an object'')"

definition read_signature :: "json_value \<Rightarrow> (string, document_error) result" where
  "read_signature v =
     and_then (ok_or (Option.bind (get v ''sig'') as_str) (Invalid ''signature'')) (\<lambda>encoded.
     and_then (decode_base64_url encoded) (\<lambda>signature_bytes.
     and_then (reject_if (length signature_bytes \<noteq> SIGNATURE_BYTES) (Invalid ''signature length'')) (\<lambda>_.
     Ok signature_bytes)))"

definition from_json_with :: "body_check \<Rightarrow> string \<Rightarrow> (signed_envelope, document_error) result" where
  "from_json_with validate source =
     and_then (map_err Canonical (parse_json source)) (\<lambda>v.
     and_then (ok_or (as_object v) (Invalid ''envelope must be an object'')) (\<lambda>members.
     and_then (reject_if (length members \<noteq> 6) (Invalid ''unexpected envelope fields'')) (\<lambda>_.
     and_then (ok_or (Option.bind (get v ''v'') as_u64) (Invalid ''document version'')) (\<lambda>version.
     and_then (reject_if (version \<noteq> DOCUMENT_VERSION) (Invalid ''unsupported document version'')) (\<lambda>_.
     and_then (ok_or (Option.bind (get v ''kind'') as_str) (Invalid ''document kind'')) (\<lambda>kind_name.
     and_then (ok_or (kind_parse kind_name) (Invalid ''unsupported document kind'')) (\<lambda>kind.
     and_then (read_body v) (\<lambda>body.
     and_then (ok_or (Option.bind (get v ''kid'') as_str) (Invalid ''key id'')) (\<lambda>key_id.
     and_then (validate_key_id key_id) (\<lambda>_.
     and_then (read_epoch v) (\<lambda>epoch.
     and_then (validate kind body epoch) (\<lambda>_.
     and_then (read_signature v) (\<lambda>signature.
     Ok \<lparr>se_kind = kind, se_body = body, se_key_id = key_id, se_epoch = epoch, se_signature = signature\<rparr>)))))))))))))"

definition verify_with ::
    "libcrypto \<Rightarrow> body_check \<Rightarrow> signed_envelope \<Rightarrow> string \<Rightarrow> string \<Rightarrow> u64 \<Rightarrow> (bool, document_error) result" where
  "verify_with lib validate e issuer_public_key expected_key_id highest_epoch =
     (if se_key_id e \<noteq> expected_key_id \<or> se_epoch e < highest_epoch then Ok False
      else and_then (validate (se_kind e) (se_body e) (se_epoch e)) (\<lambda>_.
        and_then (signing_bytes e) (\<lambda>message.
        map_err Crypto (ed25519_verify lib issuer_public_key message (se_signature e)))))"

section \<open>Nested envelopes\<close>

definition envelope_value :: "signed_envelope \<Rightarrow> (json_value, document_error) result" where
  "envelope_value e =
     and_then (to_json e) (\<lambda>json.
     and_then (reject_if (\<not> utf8_valid json) (Invalid ''envelope encoding'')) (\<lambda>_.
     map_err Canonical (parse_json json)))"

definition normalized_with :: "body_check \<Rightarrow> signed_envelope \<Rightarrow> (signed_envelope, document_error) result" where
  "normalized_with validate e =
     and_then (to_json e) (\<lambda>json.
     and_then (reject_if (\<not> utf8_valid json) (Invalid ''envelope'')) (\<lambda>_.
     from_json_with validate json))"

definition envelope_from_value_with ::
    "body_check \<Rightarrow> document_kind \<Rightarrow> json_value \<Rightarrow> (signed_envelope, document_error) result" where
  "envelope_from_value_with validate kind v =
     and_then (map_err Canonical (canonicalize_value v)) (\<lambda>bytes.
     and_then (reject_if (\<not> utf8_valid bytes) (Invalid ''envelope'')) (\<lambda>_.
     and_then (from_json_with validate bytes) (\<lambda>e.
     and_then (reject_if (se_kind e \<noteq> kind) (Invalid ''envelope kind'')) (\<lambda>_.
     Ok e))))"

section \<open>Authorizations and deliveries of fulfillments\<close>

record fulfillment_authorization =
  fa_side :: fulfillment_side
  fa_terms :: fulfillment_terms
  fa_offer :: "signed_envelope option"

record fulfillment_delivery =
  fd_terms :: fulfillment_terms
  fd_offer :: signed_envelope
  fd_submit :: signed_envelope

definition authorization_to_value :: "libcrypto \<Rightarrow> fulfillment_authorization \<Rightarrow> (json_value, document_error) result" where
  "authorization_to_value lib d =
     and_then (terms_to_value lib (fa_terms d)) (\<lambda>terms.
     let members = [(''side'', String (side_str (fa_side d))), (''terms'', terms)] in
     (case (fa_side d, fa_offer d) of
        (Recipient, None) \<Rightarrow> Ok (Object members)
      | (Issuer, Some offer) \<Rightarrow>
          and_then (reject_if (se_kind offer \<noteq> KFulfillmentOffer) (Invalid ''authorization offer kind'')) (\<lambda>_.
          and_then (offer_from_value (se_body offer)) (\<lambda>parsed.
          and_then (offer_matches_terms lib parsed (fa_terms d)) (\<lambda>_.
          and_then (envelope_value offer) (\<lambda>nested_offer.
          Ok (Object (members @ [(''offer'', nested_offer)]))))))
      | _ \<Rightarrow> Err (Invalid ''authorization offer presence'')))"

definition read_offer ::
    "(json_value \<Rightarrow> (signed_envelope, document_error) result) \<Rightarrow> json_value option
      \<Rightarrow> (signed_envelope option, document_error) result" where
  "read_offer read x = (case x of None \<Rightarrow> Ok None | Some v \<Rightarrow> map_ok Some (read v))"

definition authorization_from_value_with ::
    "libcrypto \<Rightarrow> body_check \<Rightarrow> json_value \<Rightarrow> (fulfillment_authorization, document_error) result" where
  "authorization_from_value_with lib validate v =
     and_then (expect_fields v [''side'', ''terms''] [''offer'']) (\<lambda>_.
     and_then (required_string v ''side'') (\<lambda>text.
     and_then (ok_or (side_parse text) (Invalid ''authorization side'')) (\<lambda>side.
     and_then (read_offer (envelope_from_value_with validate KFulfillmentOffer) (get v ''offer'')) (\<lambda>offer.
     and_then (nested v ''terms'' ''terms'' (terms_from_value lib)) (\<lambda>terms.
     let d = \<lparr>fa_side = side, fa_terms = terms, fa_offer = offer\<rparr>
     in and_then (authorization_to_value lib d) (\<lambda>_. Ok d))))))"

definition fulfillment_delivery_to_value :: "libcrypto \<Rightarrow> fulfillment_delivery \<Rightarrow> (json_value, document_error) result" where
  "fulfillment_delivery_to_value lib d =
     and_then (offer_from_value (se_body (fd_offer d))) (\<lambda>offer.
     and_then (offer_matches_terms lib offer (fd_terms d)) (\<lambda>_.
     and_then (submit_from_value (se_body (fd_submit d))) (\<lambda>submit.
     and_then (reject_if (fs_fulfillment_id submit \<noteq> ft_fulfillment_id (fd_terms d) \<or>
         fs_terms_digest submit \<noteq> fo_terms_digest offer \<or> fs_offer_id submit \<noteq> fo_offer_id offer)
       (Invalid ''delivery bindings'')) (\<lambda>_.
     and_then (terms_to_value lib (fd_terms d)) (\<lambda>terms.
     and_then (envelope_value (fd_offer d)) (\<lambda>nested_offer.
     and_then (envelope_value (fd_submit d)) (\<lambda>nested_submit.
     Ok (Object [(''terms'', terms), (''offer'', nested_offer), (''submit'', nested_submit)]))))))))"

definition fulfillment_delivery_from_value_with ::
    "libcrypto \<Rightarrow> body_check \<Rightarrow> json_value \<Rightarrow> (fulfillment_delivery, document_error) result" where
  "fulfillment_delivery_from_value_with lib validate v =
     and_then (expect_fields v [''terms'', ''offer'', ''submit''] []) (\<lambda>_.
     and_then (nested v ''terms'' ''terms'' (terms_from_value lib)) (\<lambda>terms.
     and_then (nested v ''offer'' ''offer'' (envelope_from_value_with validate KFulfillmentOffer)) (\<lambda>offer.
     and_then (nested v ''submit'' ''submit'' (envelope_from_value_with validate KFulfillmentSubmit)) (\<lambda>submit.
     let d = \<lparr>fd_terms = terms, fd_offer = offer, fd_submit = submit\<rparr>
     in and_then (fulfillment_delivery_to_value lib d) (\<lambda>_. Ok d)))))"

section \<open>Validation of a body\<close>

definition epoch_matches :: "bool \<Rightarrow> string \<Rightarrow> (unit, document_error) result" where
  "epoch_matches ok label = reject_if (\<not> ok) (Invalid label)"

definition validate_body_with :: "libcrypto \<Rightarrow> body_check \<Rightarrow> body_check" where
  "validate_body_with lib validate kind body epoch =
     (case kind of
        KFulfillmentAuthorization \<Rightarrow>
          and_then (authorization_from_value_with lib validate body) (\<lambda>d.
          epoch_matches (ft_issuer_epoch (fa_terms d) = epoch) ''fulfillment authorization epoch'')
      | KFulfillmentDelivery \<Rightarrow>
          and_then (fulfillment_delivery_from_value_with lib validate body) (\<lambda>d.
          epoch_matches (ft_issuer_epoch (fd_terms d) = epoch) ''fulfillment delivery epoch'')
      | KFulfillmentRevocation \<Rightarrow>
          and_then (fulfillment_revocation_from_value body) (\<lambda>d.
          epoch_matches (fv_issuer_epoch d = epoch) ''fulfillment revocation epoch'')
      | KFulfillmentOffer \<Rightarrow>
          and_then (offer_from_value body) (\<lambda>d.
          epoch_matches (fo_node_key_version d = epoch) ''fulfillment offer key epoch'')
      | KFulfillmentSubmit \<Rightarrow>
          and_then (submit_from_value body) (\<lambda>d.
          epoch_matches (fs_node_key_version d = epoch) ''fulfillment submission key epoch'')
      | _ \<Rightarrow> Err (Invalid ''not a fulfillment document''))"

text \<open>The body that stands for a grant without a registration version.\<close>

definition legacy_body :: "json_value \<Rightarrow> json_value" where
  "legacy_body body =
     (if get body ''registration_version'' = None then
        (case body of
           Object members \<Rightarrow> Object (members @ [(''registration_version'', Unsigned 1)])
         | _ \<Rightarrow> body)
      else body)"

definition validate_step :: "libcrypto \<Rightarrow> body_check \<Rightarrow> body_check" where
  "validate_step lib validate kind body epoch =
     (case kind of
        KRegistration \<Rightarrow> and_then (registration_from_value body) (\<lambda>_. Ok ())
      | KPolicySnapshot \<Rightarrow> and_then (policy_snapshot_from_value body) (\<lambda>_. Ok ())
      | KGrant \<Rightarrow>
          and_then (grant_from_value (legacy_body body)) (\<lambda>d.
          epoch_matches (gr_issuer_epoch d = epoch) ''grant issuer epoch'')
      | KRevocation \<Rightarrow>
          and_then (revocation_from_value body) (\<lambda>d.
          epoch_matches (rv_issuer_epoch d = epoch) ''revocation issuer epoch'')
      | KNodeRevocation \<Rightarrow>
          and_then (node_revocation_from_value body) (\<lambda>d.
          epoch_matches (nv_issuer_epoch d = epoch) ''node revocation issuer epoch'')
      | KNodeKeyRotation \<Rightarrow>
          and_then (node_key_rotation_from_value lib body) (\<lambda>d.
          epoch_matches (kr_issuer_epoch d = epoch) ''node key rotation issuer epoch'')
      | KTimeReply \<Rightarrow>
          and_then (time_reply_from_value body) (\<lambda>d.
          epoch_matches (tr_issuer_epoch d = epoch) ''time reply issuer epoch'')
      | KApplicationAck \<Rightarrow>
          and_then (application_ack_from_value body) (\<lambda>d.
          epoch_matches (ak_issuer_epoch d = epoch) ''application acknowledgement epoch'')
      | KOperationClosed \<Rightarrow>
          and_then (operation_closed_from_value body) (\<lambda>d.
          epoch_matches (cl_issuer_epoch d = epoch) ''operation closure issuer epoch'')
      | KRecipientOffer \<Rightarrow>
          and_then (map_err (\<lambda>_. Invalid ''recipient offer binding'') (binding_from_value body)) (\<lambda>d.
          epoch_matches (pb_node_key_version d = epoch) ''recipient offer key epoch'')
      | KProvisioningDelivery \<Rightarrow>
          and_then (map_err (\<lambda>_. Invalid ''provisioning delivery binding'') (delivery_from_value body)) (\<lambda>d.
          epoch_matches (gr_issuer_epoch (pb_grant (pd_binding d)) = epoch) ''provisioning delivery issuer epoch'')
      | KOperationResult \<Rightarrow> reject_if (\<not> is_object body) (Invalid ''body must be an object'')
      | KAuditEvent \<Rightarrow> reject_if (\<not> is_object body) (Invalid ''body must be an object'')
      | _ \<Rightarrow> validate_body_with lib validate kind body epoch)"

text \<open>
  The recursion of \<open>validate_document_body\<close>, unfolded \<open>n\<close> times over a function \<open>base\<close> that is called
  at the bottom.
\<close>

primrec validate_iter :: "libcrypto \<Rightarrow> body_check \<Rightarrow> nat \<Rightarrow> body_check" where
  "validate_iter lib base 0 = base"
| "validate_iter lib base (Suc n) = validate_step lib (validate_iter lib base n)"

definition validate_document_body :: "libcrypto \<Rightarrow> body_check" where
  "validate_document_body lib = validate_iter lib (\<lambda>_ _ _. Err (Invalid ''nesting'')) (MAX_DEPTH + 2)"

definition sign ::
    "libcrypto \<Rightarrow> document_kind \<Rightarrow> json_value \<Rightarrow> string \<Rightarrow> u64 \<Rightarrow> ed25519_key_pair
      \<Rightarrow> (signed_envelope, document_error) result" where
  "sign lib = sign_with lib (validate_document_body lib)"

definition from_json :: "libcrypto \<Rightarrow> string \<Rightarrow> (signed_envelope, document_error) result" where
  "from_json lib = from_json_with (validate_document_body lib)"

definition verify ::
    "libcrypto \<Rightarrow> signed_envelope \<Rightarrow> string \<Rightarrow> string \<Rightarrow> u64 \<Rightarrow> (bool, document_error) result" where
  "verify lib = verify_with lib (validate_document_body lib)"

definition normalized :: "libcrypto \<Rightarrow> signed_envelope \<Rightarrow> (signed_envelope, document_error) result" where
  "normalized lib = normalized_with (validate_document_body lib)"

definition authorization_from_value :: "libcrypto \<Rightarrow> json_value \<Rightarrow> (fulfillment_authorization, document_error) result" where
  "authorization_from_value lib = authorization_from_value_with lib (validate_document_body lib)"

definition fulfillment_delivery_from_value :: "libcrypto \<Rightarrow> json_value \<Rightarrow> (fulfillment_delivery, document_error) result" where
  "fulfillment_delivery_from_value lib = fulfillment_delivery_from_value_with lib (validate_document_body lib)"

section \<open>Offers and submissions under a node's key\<close>

definition sign_offer ::
    "libcrypto \<Rightarrow> fulfillment_offer \<Rightarrow> ed25519_key_pair \<Rightarrow> (signed_envelope, document_error) result" where
  "sign_offer lib offer node_key =
     and_then (offer_to_value offer) (\<lambda>body.
     and_then (sign lib KFulfillmentOffer body (versioned_key_id (fo_node_id offer) (fo_node_key_version offer))
       (fo_node_key_version offer) node_key) (\<lambda>e.
     normalized lib e))"

definition verify_offer ::
    "libcrypto \<Rightarrow> signed_envelope \<Rightarrow> fulfillment_terms \<Rightarrow> u64 \<Rightarrow> (fulfillment_offer, document_error) result" where
  "verify_offer lib e terms now_ms =
     and_then (reject_if (se_kind e \<noteq> KFulfillmentOffer) (Invalid ''offer kind'')) (\<lambda>_.
     and_then (offer_from_value (se_body e)) (\<lambda>offer.
     let recipient = ft_recipient terms in
     and_then (reject_if (fo_fulfillment_id offer \<noteq> ft_fulfillment_id terms) (Invalid ''fulfillment offer'')) (\<lambda>_.
     and_then (terms_digest_hex lib terms) (\<lambda>digest.
     and_then (reject_if (fo_terms_digest offer \<noteq> digest \<or> fo_node_id offer \<noteq> fp_node_id recipient \<or>
         fo_node_key_version offer \<noteq> fp_key_version recipient \<or> se_epoch e \<noteq> fp_key_version recipient \<or>
         \<not> contains_window terms (fo_issued_at_ms offer) (fo_expires_at_ms offer) \<or>
         now_ms < fo_issued_at_ms offer \<or> fo_expires_at_ms offer \<le> now_ms)
       (Invalid ''fulfillment offer'')) (\<lambda>_.
     and_then (party_signing_bytes recipient) (\<lambda>signing_key.
     and_then (verify lib e signing_key (party_key_id recipient) (fp_key_version recipient)) (\<lambda>valid.
     and_then (reject_if (\<not> valid) (Invalid ''fulfillment offer'')) (\<lambda>_.
     Ok offer))))))))"

definition sealed_submit :: "libcrypto \<Rightarrow> fulfillment_terms \<Rightarrow> fulfillment_offer \<Rightarrow> sealed_message \<Rightarrow> u64
      \<Rightarrow> (fulfillment_submit, document_error) result" where
  "sealed_submit lib terms offer sealed now_ms =
     and_then (map_err Crypto (sha256 lib (sm_enc sealed @ sm_ciphertext sealed))) (\<lambda>digest.
     Ok \<lparr>fs_fulfillment_id = ft_fulfillment_id terms, fs_terms_digest = fo_terms_digest offer,
         fs_offer_id = fo_offer_id offer, fs_node_id = fp_node_id (ft_issuer terms),
         fs_node_key_version = fp_key_version (ft_issuer terms), fs_enc = base64_url_encode (sm_enc sealed),
         fs_ciphertext = base64_url_encode (sm_ciphertext sealed), fs_ciphertext_digest = hex digest,
         fs_issued_at_ms = now_ms\<rparr>)"

definition seal_submit ::
    "libcrypto \<Rightarrow> string option \<Rightarrow> fulfillment_terms \<Rightarrow> fulfillment_offer \<Rightarrow> string \<Rightarrow> ed25519_key_pair \<Rightarrow> u64
      \<Rightarrow> (signed_envelope, document_error) result" where
  "seal_submit lib rnd terms offer plaintext issuer_key now_ms =
     and_then (offer_matches_terms lib offer terms) (\<lambda>_.
     let maximum = unat (min (ft_max_plaintext_bytes terms) MAX_PLAINTEXT_BYTES) in
     and_then (reject_if (plaintext = [] \<or> maximum < length plaintext) (Invalid ''fulfillment sealing bound'')) (\<lambda>_.
     and_then (party_signing_bytes (ft_issuer terms)) (\<lambda>signing_key.
     and_then (reject_if (ed_public_key issuer_key \<noteq> signing_key \<or>
         now_ms < fo_issued_at_ms offer \<or> fo_expires_at_ms offer \<le> now_ms \<or>
         now_ms < ft_issued_at_ms terms \<or> ft_expires_at_ms terms \<le> now_ms)
       (Invalid ''fulfillment sealing bound'')) (\<lambda>_.
     and_then (offer_recipient_key offer) (\<lambda>recipient_key.
     and_then (fulfillment_info lib terms) (\<lambda>info.
     and_then (fulfillment_aad offer) (\<lambda>aad.
     and_then (map_err Crypto (seal_with_info lib rnd recipient_key plaintext info aad)) (\<lambda>sealed.
     and_then (sealed_submit lib terms offer sealed now_ms) (\<lambda>submit.
     and_then (submit_to_value submit) (\<lambda>body.
     and_then (sign lib KFulfillmentSubmit body (party_key_id (ft_issuer terms))
       (fp_key_version (ft_issuer terms)) issuer_key) (\<lambda>e.
     normalized lib e)))))))))))"

definition verify_submit ::
    "libcrypto \<Rightarrow> signed_envelope \<Rightarrow> fulfillment_terms \<Rightarrow> fulfillment_offer \<Rightarrow> (fulfillment_submit, document_error) result" where
  "verify_submit lib e terms offer =
     and_then (reject_if (se_kind e \<noteq> KFulfillmentSubmit) (Invalid ''submission kind'')) (\<lambda>_.
     and_then (offer_matches_terms lib offer terms) (\<lambda>_.
     and_then (submit_from_value (se_body e)) (\<lambda>submit.
     let issuer = ft_issuer terms in
     and_then (reject_if (fs_fulfillment_id submit \<noteq> ft_fulfillment_id terms) (Invalid ''fulfillment submission'')) (\<lambda>_.
     and_then (terms_digest_hex lib terms) (\<lambda>digest.
     and_then (reject_if (fs_terms_digest submit \<noteq> digest \<or> fs_offer_id submit \<noteq> fo_offer_id offer \<or>
         fs_node_id submit \<noteq> fp_node_id issuer \<or> fs_node_key_version submit \<noteq> fp_key_version issuer \<or>
         se_epoch e \<noteq> fp_key_version issuer) (Invalid ''fulfillment submission'')) (\<lambda>_.
     and_then (submit_computed_digest lib submit) (\<lambda>computed.
     and_then (reject_if (fs_ciphertext_digest submit \<noteq> computed \<or>
         \<not> contains_window terms (fs_issued_at_ms submit) (saturating_add_u64 (fs_issued_at_ms submit) 1))
       (Invalid ''fulfillment submission'')) (\<lambda>_.
     and_then (party_signing_bytes issuer) (\<lambda>signing_key.
     and_then (verify lib e signing_key (party_key_id issuer) (fp_key_version issuer)) (\<lambda>valid.
     and_then (reject_if (\<not> valid) (Invalid ''fulfillment submission'')) (\<lambda>_.
     Ok submit)))))))))))"

definition verify_delivery ::
    "libcrypto \<Rightarrow> fulfillment_delivery \<Rightarrow> u64 \<Rightarrow> (fulfillment_offer \<times> fulfillment_submit, document_error) result" where
  "verify_delivery lib d now_ms =
     and_then (verify_offer lib (fd_offer d) (fd_terms d) now_ms) (\<lambda>offer.
     and_then (verify_submit lib (fd_submit d) (fd_terms d) offer) (\<lambda>submit.
     Ok (offer, submit)))"

section \<open>Recipient offers of a browser\<close>

definition sign_browser_recipient_offer ::
    "libcrypto \<Rightarrow> provisioning_binding \<Rightarrow> ed25519_key_pair \<Rightarrow> (signed_envelope, provisioning_error) result" where
  "sign_browser_recipient_offer lib b issuer =
     and_then (binding_to_value b) (\<lambda>body.
     map_err (\<lambda>_. InvalidProvisioningBinding)
       (sign lib KRecipientOffer body (versioned_key_id (gr_node_id (pb_grant b)) (pb_node_key_version b))
         (pb_node_key_version b) issuer))"

definition verify_browser_recipient_offer ::
    "libcrypto \<Rightarrow> signed_envelope \<Rightarrow> string \<Rightarrow> grant \<Rightarrow> u64 \<Rightarrow> u64 \<Rightarrow> string \<Rightarrow> string
      \<Rightarrow> (provisioning_binding, provisioning_error) result" where
  "verify_browser_recipient_offer lib offer signing_public current node_key_version now_ms source_unit credential =
     and_then (reject_if (se_kind offer \<noteq> KRecipientOffer \<or> se_epoch offer \<noteq> node_key_version)
       InvalidProvisioningBinding) (\<lambda>_.
     and_then (binding_from_value (se_body offer)) (\<lambda>b.
     and_then (validate_against b current node_key_version now_ms) (\<lambda>_.
     and_then (reject_if (pb_source_unit b \<noteq> source_unit \<or> pb_credential b \<noteq> credential)
       InvalidProvisioningBinding) (\<lambda>_.
     and_then (map_err (\<lambda>_. InvalidProvisioningBinding)
       (verify lib offer signing_public (versioned_key_id (gr_node_id current) node_key_version) node_key_version)) (\<lambda>valid.
     and_then (reject_if (\<not> valid) InvalidProvisioningBinding) (\<lambda>_.
     Ok b))))))"


section \<open>The recursion of the validation ends\<close>

lemma get_mem: "get v k = Some x \<Longrightarrow> \<exists>members. v = Object members \<and> (k, x) \<in> set members"
  by (cases v) (auto dest: map_of_SomeD)

lemma get_well_formed: "well_formed d v \<Longrightarrow> get v k = Some x \<Longrightarrow> well_formed (d + 1) x"
  by (fastforce dest!: get_mem)

lemma get_value_count: "get v k = Some x \<Longrightarrow> value_count x \<le> value_count v"
proof -
  assume "get v k = Some x"
  then obtain members where v: "v = Object members" "(k, x) \<in> set members" by (auto dest: get_mem)
  then have "value_count x \<in> set (map (\<lambda>e. value_count (snd e)) members)" by force
  then have "value_count x \<le> sum_list (map (\<lambda>e. value_count (snd e)) members)" by (rule member_le_sum_list) simp
  with v show ?thesis by simp
qed

lemma utf8_strings_norm: "utf8_strings v \<Longrightarrow> utf8_strings (norm v)"
  by (induction v rule: json_induct) (auto simp: norm_Object simp del: norm.simps(3))

lemma well_formed_norm: "well_formed d v \<Longrightarrow> well_formed d (norm v)"
proof -
  assume wf: "well_formed d v"
  from write_value_writes [OF this] obtain out where "write_value (norm v) d = Ok out"
    by (auto simp: write_value_norm)
  then show ?thesis using wf by (intro write_value_well_formed) (simp_all add: well_formed_utf8_strings utf8_strings_norm)
qed

lemma well_formed_depth: "well_formed d v \<Longrightarrow> d \<le> MAX_DEPTH"
  by (cases v) auto

text \<open>The bodies that reading an envelope out of a value validates.\<close>

definition nested_body :: "json_value \<Rightarrow> json_value \<Rightarrow> bool" where
  "nested_body v b \<longleftrightarrow>
     (\<exists>c w. canonicalize_value v = Ok c \<and> parse_json c = Ok w \<and> get w ''body'' = Some b)"

lemma nested_body_parsed: "nested_body v b \<Longrightarrow> well_formed 1 b \<and> value_count b \<le> MAX_VALUES"
proof -
  assume "nested_body v b"
  then obtain c w where w: "parse_json c = Ok w" "get w ''body'' = Some b" by (auto simp: nested_body_def)
  note p = parse_json_Ok [OF w(1)]
  from get_well_formed [OF p(1) w(2)] get_value_count [OF w(2)] p(2) show ?thesis by simp
qed

lemma nested_body_deeper:
  assumes "nested_body v b" "well_formed d v" "value_count v \<le> MAX_VALUES"
  shows "well_formed (d + 1) b"
proof -
  from assms(1) obtain c w where c: "canonicalize_value v = Ok c" "parse_json c = Ok w" "get w ''body'' = Some b"
    by (auto simp: nested_body_def)
  have "parse_json c = Ok (norm v)"
    using canonicalize_value_Ok [OF c(1) well_formed_utf8_strings [OF assms(2)]] assms(3) by (intro parse_json_writes) auto
  with c get_well_formed [OF well_formed_norm [OF assms(2)]] show ?thesis by simp
qed

lemma read_body_Ok: "read_body v = Ok b \<longleftrightarrow> get v ''body'' = Some b \<and> is_object b"
  by (auto simp: read_body_def Option.bind_eq_Some_conv split: if_splits)

lemma from_json_with_cong:
  assumes "\<And>w b kind epoch. parse_json s = Ok w \<Longrightarrow> get w ''body'' = Some b \<Longrightarrow> f kind b epoch = g kind b epoch"
  shows "from_json_with f s = from_json_with g s"
  unfolding from_json_with_def
  by (intro and_then_cong refl arg_cong2 [where f = and_then] assms) (auto simp: read_body_Ok)

lemma envelope_from_value_with_cong:
  assumes "\<And>b kind epoch. nested_body v b \<Longrightarrow> f kind b epoch = g kind b epoch"
  shows "envelope_from_value_with f kind v = envelope_from_value_with g kind v"
proof -
  have "from_json_with f c = from_json_with g c" if "canonicalize_value v = Ok c" for c
    using that by (intro from_json_with_cong assms) (auto simp: nested_body_def)
  then show ?thesis unfolding envelope_from_value_with_def by (intro and_then_cong refl) auto
qed

lemma nested_cong: "(\<And>x. get v key = Some x \<Longrightarrow> f x = g x) \<Longrightarrow> nested v key label f = nested v key label g"
  by (cases "get v key") (simp_all add: nested_def)

lemma read_offer_cong: "(\<And>v. x = Some v \<Longrightarrow> f v = g v) \<Longrightarrow> read_offer f x = read_offer g x"
  by (cases x) (simp_all add: read_offer_def)

lemma validate_step_cong:
  assumes "\<And>key v b kind epoch. get body key = Some v \<Longrightarrow> nested_body v b \<Longrightarrow> f kind b epoch = g kind b epoch"
  shows "validate_step lib f kind body epoch = validate_step lib g kind body epoch"
proof -
  have e: "get body key = Some v \<Longrightarrow> envelope_from_value_with f k v = envelope_from_value_with g k v" for key k v
    using assms by (intro envelope_from_value_with_cong)
  have "authorization_from_value_with lib f body = authorization_from_value_with lib g body"
    unfolding authorization_from_value_with_def
    by (intro and_then_cong refl arg_cong2 [where f = and_then] read_offer_cong e)
  moreover have "fulfillment_delivery_from_value_with lib f body = fulfillment_delivery_from_value_with lib g body"
    unfolding fulfillment_delivery_from_value_with_def
    by (intro and_then_cong refl arg_cong2 [where f = and_then] nested_cong e)
  ultimately show ?thesis by (cases kind) (simp_all add: validate_step_def validate_body_with_def)
qed

lemma validate_iter_agree:
  assumes "well_formed d b" "value_count b \<le> MAX_VALUES" "MAX_DEPTH - d < n" "MAX_DEPTH - d < m"
  shows "validate_iter lib f n kind b epoch = validate_iter lib g m kind b epoch"
  using assms
proof (induction n arbitrary: m d b kind epoch)
  case (Suc n)
  then obtain m' where m: "m = Suc m'" by (cases m) auto
  show ?case unfolding m validate_iter.simps
  proof (rule validate_step_cong)
    fix key v b' k e assume v: "get b key = Some v" "nested_body v b'"
    with Suc.prems(1) get_value_count [OF v(1)] Suc.prems(2) have "well_formed (d + 2) b'"
      using nested_body_deeper [OF v(2), of "d + 1"] get_well_formed [of d b] by simp
    moreover from this have "d + 2 \<le> MAX_DEPTH" by (rule well_formed_depth)
    ultimately show "validate_iter lib f n k b' e = validate_iter lib g m' k b' e"
      using Suc.prems(3,4) m nested_body_parsed [OF v(2)] by (intro Suc.IH [of "d + 2"]) auto
  qed
qed simp

lemma validate_iter_enough:
  assumes "MAX_DEPTH + 1 \<le> n" "MAX_DEPTH + 1 \<le> m"
  shows "validate_iter lib f n kind b epoch = validate_iter lib g m kind b epoch"
proof -
  from assms obtain n' m' where n: "n = Suc n'" "m = Suc m'" by (cases n; cases m) auto
  show ?thesis unfolding n validate_iter.simps
    using assms n nested_body_parsed
    by (intro validate_step_cong validate_iter_agree [where d = 1]) (fastforce simp: MAX_DEPTH_def)+
qed

lemma validate_document_body_unfold:
  "validate_document_body lib kind body epoch = validate_step lib (validate_document_body lib) kind body epoch"
proof -
  let ?base = "\<lambda>_ _ _. Err (Invalid ''nesting'')"
  have "validate_document_body lib kind body epoch = validate_iter lib ?base (Suc (MAX_DEPTH + 2)) kind body epoch"
    unfolding validate_document_body_def by (intro validate_iter_enough) auto
  then show ?thesis by (simp add: validate_document_body_def)
qed

section \<open>The order of members does not matter\<close>

lemma is_object_norm [simp]: "is_object (norm v) = is_object v"
  by (cases v) (simp_all add: is_object_def)

lemma sort_key_append: "sort_key f (sort_key f xs @ ys) = sort_key f (xs @ ys)"
proof (rule properties_for_sort_key)
  fix k assume "k \<in> set (sort_key f (xs @ ys))"
  have "filter (\<lambda>x. f k = f x) zs = filter (\<lambda>x. f x = f k) zs" for zs :: "'a list" by (simp add: eq_commute)
  then show "filter (\<lambda>x. f k = f x) (sort_key f (xs @ ys)) = filter (\<lambda>x. f k = f x) (sort_key f xs @ ys)"
    by (simp add: sort_key_stable)
qed simp_all

lemma norm_append: "norm (Object (map norm_member (by_key ms) @ [(k, norm x)])) = norm (Object (ms @ [(k, x)]))"
proof -
  have "map norm_member (by_key ms) @ [(k, norm x)] = map norm_member (by_key ms @ [(k, x)])" by simp
  then have "norm (Object (map norm_member (by_key ms) @ [(k, norm x)])) =
      Object (map norm_member (map norm_member (by_key (by_key ms @ [(k, x)]))))"
    by (simp add: norm_Object sort_key_map [where k' = "\<lambda>e. utf16 (fst e)"] del: norm.simps(3) map_append)
  then show ?thesis by (simp add: norm_Object sort_key_append del: norm.simps(3))
qed

lemma legacy_body_norm: "norm (legacy_body (norm v)) = norm (legacy_body v)"
proof (cases v)
  case (Object ms)
  have none: "get (norm v) k = None \<longleftrightarrow> get v k = None" for k
    by (simp add: Object norm_Object map_of_eq_None_iff image_image del: norm.simps(3))
  show ?thesis
  proof (cases "get v ''registration_version''")
    case None
    with none [of "''registration_version''"] norm_append [of ms "''registration_version''" "Unsigned 1"] show ?thesis
      by (simp add: legacy_body_def Object norm_Object del: norm.simps(3))
  next
    case (Some x)
    with none [of "''registration_version''"] show ?thesis by (auto simp: legacy_body_def)
  qed
qed (simp_all add: legacy_body_def)

lemma envelope_from_value_norm: "envelope_from_value_with f kind (norm v) = envelope_from_value_with f kind v"
  by (simp add: envelope_from_value_with_def canonicalize_value_norm)

lemma read_offer_norm:
  "(\<And>v. f (norm v) = f v) \<Longrightarrow> read_offer f (map_option norm x) = read_offer f x"
  by (cases x) (simp_all add: read_offer_def)

lemma authorization_from_value_norm:
  "authorization_from_value_with lib f (norm v) = authorization_from_value_with lib f v"
  unfolding authorization_from_value_with_def
  by (intro and_then_cong [OF expect_fields_norm])
    (simp add: fields_norm get_norm nested_norm terms.reorder read_offer_norm envelope_from_value_norm)

lemma delivery_from_value_norm:
  "fulfillment_delivery_from_value_with lib f (norm v) = fulfillment_delivery_from_value_with lib f v"
  unfolding fulfillment_delivery_from_value_with_def
  by (intro and_then_cong [OF expect_fields_norm]) (simp add: nested_norm terms.reorder envelope_from_value_norm)

lemma validate_norm: "validate_document_body lib kind (norm body) epoch = validate_document_body lib kind body epoch"
proof -
  have "grant_from_value (legacy_body (norm body)) = grant_from_value (legacy_body body)"
    using grants.reorder [of "legacy_body (norm body)"] grants.reorder [of "legacy_body body"]
    by (simp add: legacy_body_norm)
  then have "validate_step lib f kind (norm body) epoch = validate_step lib f kind body epoch" for f
    by (cases kind)
      (simp_all add: validate_step_def validate_body_with_def registration.reorder snapshots.reorder
        revocations.reorder node_revocations.reorder rotations.reorder time_replies.reorder acks.reorder
        closures.reorder bindings.reorder deliveries.reorder fulfillment_revocations.reorder offers.reorder
        submits.reorder authorization_from_value_norm delivery_from_value_norm)
  then show ?thesis by (subst (1 2) validate_document_body_unfold)
qed

section \<open>Envelopes on the wire\<close>

definition envelope_fields :: "string list" where
  "envelope_fields = [''body'', ''epoch'', ''kid'', ''kind'', ''v'', ''sig'']"

lemma envelope_expect:
  "expect_fields (Object (unsigned_fields e @ [(''sig'', x)])) envelope_fields [] = Ok ()"
  by (auto simp: expect_fields_Ok unsigned_fields_def envelope_fields_def)

lemma envelope_get:
  "get (norm (Object (unsigned_fields e @ [(''sig'', x)]))) ''body'' = Some (norm (se_body e))"
  "get (norm (Object (unsigned_fields e @ [(''sig'', x)]))) ''epoch'' = Some (Unsigned (se_epoch e))"
  "get (norm (Object (unsigned_fields e @ [(''sig'', x)]))) ''kid'' = Some (String (se_key_id e))"
  "get (norm (Object (unsigned_fields e @ [(''sig'', x)]))) ''kind'' = Some (String (kind_str (se_kind e)))"
  "get (norm (Object (unsigned_fields e @ [(''sig'', x)]))) ''v'' = Some (Unsigned 1)"
  "get (norm (Object (unsigned_fields e @ [(''sig'', x)]))) ''sig'' = Some (norm x)"
  by (simp_all add: get_norm [OF envelope_expect] del: norm.simps(3))
    (simp_all add: unsigned_fields_def DOCUMENT_VERSION_def)

lemma envelope_value_count: "value_count (Object (unsigned_fields e @ [(''sig'', String s)])) = value_count (se_body e) + 6"
  by (simp add: unsigned_fields_def)

definition on_wire :: "signed_envelope \<Rightarrow> bool" where
  "on_wire e \<longleftrightarrow> utf8_strings (se_body e) \<and> value_count (se_body e) + 6 \<le> MAX_VALUES \<and> is_ascii (se_key_id e)"

lemma envelope_utf8:
  "on_wire e \<Longrightarrow> utf8_strings (Object (unsigned_fields e @ [(''sig'', String (base64_url_encode s))]))"
  by (simp add: unsigned_fields_def on_wire_def kind_ascii)

lemma to_json_parses:
  assumes "to_json e = Ok c" "on_wire e"
  shows "parse_json c = Ok (norm (Object (unsigned_fields e @ [(''sig'', String (base64_url_encode (se_signature e)))])))"
proof -
  let ?v = "Object (unsigned_fields e @ [(''sig'', String (base64_url_encode (se_signature e)))])"
  from assms(1) have c: "canonicalize_value ?v = Ok c" by (simp add: to_json_def)
  show ?thesis
    using canonicalize_value_Ok [OF c envelope_utf8 [OF assms(2)]] assms(2)
    by (intro parse_json_writes) (simp_all add: envelope_value_count on_wire_def del: value_count.simps)
qed

definition valid_envelope :: "libcrypto \<Rightarrow> signed_envelope \<Rightarrow> bool" where
  "valid_envelope lib e \<longleftrightarrow>
     validate_key_id (se_key_id e) = Ok () \<and> 0 < se_epoch e \<and> is_object (se_body e) \<and>
     validate_document_body lib (se_kind e) (se_body e) (se_epoch e) = Ok () \<and> length (se_signature e) = 64"

lemma from_json_to_json:
  assumes "to_json e = Ok c" "on_wire e" "valid_envelope lib e"
  shows "from_json lib c = Ok (e\<lparr>se_body := norm (se_body e)\<rparr>)"
proof -
  have "se_signature e \<noteq> []" using assms(3) by (auto simp: valid_envelope_def)
  with assms(3) show ?thesis
    unfolding from_json_def from_json_with_def to_json_parses [OF assms(1,2)]
    by (simp add: envelope_get read_body_def read_epoch_def read_signature_def valid_envelope_def validate_norm
        DOCUMENT_VERSION_def SIGNATURE_BYTES_def decode_base64_url_Ok [THEN iffD2] del: norm.simps(3))
       (simp add: norm_Object unsigned_fields_def del: norm.simps(3))
qed

lemma canonicalize_norm_eq: "norm v = norm w \<Longrightarrow> canonicalize_value v = canonicalize_value w"
  by (metis canonicalize_value_norm)

lemma unsigned_norm [simp]:
  "canonicalize_value (Object (unsigned_fields (e\<lparr>se_body := norm (se_body e)\<rparr>) @ xs)) =
   canonicalize_value (Object (unsigned_fields e @ xs))"
  by (rule canonicalize_norm_eq) (simp add: unsigned_fields_def)

lemma signing_bytes_norm [simp]: "signing_bytes (e\<lparr>se_body := norm (se_body e)\<rparr>) = signing_bytes e"
  using unsigned_norm [of e "[]"] by (simp add: signing_bytes_def)

lemma to_json_norm [simp]: "to_json (e\<lparr>se_body := norm (se_body e)\<rparr>) = to_json e"
  by (simp add: to_json_def)

lemma unsigned_fields_signature [simp]: "unsigned_fields (e\<lparr>se_signature := s\<rparr>) = unsigned_fields e"
  by (simp add: unsigned_fields_def)

lemma sign_Ok:
  assumes "sign lib kind body kid epoch key = Ok e"
  shows "se_kind e = kind" "se_body e = body" "se_key_id e = kid" "se_epoch e = epoch" "valid_envelope lib e"
    "\<exists>m. signing_bytes e = Ok m \<and> ed25519_sign lib key m = Ok (se_signature e)"
  using assms ed25519_sign_length
  by (auto simp: sign_def sign_with_def Let_def valid_envelope_def signing_bytes_def word_neq_0_conv
      unsigned_fields_def)

lemma verify_normalized:
  "verify lib (e\<lparr>se_body := norm (se_body e)\<rparr>) pk kid highest = verify lib e pk kid highest"
  by (simp add: verify_def verify_with_def validate_norm)

lemma verify_signed:
  assumes "ed25519_correct lib" "from_seed lib s = Ok key" "sign lib kind body kid epoch key = Ok e"
  shows "verify lib e (ed_public_key key) kid' highest = Ok (kid' = kid \<and> highest \<le> epoch)"
proof -
  note e = sign_Ok [OF assms(3)]
  from e(6) obtain m where "signing_bytes e = Ok m" "ed25519_sign lib key m = Ok (se_signature e)" by blast
  with ed25519_sign_verify [OF assms(1,2)] e(1-5) show ?thesis
    by (auto simp: verify_def verify_with_def valid_envelope_def not_less)
qed

lemma signed_on_wire:
  assumes "sign lib kind body kid epoch key = Ok e" "utf8_strings body" "value_count body + 6 \<le> MAX_VALUES"
  shows "on_wire e"
  using sign_Ok [OF assms(1)] assms(2,3) by (auto simp: on_wire_def valid_envelope_def)

lemma normalized_signed:
  assumes "sign lib kind body kid epoch key = Ok e" "wire_safe body" "normalized lib e = Ok e'"
  shows "e' = e\<lparr>se_body := norm body\<rparr>"
proof -
  from assms(3) obtain c where c: "to_json e = Ok c" "from_json lib c = Ok e'"
    by (auto simp: normalized_def normalized_with_def from_json_def)
  have "on_wire e" using assms(1,2) by (intro signed_on_wire) (auto simp: wire_safe_def MAX_VALUES_def)
  from from_json_to_json [OF c(1) this sign_Ok(5) [OF assms(1)]] c(2) sign_Ok(2) [OF assms(1)]
  show ?thesis by simp
qed

section \<open>From a sealed plaintext to the opened one\<close>

lemma offer_matches_Ok:
  "offer_matches_terms lib offer terms = Ok u \<longleftrightarrow>
     fo_fulfillment_id offer = ft_fulfillment_id terms \<and> terms_digest_hex lib terms = Ok (fo_terms_digest offer) \<and>
     fo_node_id offer = fp_node_id (ft_recipient terms) \<and> fo_node_key_version offer = fp_key_version (ft_recipient terms) \<and>
     contains_window terms (fo_issued_at_ms offer) (fo_expires_at_ms offer)"
  by (auto simp: offer_matches_terms_def)

lemma base64_inj: "base64_url_encode a = base64_url_encode b \<Longrightarrow> a \<noteq> [] \<Longrightarrow> b \<noteq> [] \<Longrightarrow> a = b"
  using decode_base64_url_Ok [of "base64_url_encode a" a] decode_base64_url_Ok [of "base64_url_encode b" b] by simp

lemma sealed_bytes_encoded:
  assumes "submit_sealed_bytes d = Ok x" "fs_enc d = base64_url_encode enc" "fs_ciphertext d = base64_url_encode ct"
    "enc \<noteq> []" "ct \<noteq> []"
  shows "x = (enc, ct)"
proof -
  note s = sealed_bytes_Ok [OF assms(1)]
  have "fst x \<noteq> []" "snd x \<noteq> []" using s by (auto simp: public_key_Ok)
  with s assms(2-5) base64_inj [of "fst x" enc] base64_inj [of "snd x" ct] have "fst x = enc" "snd x = ct"
    by (auto simp: public_key_Ok)
  then show ?thesis by (metis prod.collapse)
qed

lemma window_now:
  assumes "(now :: u64) < expires"
  shows "saturating_add_u64 now 1 \<le> expires"
proof -
  have n: "unat now + unat (1 :: u64) < 2 ^ 64"
    using assms unsigned_less [where 'a = nat and w = expires] by (simp add: word_less_nat_alt)
  then have "unat (now + 1) = unat now + 1" using unat_add_lem [of now 1] by simp
  with n assms show ?thesis by (simp add: saturating_add_u64_def word_le_nat_alt word_less_nat_alt)
qed

lemma seal_submit_parts:
  assumes "seal_submit lib rnd terms offer plaintext key now = Ok e"
  obtains recipient info aad sealed submit body e0 where
    "offer_matches_terms lib offer terms = Ok ()" "party_signing_bytes (ft_issuer terms) = Ok (ed_public_key key)"
    "ft_issued_at_ms terms \<le> now" "now < ft_expires_at_ms terms"
    "offer_recipient_key offer = Ok recipient" "fulfillment_info lib terms = Ok info" "fulfillment_aad offer = Ok aad"
    "seal_with_info lib rnd recipient plaintext info aad = Ok sealed"
    "sealed_submit lib terms offer sealed now = Ok submit" "submit_to_value submit = Ok body"
    "sign lib KFulfillmentSubmit body (party_key_id (ft_issuer terms)) (fp_key_version (ft_issuer terms)) key = Ok e0"
    "normalized lib e0 = Ok e"
  using assms unfolding seal_submit_def Let_def and_then_eq_Ok reject_if_eq_Ok map_err_eq_Ok
  by (auto simp: not_less not_le)

lemma sealed_submit_bytes:
  assumes "sealed_submit lib terms offer sealed now = Ok d" "submit_to_value d = Ok body"
    "sm_enc sealed \<noteq> []" "sm_ciphertext sealed \<noteq> []"
  shows "submit_sealed_bytes d = Ok (sm_enc sealed, sm_ciphertext sealed)"
    "submit_computed_digest lib d = Ok (fs_ciphertext_digest d)"
proof -
  from assms(2) obtain x where x: "submit_sealed_bytes d = Ok x" by (auto simp: submit_to_value_def)
  with assms sealed_bytes_encoded [OF x] show s: "submit_sealed_bytes d = Ok (sm_enc sealed, sm_ciphertext sealed)"
    by (auto simp: sealed_submit_def)
  with assms(1) show "submit_computed_digest lib d = Ok (fs_ciphertext_digest d)"
    by (auto simp: sealed_submit_def submit_computed_digest_def)
qed

lemma seal_nonempty:
  assumes "seal_with_info lib rnd recipient plaintext info aad = Ok sealed"
  shows "sm_enc sealed \<noteq> [] \<and> sm_ciphertext sealed \<noteq> []"
  using assms
  by (auto simp: seal_with_info_def seal_with_ephemeral_def generate_def from_private_key_Ok aead_encrypt_def N_TAG_def)

lemma submit_accepted:
  assumes "ed25519_correct lib" "from_seed lib s = Ok key" "seal_submit lib rnd terms offer plaintext key now = Ok e"
  obtains recipient info aad sealed submit where
    "verify_submit lib e terms offer = Ok submit"
    "submit_sealed_bytes submit = Ok (sm_enc sealed, sm_ciphertext sealed)"
    "offer_recipient_key offer = Ok recipient" "fulfillment_info lib terms = Ok info" "fulfillment_aad offer = Ok aad"
    "seal_with_info lib rnd recipient plaintext info aad = Ok sealed"
proof -
  from seal_submit_parts [OF assms(3)] obtain recipient info aad sealed submit body e0 where
    m: "offer_matches_terms lib offer terms = Ok ()" "party_signing_bytes (ft_issuer terms) = Ok (ed_public_key key)"
      "ft_issued_at_ms terms \<le> now" "now < ft_expires_at_ms terms"
    and k: "offer_recipient_key offer = Ok recipient" "fulfillment_info lib terms = Ok info" "fulfillment_aad offer = Ok aad"
      "seal_with_info lib rnd recipient plaintext info aad = Ok sealed"
    and b: "sealed_submit lib terms offer sealed now = Ok submit" "submit_to_value submit = Ok body"
    and e0: "sign lib KFulfillmentSubmit body (party_key_id (ft_issuer terms)) (fp_key_version (ft_issuer terms)) key = Ok e0"
      "normalized lib e0 = Ok e" .
  have e: "e = e0\<lparr>se_body := norm body\<rparr>"
    using normalized_signed [OF e0(1) submits.safe [OF b(2)] e0(2)] .
  have v: "verify lib e (ed_public_key key) (party_key_id (ft_issuer terms)) (fp_key_version (ft_issuer terms)) = Ok True"
    using verify_signed [OF assms(1,2) e0(1)] verify_normalized [of lib e0] sign_Ok(2) [OF e0(1)] e by simp
  have "submit_from_value (se_body e) = Ok submit"
    using e submits.reorder [of body] submits.read_back [OF b(2)] by simp
  then have "verify_submit lib e terms offer = Ok submit"
    using m v b(1) sign_Ok [OF e0(1)] e sealed_submit_bytes [OF b] seal_nonempty [OF k(4)] window_now [OF m(4)]
    unfolding verify_submit_def Let_def by (auto simp: offer_matches_Ok sealed_submit_def contains_window_def)
  with sealed_submit_bytes(1) [OF b] seal_nonempty [OF k(4)] k that show ?thesis by blast
qed

end
