(* ===== verification/Wire_Size.thy ===== *)
theory Wire_Size
  imports Fleet
begin

text \<open>
  How long the canonical form of a document is. The strings of fleet documents are made of printable
  ASCII without quotes and backslashes, so nothing is escaped and the length can be read off the
  value. With these bounds a document of valid fields is always written, and fits its channel.
\<close>

section \<open>Plain strings\<close>

definition plain_char :: "char \<Rightarrow> bool" where
  "plain_char b \<longleftrightarrow> 0x20 \<le> byte b \<and> byte b < 0x80 \<and> b \<noteq> quote \<and> b \<noteq> backslash"

definition plain :: "string \<Rightarrow> bool" where
  "plain s \<longleftrightarrow> list_all plain_char s"

lemma plain_simps [simp]: "plain []" "plain (c # s) \<longleftrightarrow> plain_char c \<and> plain s" "plain (s @ t) \<longleftrightarrow> plain s \<and> plain t"
  by (simp_all add: plain_def)

lemma plain_written: "plain s \<Longrightarrow> length (write_string s) = length s + 2"
  by (subst write_string_plain) (simp_all add: plain_def plain_char_def list_all_iff)

lemma plain_ascii: "plain s \<Longrightarrow> is_ascii s"
  by (auto simp: plain_def plain_char_def is_ascii_def list_all_iff)

lemma plain_utf8: "plain s \<Longrightarrow> utf8_valid s"
  using plain_ascii by simp

lemma alnum_plain: "is_ascii_alphanumeric b \<Longrightarrow> plain_char b" "is_ascii_digit b \<Longrightarrow> plain_char b"
    "is_ascii_lowercase b \<Longrightarrow> plain_char b" "is_ascii_hexdigit b \<Longrightarrow> plain_char b"
    "is_token_char b \<Longrightarrow> plain_char b" "is_base64_char b \<Longrightarrow> plain_char b"
  by (auto simp: ascii_defs is_token_char_def is_base64_char_def less_eq_char_def plain_char_def)

lemma plain_char_eval: "plain_char (CHR ''_'')" "plain_char (CHR ''-'')" "plain_char (CHR ''.'')"
    "plain_char (CHR '':'')" "plain_char (CHR ''@'')"
  by (simp_all add: plain_char_def)

lemma opaque_id_plain: "is_valid_opaque_id s \<Longrightarrow> plain s \<and> length s \<le> 128"
  by (auto simp: is_valid_opaque_id_def plain_def list_all_iff MAX_OPAQUE_ID_BYTES_def plain_char_eval dest: alnum_plain)

lemma sha256_hex_plain: "valid_sha256_hex s \<Longrightarrow> plain s \<and> length s = 64"
  by (auto simp: valid_sha256_hex_def plain_def list_all_iff dest: alnum_plain)

lemma base64_plain [simp]: "plain (base64_url_encode s)"
  using encode_base64_chars [of s] by (auto simp: plain_def list_all_iff dest: alnum_plain)

lemma key_id_plain: "validate_key_id s = Ok u \<Longrightarrow> plain s \<and> length s \<le> 128"
  by (auto simp: validate_key_id_def plain_def list_all_iff dest: alnum_plain)

lemma hex_plain [simp]: "plain (hex bs)"
  using hex_digits [of bs] by (auto simp: plain_def list_all_iff dest: alnum_plain)

lemma kind_plain [simp]: "plain (kind_str k)"
  by (cases k) (simp_all add: plain_char_def)

lemma kind_length: "length (kind_str k) \<le> 25"
  by (cases k) simp_all

section \<open>The size of a value of plain strings\<close>

lemma safe_dec: "n \<le> MAX_SAFE_INTEGER \<Longrightarrow> length (dec n) \<le> 16"
  by (rule dec_length_power) (simp_all add: MAX_SAFE_INTEGER_def)

fun plain_value :: "json_value \<Rightarrow> bool" where
  "plain_value (String s) \<longleftrightarrow> plain s"
| "plain_value (Array vs) \<longleftrightarrow> list_all plain_value vs"
| "plain_value (Object members) \<longleftrightarrow> list_all (\<lambda>e. plain (fst e) \<and> plain_value (snd e)) members"
| "plain_value _ \<longleftrightarrow> True"

fun plain_size :: "json_value \<Rightarrow> nat" where
  "plain_size (Integer i) = 17"
| "plain_size (Unsigned u) = 16"
| "plain_size (String s) = length s + 2"
| "plain_size (Array vs) = 2 + sum_list (map (\<lambda>v. plain_size v + 1) vs)"
| "plain_size (Object members) = 2 + sum_list (map (\<lambda>e. length (fst e) + 4 + plain_size (snd e)) members)"
| "plain_size _ = 5"

lemma sum_list_le: "(\<And>x. x \<in> set xs \<Longrightarrow> f x \<le> (g x :: nat)) \<Longrightarrow> sum_list (map f xs) \<le> sum_list (map g xs)"
  by (induction xs) (simp_all add: add_mono)

lemma written_length_le: "well_formed d v \<Longrightarrow> plain_value v \<Longrightarrow> written_length v \<le> plain_size v"
proof (induction v arbitrary: d rule: json_induct)
  case (Integer i)
  then show ?case using safe_dec [of "unsigned_abs i"] by (simp add: i64_to_string_def)
next
  case (Unsigned u)
  then show ?case using safe_dec [of "unat u"] by simp
next
  case (Array vs)
  have "sum_list (map written_length vs) \<le> sum_list (map plain_size vs)"
    using Array by (intro sum_list_le) (auto simp: list_all_iff)
  then show ?case by (simp add: sum_list_Suc)
next
  case (Object members)
  have "sum_list (map (\<lambda>e. length (write_string (fst e)) + 1 + written_length (snd e)) members)
      \<le> sum_list (map (\<lambda>e. length (fst e) + 3 + plain_size (snd e)) members)"
    using Object by (intro sum_list_le) (fastforce simp: list_all_iff plain_written)
  moreover have "sum_list (map (\<lambda>e. length (fst e) + 3 + plain_size (snd e)) members) + length members =
      sum_list (map (\<lambda>e. length (fst e) + 4 + plain_size (snd e)) members)"
    by (induction members) simp_all
  ultimately show ?case by simp
qed (simp_all add: plain_written)

lemma canonicalize_plain:
  assumes "well_formed 0 v" "plain_value v" "plain_size v \<le> MAX_CANONICAL_JSON_BYTES"
  shows "\<exists>c. canonicalize_value v = Ok c \<and> length c \<le> plain_size v"
  using canonicalize_well_formed [OF assms(1)] written_length_le [OF assms(1,2)] assms(3) by fastforce

text \<open>Well-formedness at a smaller depth, to put a value into an envelope.\<close>

lemma well_formed_shallower: "well_formed d v \<Longrightarrow> k \<le> d \<Longrightarrow> well_formed k v"
  by (induction v arbitrary: d k rule: json_induct) fastforce+

section \<open>Written bytes are valid UTF-8\<close>

lemma utf8_valid_concat: "\<forall>s \<in> set ss. utf8_valid s \<Longrightarrow> utf8_valid (concat ss)"
  by (induction ss) simp_all

lemma ascii_Cons_valid: "byte c < 128 \<Longrightarrow> utf8_valid s \<Longrightarrow> utf8_valid (c # s)"
  using utf8_valid_append [of "[c]" s] by simp

lemma hex_digit_ascii: "n < 16 \<Longrightarrow> byte (hex_digit n) < 128"
  by (auto simp: hex_digit_def)

lemma write_char_valid: "is_scalar c \<Longrightarrow> utf8_valid (write_char c)"
proof (cases "c \<le> 0x1F")
  case True
  then have "byte (hex_digit (c div 16)) < 128" "byte (hex_digit (c mod 16)) < 128" by (auto intro!: hex_digit_ascii)
  with True show "is_scalar c \<Longrightarrow> utf8_valid (write_char c)" by (simp add: write_char_def)
qed (simp add: write_char_def)

lemma write_string_valid: "utf8_valid (write_string s)"
  unfolding write_string_def
  by (intro utf8_valid_append utf8_valid_concat) (auto intro!: write_char_valid scalar_chars)

lemma dec_ascii: "is_ascii (dec n)"
  by (auto simp: is_ascii_def list_all_iff dest!: dec_digits dest: ascii_less)

lemma write_valid:
  "write_value v d = Ok out \<Longrightarrow> utf8_valid out"
  "write_items vs d first = Ok out' \<Longrightarrow> utf8_valid out'"
  "write_members ms d prev = Ok out'' \<Longrightarrow> utf8_valid out''"
proof (induction v d and vs d first and ms d prev arbitrary: out and out' and out''
    rule: write_value_write_items_write_members.induct)
  case (1 v depth)
  then show ?case
    by (cases v) (auto simp: write_value.simps write_string_valid dec_ascii i64_to_string_def
        split: if_splits intro!: ascii_Cons_valid)
next
  case (5 key child members depth previous)
  then show ?case
    by (auto simp: write_string_valid split: if_splits intro!: ascii_Cons_valid utf8_valid_append)
qed (auto intro!: ascii_Cons_valid)

lemma canonicalize_utf8: "canonicalize_value v = Ok c \<Longrightarrow> utf8_valid c"
  by (auto simp: canonicalize_value_def dest: write_valid)

end
