(* ===== verification/Envelope_Flow.thy ===== *)
theory Envelope_Flow
  imports Envelope Wire_Size
begin

text \<open>
  What the functions over signed envelopes guarantee together: signing always succeeds on valid
  bodies of bounded size, what was signed is read back and verifies, a signature covers every field,
  and a plaintext that is sealed in answer to an offer reaches the holder of the offered key.
\<close>

section \<open>When sealing succeeds\<close>

text \<open>A host library whose digests, ciphers and signatures answer, with outputs of the documented lengths.\<close>

definition lib_answers :: "libcrypto \<Rightarrow> bool" where
  "lib_answers lib \<longleftrightarrow>
     (\<forall>k d. \<exists>out. lib_hmac lib k d = Some out \<and> length out = 32) \<and>
     (\<forall>d. \<exists>out. lib_digest lib d = Some out \<and> length out = 32) \<and>
     (\<forall>k n a p. \<exists>c t. lib_seal lib k n a p = Ok (c, t) \<and> length c = length p \<and> length t = 16) \<and>
     (\<forall>s m. \<exists>sig. lib_ed25519_sign lib s m = Ok sig \<and> length sig = 64)"

lemma toy_lib_answers: "lib_answers toy_lib"
  by (simp add: lib_answers_def toy_lib_def checksum_def)

lemma hmac_answers: "lib_answers lib \<Longrightarrow> \<exists>out. hmac_sha256 lib k d = Ok out \<and> length out = 32"
proof -
  assume "lib_answers lib"
  then obtain out where "lib_hmac lib k d = Some out" "length out = 32" unfolding lib_answers_def by blast
  then show ?thesis by (simp add: hmac_sha256_def N_SECRET_def)
qed

lemma sha256_answers: "lib_answers lib \<Longrightarrow> \<exists>out. sha256 lib d = Ok out \<and> length out = 32"
proof -
  assume "lib_answers lib"
  then obtain out where "lib_digest lib d = Some out" "length out = 32" unfolding lib_answers_def by blast
  then show ?thesis by (simp add: sha256_def N_SECRET_def)
qed

lemma sign_answers: "lib_answers lib \<Longrightarrow> \<exists>sig. ed25519_sign lib key m = Ok sig"
proof -
  assume "lib_answers lib"
  then obtain sig where "lib_ed25519_sign lib (seed key) m = Ok sig" "length sig = 64"
    unfolding lib_answers_def by blast
  then show ?thesis by (simp add: ed25519_sign_def SIGNATURE_BYTES_def)
qed

lemma expand_answers:
  assumes "lib_answers lib" "len \<in> {1..32}"
  shows "\<exists>out. labeled_expand lib prk suite label info len = Ok out \<and> length out = len"
proof -
  from assms(2) have "(31 + len) div 32 = 1" by auto
  moreover from hmac_answers [OF assms(1)]
  obtain out where "hmac_sha256 lib prk ((be16 len @ ''HPKE-v1'' @ suite @ label @ info) @ [char_of (1 :: nat)]) = Ok out"
      "length out = 32" by blast
  ultimately show ?thesis using assms(2) by (simp add: labeled_expand_def N_SECRET_def Let_def add.commute)
qed

lemma key_schedule_answers:
  assumes "lib_answers lib"
  shows "\<exists>key nonce. key_schedule lib shared enc pk info = Ok (key, nonce) \<and> length key = 32 \<and> length nonce = 12"
proof -
  note h = hmac_answers [OF assms]
  from h obtain prk where prk: "labeled_extract lib [] kem_suite_id ''eae_prk'' shared = Ok prk"
    unfolding labeled_extract_def by blast
  obtain s where s: "labeled_expand lib prk kem_suite_id ''shared_secret'' (enc @ pk) 32 = Ok s"
    using expand_answers [OF assms, of 32 prk kem_suite_id "''shared_secret''" "enc @ pk"] by auto
  from h obtain psk where psk: "labeled_extract lib [] hpke_suite_id ''psk_id_hash'' [] = Ok psk"
    unfolding labeled_extract_def by blast
  from h obtain ih where ih: "labeled_extract lib [] hpke_suite_id ''info_hash'' info = Ok ih"
    unfolding labeled_extract_def by blast
  from h obtain secret where secret: "labeled_extract lib s hpke_suite_id ''secret'' [] = Ok secret"
    unfolding labeled_extract_def by blast
  obtain key where "labeled_expand lib secret hpke_suite_id ''key'' (CHR 0x00 # psk @ ih) 32 = Ok key" "length key = 32"
    using expand_answers [OF assms, of 32 secret hpke_suite_id "''key''" "CHR 0x00 # psk @ ih"] by auto
  moreover obtain nonce where
      "labeled_expand lib secret hpke_suite_id ''base_nonce'' (CHR 0x00 # psk @ ih) 12 = Ok nonce" "length nonce = 12"
    using expand_answers [OF assms, of 12 secret hpke_suite_id "''base_nonce''" "CHR 0x00 # psk @ ih"] by auto
  ultimately show ?thesis using prk s psk ih secret by (simp add: key_schedule_def Let_def N_SECRET_def N_NONCE_def)
qed

lemma aead_answers:
  assumes "lib_answers lib" "length key = 32" "length nonce = 12"
  shows "\<exists>c. aead_encrypt lib key nonce p aad = Ok c \<and> length c = length p + 16"
proof -
  from assms(1) obtain c t where "lib_seal lib key nonce aad p = Ok (c, t)" "length c = length p" "length t = 16"
    unfolding lib_answers_def by blast
  with assms(2,3) show ?thesis by (simp add: aead_encrypt_def N_SECRET_def N_NONCE_def N_TAG_def)
qed

lemma seal_answers:
  assumes "lib_answers lib" "from_private_key lib r = Ok eph" "derive_shared lib r recipient = Ok shared"
  shows "\<exists>sealed. seal_with_info lib (Some r) recipient p info aad = Ok sealed \<and> sm_enc sealed = rk_public eph \<and>
    length (sm_ciphertext sealed) = length p + 16"
proof -
  have l: "length recipient = 32" using assms(3) by (auto simp: derive_shared_def N_SECRET_def)
  have eph: "rk_private eph = r" using assms(2) by (auto simp: from_private_key_Ok)
  obtain key nonce where "key_schedule lib shared (rk_public eph) recipient info = Ok (key, nonce)"
      "length key = 32" "length nonce = 12"
    using key_schedule_answers [OF assms(1)] by blast
  moreover from aead_answers [OF assms(1) this(2,3)] obtain c where
      "aead_encrypt lib key nonce p aad = Ok c" "length c = length p + 16" by blast
  ultimately show ?thesis using assms(2,3) l eph
    by (simp add: seal_with_info_def seal_with_ephemeral_def generate_def N_SECRET_def Let_def)
qed

text \<open>A body of plain strings and safe integers is signed, and the envelope adds less than 400 bytes.\<close>

lemma sign_succeeds:
  assumes "lib_answers lib" "validate_key_id kid = Ok ()" "0 < epoch" "unat epoch \<le> MAX_SAFE_INTEGER" "is_object body"
    "validate_document_body lib kind body epoch = Ok ()" "well_formed 1 body" "plain_value body"
    "plain_size body \<le> 900000"
  shows "\<exists>e c. sign lib kind body kid epoch key = Ok e \<and> to_json e = Ok c \<and> length c \<le> plain_size body + 400"
proof -
  let ?e = "\<lambda>sig. \<lparr>se_kind = kind, se_body = body, se_key_id = kid, se_epoch = epoch, se_signature = sig\<rparr>"
  note kid = key_id_plain [OF assms(2)]
  note k = kind_length [of kind]
  have sizes: "plain_size (Object (unsigned_fields (?e sig))) \<le> plain_size body + 400"
      "length sig = 64 \<Longrightarrow> plain_size (Object (unsigned_fields (?e sig) @ [(''sig'', String (base64_url_encode sig))])) \<le> plain_size body + 400" for sig
    using kid k by (simp_all add: unsigned_fields_def length_base64_url_encode)
  have wf: "well_formed 0 (Object (unsigned_fields (?e sig)))"
      "well_formed 0 (Object (unsigned_fields (?e sig) @ [(''sig'', String (base64_url_encode s))]))" for sig s
    using assms(4,7) plain_utf8 kid
    by (simp_all add: unsigned_fields_def DOCUMENT_VERSION_def MAX_DEPTH_def MAX_SAFE_INTEGER_def)
  have plain: "plain_value (Object (unsigned_fields (?e sig)))"
      "plain_value (Object (unsigned_fields (?e sig) @ [(''sig'', String (base64_url_encode s))]))" for sig s
    using assms(8) kid by (simp_all add: unsigned_fields_def plain_char_def)
  have fits: "n \<le> MAX_CANONICAL_JSON_BYTES" if "n \<le> plain_size body + 400" for n
    using that assms(9) by (simp add: MAX_CANONICAL_JSON_BYTES_def)
  obtain c where "canonicalize_value (Object (unsigned_fields (?e (replicate 64 (CHR 0x00))))) = Ok c"
    using canonicalize_plain [OF wf(1) plain(1) fits [OF sizes(1)]] by blast
  moreover obtain sig where sig: "ed25519_sign lib key (DOCUMENT_DOMAIN @ c) = Ok sig" using sign_answers [OF assms(1)] by blast
  ultimately have "sign lib kind body kid epoch key = Ok (?e sig)"
    using assms(2,3,5,6) by (simp add: sign_def sign_with_def Let_def signing_bytes_def SIGNATURE_BYTES_def)
  moreover have l: "length sig = 64" using sig by (rule ed25519_sign_length)
  obtain j where "to_json (?e sig) = Ok j" "length j \<le> plain_size body + 400"
    using canonicalize_plain [OF wf(2) plain(2) fits [OF sizes(2) [OF l]]] sizes(2) [OF l] le_trans
    by (force simp: to_json_def)
  ultimately show ?thesis by blast
qed

lemma normalized_succeeds:
  assumes "sign lib kind body kid epoch key = Ok e" "wire_safe body" "to_json e = Ok c"
  shows "normalized lib e = Ok (e\<lparr>se_body := norm body\<rparr>)"
proof -
  have "on_wire e" using assms(1,2) by (intro signed_on_wire) (auto simp: wire_safe_def MAX_VALUES_def)
  from from_json_to_json [OF assms(3) this sign_Ok(5) [OF assms(1)]] assms(3) sign_Ok(2) [OF assms(1)]
  show ?thesis
    using canonicalize_utf8 by (auto simp: normalized_def normalized_with_def from_json_def to_json_def)
qed

lemma versioned_key_id_valid:
  assumes "is_valid_opaque_id node_id" "length (versioned_key_id node_id version) \<le> 128"
  shows "validate_key_id (versioned_key_id node_id version) = Ok ()"
proof -
  have "is_token_char c" if "c \<in> set (dec (unat version))" for c
    using dec_digits [OF that] by (auto simp: is_token_char_def ascii_defs)
  with assms show ?thesis
    by (auto simp: validate_key_id_def versioned_key_id_def is_valid_opaque_id_def list_all_iff is_token_char_def)
qed

lemma party_key_id_versioned: "party_key_id p = versioned_key_id (fp_node_id p) (fp_key_version p)"
  by (simp add: party_key_id_def versioned_key_id_def)

lemma hex_digest_valid: "length d = 32 \<Longrightarrow> valid_sha256_hex (hex d)"
  using hex_digits [of d] by (simp add: valid_sha256_hex_def)

lemma terms_facts:
  assumes "terms_digest_hex lib t = Ok h"
  shows "is_valid_opaque_id (ft_fulfillment_id t)" "16 \<le> length (ft_fulfillment_id t)"
    "is_valid_opaque_id (fp_node_id (ft_issuer t))" "0 < fp_key_version (ft_issuer t)"
    "ft_max_plaintext_bytes t \<le> MAX_PLAINTEXT_BYTES"
    "unat (fp_key_version (ft_issuer t)) \<le> MAX_SAFE_INTEGER" "unat (ft_expires_at_ms t) \<le> MAX_SAFE_INTEGER"
    "valid_sha256_hex h" "\<exists>digest. terms_digest lib t = Ok digest"
proof -
  from assms obtain v c digest where v: "terms_to_value lib t = Ok v" "canonicalize_value v = Ok c"
      "sha256 lib (TERMS_DOMAIN @ c) = Ok digest" "h = hex digest"
    by (auto simp: terms_digest_hex_def terms_digest_def)
  then show "valid_sha256_hex h" "\<exists>digest. terms_digest lib t = Ok digest"
    using hex_digest_valid sha256_length by (auto simp: terms_digest_def)
  have wf: "well_formed 0 v"
    using terms.safe [OF v(1)] canonicalize_value_Ok(1) [OF v(2)] by (simp add: wire_safe_def)
  obtain iv where iv: "party_to_value lib (ft_issuer t) = Ok iv" "well_formed 1 iv" "unat (ft_expires_at_ms t) \<le> MAX_SAFE_INTEGER"
    using v(1) wf by (auto simp: terms_to_value_def)
  then show "is_valid_opaque_id (fp_node_id (ft_issuer t))" "0 < fp_key_version (ft_issuer t)"
    "unat (fp_key_version (ft_issuer t)) \<le> MAX_SAFE_INTEGER" "unat (ft_expires_at_ms t) \<le> MAX_SAFE_INTEGER"
    by (auto simp: party_to_value_def word_neq_0_conv)
  from v(1) show "is_valid_opaque_id (ft_fulfillment_id t)" "16 \<le> length (ft_fulfillment_id t)"
    "ft_max_plaintext_bytes t \<le> MAX_PLAINTEXT_BYTES"
    by (auto simp: terms_to_value_def)
qed

lemma offer_facts:
  assumes "offer_to_value d = Ok v"
  shows "is_valid_opaque_id (fo_offer_id d)" "16 \<le> length (fo_offer_id d)" "valid_sha256_hex (fo_terms_digest d)"
    "0 < fo_issued_at_ms d" "\<exists>key. offer_recipient_key d = Ok key"
  using assms by (auto simp: offer_to_value_def offer_recipient_key_def public_key_def word_neq_0_conv)

lemma public_key_encode:
  "length k = 32 \<Longrightarrow> \<not> list_all (\<lambda>b. byte b = 0) k \<Longrightarrow> public_key (base64_url_encode k) label = Ok k"
  by (simp add: public_key_Ok)

lemma sealed_bytes_of:
  assumes "fs_enc d = base64_url_encode enc" "fs_ciphertext d = base64_url_encode ct"
    "length enc = 32" "\<not> list_all (\<lambda>b. byte b = 0) enc" "17 \<le> length ct" "length ct \<le> 8208"
  shows "submit_sealed_bytes d = Ok (enc, ct)"
proof -
  have size: "(length ct * 4 + 2) div 3 * 3 div 4 = length ct" by presburger
  have "\<not> 2 ^ 64 \<le> (length ct * 4 + 2) div 3 * 3" using assms(6) by simp
  moreover have "base64_url_decode (base64_url_encode ct) (length ct) = Some ct"
    using assms(5) by (intro base64_decode_encode) auto
  ultimately show ?thesis
    unfolding submit_sealed_bytes_def assms(1,2) public_key_encode [OF assms(3,4)] length_base64_url_encode Let_def size
    using assms(5,6) by (simp add: AEAD_TAG_BYTES_def MAX_PLAINTEXT_BYTES_def)
qed

lemma aad_succeeds:
  assumes "offer_to_value offer = Ok v"
  shows "\<exists>aad. fulfillment_aad offer = Ok aad"
proof -
  let ?v = "Object [(''offer_id'', String (fo_offer_id offer)),
      (''recipient_public'', String (fo_recipient_public offer)), (''terms_digest'', String (fo_terms_digest offer))]"
  note f = offer_facts [OF assms]
  note id = opaque_id_plain [OF f(1)] and digest = sha256_hex_plain [OF f(3)]
  from f(5) obtain key where key: "fo_recipient_public offer = base64_url_encode key" "length key = 32"
    by (auto simp: offer_recipient_key_def public_key_Ok)
  have "well_formed 0 ?v" using plain_utf8 id digest key by (simp add: MAX_DEPTH_def)
  moreover have "plain_value ?v" using id digest key by (simp add: plain_char_def)
  moreover have "plain_size ?v \<le> MAX_CANONICAL_JSON_BYTES"
    using id digest key by (simp add: MAX_CANONICAL_JSON_BYTES_def length_base64_url_encode)
  ultimately obtain c where "canonicalize_value ?v = Ok c" using canonicalize_plain by blast
  then show ?thesis by (auto simp: fulfillment_aad_def)
qed

text \<open>
  What a broker has to hold to answer an offer: an offer that is valid and matches the terms, a
  plaintext that is not empty and within the limit of the terms, the key of the issuer that the terms
  name, a time at which the offer is open, and an ephemeral private key whose public key is not zero
  and that agrees with the offered key.
\<close>

definition can_answer ::
    "libcrypto \<Rightarrow> string \<Rightarrow> fulfillment_terms \<Rightarrow> fulfillment_offer \<Rightarrow> string \<Rightarrow> ed25519_key_pair \<Rightarrow> u64 \<Rightarrow> bool" where
  "can_answer lib r terms offer plaintext key now \<longleftrightarrow>
     offer_matches_terms lib offer terms = Ok () \<and> is_ok (offer_to_value offer) \<and>
     plaintext \<noteq> [] \<and> length plaintext \<le> unat (ft_max_plaintext_bytes terms) \<and>
     party_signing_bytes (ft_issuer terms) = Ok (ed_public_key key) \<and>
     fo_issued_at_ms offer \<le> now \<and> now < fo_expires_at_ms offer \<and>
     (case (from_private_key lib r, offer_recipient_key offer) of
        (Ok eph, Ok recipient) \<Rightarrow>
          \<not> list_all (\<lambda>b. byte b = 0) (rk_public eph) \<and> is_ok (derive_shared lib r recipient)
      | _ \<Rightarrow> False)"

lemma submit_body:
  assumes "terms_digest_hex lib terms = Ok (fo_terms_digest offer)" "offer_to_value offer = Ok ov"
    "sealed_submit lib terms offer sealed now = Ok d" "length (sm_enc sealed) = 32"
    "\<not> list_all (\<lambda>b. byte b = 0) (sm_enc sealed)" "17 \<le> length (sm_ciphertext sealed)"
    "length (sm_ciphertext sealed) \<le> 8208" "0 < now" "unat now \<le> MAX_SAFE_INTEGER"
  obtains body where "submit_to_value d = Ok body" "well_formed 1 body" "plain_value body" "plain_size body \<le> 13000"
proof -
  note t = terms_facts [OF assms(1)] and f = offer_facts [OF assms(2)]
  from assms(3) obtain digest where digest: "sha256 lib (sm_enc sealed @ sm_ciphertext sealed) = Ok digest"
    and d: "d = \<lparr>fs_fulfillment_id = ft_fulfillment_id terms, fs_terms_digest = fo_terms_digest offer,
         fs_offer_id = fo_offer_id offer, fs_node_id = fp_node_id (ft_issuer terms),
         fs_node_key_version = fp_key_version (ft_issuer terms), fs_enc = base64_url_encode (sm_enc sealed),
         fs_ciphertext = base64_url_encode (sm_ciphertext sealed), fs_ciphertext_digest = hex digest,
         fs_issued_at_ms = now\<rparr>"
    by (auto simp: sealed_submit_def)
  have hx: "valid_sha256_hex (hex digest)" using sha256_length [OF digest] by (rule hex_digest_valid)
  have sealed: "submit_sealed_bytes d = Ok (sm_enc sealed, sm_ciphertext sealed)"
    using assms(4-7) by (intro sealed_bytes_of) (simp_all add: d)
  note p = opaque_id_plain [OF t(1)] opaque_id_plain [OF f(1)] opaque_id_plain [OF t(3)] sha256_hex_plain [OF f(3)]
    sha256_hex_plain [OF hx]
  have ct: "(length (sm_ciphertext sealed) * 4 + 2) div 3 \<le> 10944" using assms(7) by simp
  let ?body = "Object
       [(''fulfillment_id'', String (fs_fulfillment_id d)), (''terms_digest'', String (fs_terms_digest d)),
        (''offer_id'', String (fs_offer_id d)), (''node_id'', String (fs_node_id d)),
        (''node_key_version'', Unsigned (fs_node_key_version d)), (''enc'', String (fs_enc d)),
        (''ciphertext'', String (fs_ciphertext d)), (''ciphertext_digest'', String (fs_ciphertext_digest d)),
        (''issued_at_ms'', Unsigned (fs_issued_at_ms d))]"
  have "submit_to_value d = Ok ?body"
    unfolding submit_to_value_def sealed using t(1-4) f(1-3) hx assms(8) by (simp add: d word_neq_0_conv)
  moreover have "well_formed 1 ?body" using p t(6) assms(9) plain_utf8 by (simp add: d MAX_DEPTH_def)
  moreover have "plain_value ?body" using p by (simp add: d plain_char_def)
  moreover have "plain_size ?body \<le> 13000" using p ct assms(4) by (simp add: d length_base64_url_encode)
  ultimately show ?thesis using that by blast
qed

lemma submit_validates:
  "submit_to_value d = Ok body \<Longrightarrow>
   validate_document_body lib KFulfillmentSubmit body (fs_node_key_version d) = Ok ()"
  by (subst validate_document_body_unfold)
    (simp add: validate_step_def validate_body_with_def submits.read_back epoch_matches_def)

lemma submit_is_object: "submit_to_value d = Ok body \<Longrightarrow> is_object body"
  by (auto simp: submit_to_value_def is_object_def)

lemma seal_submit_succeeds:
  assumes "lib_answers lib" "can_answer lib r terms offer plaintext key now"
    and id: "length (party_key_id (ft_issuer terms)) \<le> 128"
  obtains e c where "seal_submit lib (Some r) terms offer plaintext key now = Ok e" "to_json e = Ok c" "length c \<le> 13400"
proof -
  note a = assms(2) [unfolded can_answer_def]
  from a obtain ov eph recipient shared where ov: "offer_to_value offer = Ok ov"
    and k: "from_private_key lib r = Ok eph" "offer_recipient_key offer = Ok recipient"
      "\<not> list_all (\<lambda>b. byte b = 0) (rk_public eph)" "derive_shared lib r recipient = Ok shared"
    by (auto simp: is_ok_iff split: result.splits)
  from a have m: "terms_digest_hex lib terms = Ok (fo_terms_digest offer)"
    and w: "ft_issued_at_ms terms \<le> now" "now < ft_expires_at_ms terms"
    by (auto simp: offer_matches_Ok contains_window_def)
  note t = terms_facts [OF m] and f = offer_facts [OF ov]
  from t(9) obtain info where info: "fulfillment_info lib terms = Ok info" by (auto simp: fulfillment_info_def)
  from aad_succeeds [OF ov] obtain aad where aad: "fulfillment_aad offer = Ok aad" by blast
  from seal_answers [OF assms(1) k(1,4)] obtain sealed where
    sealed: "seal_with_info lib (Some r) recipient plaintext info aad = Ok sealed" "sm_enc sealed = rk_public eph"
      "length (sm_ciphertext sealed) = length plaintext + 16" by blast
  have len: "length plaintext \<le> 8192" "0 < length plaintext" "length (rk_public eph) = 32"
    using a t(5) k(1) by (auto simp: word_le_nat_alt MAX_PLAINTEXT_BYTES_def from_private_key_Ok)
  have now: "0 < now" "unat now \<le> MAX_SAFE_INTEGER"
    using a f(4) w(2) t(7) by (auto simp: word_less_nat_alt word_le_nat_alt)
  from sha256_answers [OF assms(1)] obtain d where d: "sealed_submit lib terms offer sealed now = Ok d"
    unfolding sealed_submit_def by (metis and_then.simps(1) map_err.simps(1))
  obtain body where body: "submit_to_value d = Ok body" "well_formed 1 body" "plain_value body" "plain_size body \<le> 13000"
    by (rule submit_body [OF m ov d]) (use sealed len k(3) now in \<open>auto simp: Suc_le_eq\<close>)
  have epoch: "fs_node_key_version d = fp_key_version (ft_issuer terms)" using d by (auto simp: sealed_submit_def)
  have kid: "validate_key_id (party_key_id (ft_issuer terms)) = Ok ()"
    using versioned_key_id_valid [OF t(3)] id by (simp add: party_key_id_versioned)
  obtain e c where e: "sign lib KFulfillmentSubmit body (party_key_id (ft_issuer terms)) (fp_key_version (ft_issuer terms)) key = Ok e"
      "to_json e = Ok c" "length c \<le> plain_size body + 400"
    using sign_succeeds [OF assms(1) kid t(4,6) submit_is_object [OF body(1)] _ body(2,3)] submit_validates [OF body(1)]
      body(4) epoch by fastforce
  have n: "normalized lib e = Ok (e\<lparr>se_body := norm (se_body e)\<rparr>)"
    using normalized_succeeds [OF e(1) submits.safe [OF body(1)] e(2)] sign_Ok(2) [OF e(1)] by simp
  have "min (ft_max_plaintext_bytes terms) MAX_PLAINTEXT_BYTES = ft_max_plaintext_bytes terms" using t(5) by simp
  with a k(2) info aad sealed d body e n w have
    "seal_submit lib (Some r) terms offer plaintext key now = Ok (e\<lparr>se_body := norm (se_body e)\<rparr>)"
    by (simp add: seal_submit_def not_less not_le)
  moreover have "to_json (e\<lparr>se_body := norm (se_body e)\<rparr>) = Ok c" using e(2) by simp
  ultimately show ?thesis using that e(3) body(4) by simp
qed

text \<open>Nothing is signed under a key id that is too long.\<close>

lemma seal_submit_key_id:
  assumes "seal_submit lib rnd terms offer plaintext key now = Ok e"
  shows "length (party_key_id (ft_issuer terms)) \<le> 128"
proof -
  from assms obtain body e' where
    "sign lib KFulfillmentSubmit body (party_key_id (ft_issuer terms)) (fp_key_version (ft_issuer terms)) key = Ok e'"
    by (auto simp: seal_submit_def Let_def)
  then obtain u where "validate_key_id (party_key_id (ft_issuer terms)) = Ok u" by (auto simp: sign_def sign_with_def)
  then show ?thesis by (simp add: key_id_plain)
qed

section \<open>Envelopes that were read\<close>

text \<open>Whatever was read from text is within the limits of the reader.\<close>

lemma member_count:
  assumes "m \<in> set members"
  shows "value_count (snd m) + length members \<le> value_count (Object members)"
proof -
  have sum: "length ms \<le> sum_list (map (\<lambda>e. value_count (snd e)) ms)" for ms :: "(string \<times> json_value) list"
  proof (induction ms)
    case (Cons m ms)
    have "1 \<le> value_count (snd m)" by (cases "snd m") auto
    with Cons show ?case by simp
  qed simp
  obtain a b where "members = a @ m # b" using split_list [OF assms] by blast
  with sum [of a] sum [of b] show ?thesis by simp
qed

lemma from_json_on_wire:
  assumes "from_json lib source = Ok e"
  shows "on_wire e"
proof -
  from assms obtain members key where v: "parse_json source = Ok (Object members)" "length members = 6"
      "map_of members ''body'' = Some (se_body e)" "validate_key_id (se_key_id e) = Ok key"
    by (auto simp: from_json_def from_json_with_def read_body_def Option.bind_eq_Some_conv split: if_splits elim!: as_object.elims)
  have wf: "well_formed 0 (Object members)" "value_count (Object members) \<le> MAX_VALUES"
    using parse_json_Ok [OF v(1)] by simp_all
  have "(''body'', se_body e) \<in> set members" using v(3) by (rule map_of_SomeD)
  with member_count [OF this] wf v(2) well_formed_utf8_strings [OF wf(1)] have
    "value_count (se_body e) + 6 \<le> MAX_VALUES" "utf8_strings (se_body e)" by (simp, fastforce)
  with key_id_plain [OF v(4)] plain_ascii show ?thesis by (simp add: on_wire_def)
qed

section \<open>Concrete envelopes and documents\<close>

definition toy_key :: ed25519_key_pair where
  "toy_key = \<lparr>seed = replicate 32 (CHR ''k''), ed_public_key = replicate 32 (CHR ''k'')\<rparr>"

lemma toy_key_made: "from_seed toy_lib (replicate 32 (CHR ''k'')) = Ok toy_key"
  by (simp add: from_seed_def toy_lib_def toy_key_def SEED_BYTES_def PUBLIC_KEY_BYTES_def)

abbreviation audit_body :: "u64 \<Rightarrow> json_value" where
  "audit_body n \<equiv> Object [(''code'', Unsigned n)]"

lemma audit_validates: "validate_document_body lib KAuditEvent (audit_body n) epoch = Ok ()"
  by (subst validate_document_body_unfold) (simp add: validate_step_def is_object_def)

lemma toy_kid: "validate_key_id ''k1'' = Ok ()"
  by (simp add: validate_key_id_def is_token_char_def char_eval)

lemma toy_envelope:
  assumes "unat n \<le> MAX_SAFE_INTEGER"
  shows "\<exists>e c. sign toy_lib KAuditEvent (audit_body n) ''k1'' 3 toy_key = Ok e \<and> to_json e = Ok c"
proof -
  have "\<exists>e c. sign toy_lib KAuditEvent (audit_body n) ''k1'' 3 toy_key = Ok e \<and> to_json e = Ok c \<and>
      length c \<le> plain_size (audit_body n) + 400"
    using toy_lib_answers toy_kid assms
    by (intro sign_succeeds)
      (simp_all add: audit_validates is_object_def MAX_SAFE_INTEGER_def MAX_DEPTH_def plain_char_def)
  then show ?thesis by blast
qed

definition sample_party :: "string \<Rightarrow> string \<Rightarrow> char \<Rightarrow> fulfillment_party" where
  "sample_party node workload k =
     \<lparr>fp_node_id = node, fp_workload_id = workload, fp_unit = ''a.service'', fp_credential = ''db'',
      fp_registration_version = 1, fp_key_version = 1, fp_signing_public = base64_url_encode (replicate 32 k),
      fp_recipient_public = base64_url_encode (replicate 32 (CHR ''s'')),
      fp_fingerprint = hex (checksum (FINGERPRINT_DOMAIN @ replicate 32 k @ replicate 32 (CHR ''s'')))\<rparr>"

definition sample_terms :: "string \<Rightarrow> fulfillment_terms" where
  "sample_terms node =
     \<lparr>ft_fulfillment_id = ''ffffffffffffffff'', ft_tenant_id = ''t1'',
      ft_issuer = sample_party node ''w1'' (CHR ''k''), ft_recipient = sample_party ''n2'' ''w2'' (CHR ''r''),
      ft_policy_version = 1, ft_rule_id = ''r1'', ft_approval_reference = None, ft_prior_fulfillment_id = None,
      ft_max_plaintext_bytes = 100, ft_issued_at_ms = 1000, ft_expires_at_ms = 61000, ft_issuer_epoch = 1\<rparr>"

definition sample_offer :: "string \<Rightarrow> fulfillment_offer" where
  "sample_offer digest =
     \<lparr>fo_fulfillment_id = ''ffffffffffffffff'', fo_terms_digest = digest, fo_offer_id = ''oooooooooooooooo'',
      fo_node_id = ''n2'', fo_node_key_version = 1,
      fo_recipient_public = base64_url_encode (replicate 32 (CHR ''s'')), fo_issued_at_ms = 1000,
      fo_expires_at_ms = 31000\<rparr>"

lemma toy_sha256: "sha256 toy_lib d = Ok (checksum d)"
  by (simp add: sha256_def toy_lib_def checksum_def N_SECRET_def)

lemma length_checksum [simp]: "length (checksum d) = 32"
  by (simp add: checksum_def)

lemma toy_public_key:
  "byte k \<noteq> 0 \<Longrightarrow> public_key (base64_url_encode (replicate 32 k)) label = Ok (replicate 32 k)"
  by (intro public_key_encode) (auto simp: list_all_replicate)

lemma sample_party_valid:
  assumes "byte k \<noteq> 0" "is_valid_opaque_id node" "is_valid_opaque_id workload"
  obtains v where "party_to_value toy_lib (sample_party node workload k) = Ok v" "well_formed 1 v" "plain_value v"
    "plain_size v \<le> 1000"
proof -
  note id = opaque_id_plain [OF assms(2)] opaque_id_plain [OF assms(3)]
  have "validate_unit ''a.service'' = Ok ()" "credential_name ''db'' = Ok ()"
    by (simp_all add: validate_unit_def credential_name_def suffix_eval char_eval is_token_char_def)
  then have "\<exists>v. party_to_value toy_lib (sample_party node workload k) = Ok v"
    using assms by (simp add: party_to_value_def sample_party_def toy_public_key node_key_fingerprint_def toy_sha256)
  then obtain v where v: "party_to_value toy_lib (sample_party node workload k) = Ok v" by blast
  then have "well_formed 1 v" "plain_value v" "plain_size v \<le> 1000"
    using id plain_utf8
    by (auto simp: party_to_value_def sample_party_def MAX_DEPTH_def MAX_SAFE_INTEGER_def length_base64_url_encode
        plain_char_def)
  with v that show ?thesis by blast
qed

lemma sample_terms_digest:
  assumes "is_valid_opaque_id node" "node \<noteq> ''n2''"
  shows "\<exists>digest. terms_digest_hex toy_lib (sample_terms node) = Ok digest"
proof -
  have ids: "is_valid_opaque_id ''n2''" "is_valid_opaque_id ''w1''" "is_valid_opaque_id ''w2''"
    by (simp_all add: is_valid_opaque_id_def MAX_OPAQUE_ID_BYTES_def char_eval)
  obtain iv where iv: "party_to_value toy_lib (sample_party node ''w1'' (CHR ''k'')) = Ok iv" "well_formed 1 iv"
      "plain_value iv" "plain_size iv \<le> 1000"
    by (rule sample_party_valid [of "CHR ''k''" node "''w1''"]) (use ids assms in auto)
  obtain rv where rv: "party_to_value toy_lib (sample_party ''n2'' ''w2'' (CHR ''r'')) = Ok rv" "well_formed 1 rv"
      "plain_value rv" "plain_size rv \<le> 1000"
    by (rule sample_party_valid [of "CHR ''r''" "''n2''" "''w2''"]) (use ids in auto)
  have "validate_token ''r1'' ''rule id'' = Ok ()" "is_valid_opaque_id ''ffffffffffffffff''" "is_valid_opaque_id ''t1''"
    by (simp_all add: validate_token_def is_token_char_def is_valid_opaque_id_def MAX_OPAQUE_ID_BYTES_def char_eval)
  then obtain v where v: "terms_to_value toy_lib (sample_terms node) = Ok v"
    using iv(1) rv(1)
    by (simp add: terms_to_value_def sample_terms_def long_id_def MAX_PLAINTEXT_BYTES_def MAX_FULFILLMENT_LIFETIME_MS_def)
      (simp add: sample_party_def assms)
  then have "well_formed 0 v" "plain_value v" "plain_size v \<le> MAX_CANONICAL_JSON_BYTES"
    using iv rv
    by (auto simp: terms_to_value_def sample_terms_def MAX_DEPTH_def MAX_SAFE_INTEGER_def MODE_REENCRYPT_def
        plain_char_def MAX_CANONICAL_JSON_BYTES_def)
  then obtain c where "canonicalize_value v = Ok c" using canonicalize_plain by blast
  with v show ?thesis by (simp add: terms_digest_hex_def terms_digest_def toy_sha256)
qed

lemma sample_can_answer:
  assumes "terms_digest_hex toy_lib (sample_terms node) = Ok digest" "node \<noteq> ''n2''"
  shows "can_answer toy_lib (replicate 32 (CHR ''e'')) (sample_terms node) (sample_offer digest) ''secret'' toy_key 2000"
proof -
  have "is_valid_opaque_id ''ffffffffffffffff''" "is_valid_opaque_id ''oooooooooooooooo''" "is_valid_opaque_id ''n2''"
    by (simp_all add: is_valid_opaque_id_def MAX_OPAQUE_ID_BYTES_def char_eval)
  then have "is_ok (offer_to_value (sample_offer digest))"
    using terms_facts(8) [OF assms(1)]
    by (simp add: is_ok_iff offer_to_value_def sample_offer_def toy_public_key MAX_OFFER_LIFETIME_MS_def)
  moreover have "offer_matches_terms toy_lib (sample_offer digest) (sample_terms node) = Ok ()"
    using assms by (simp add: offer_matches_Ok sample_offer_def) (simp add: sample_terms_def sample_party_def contains_window_def)
  moreover have "from_private_key toy_lib (replicate 32 (CHR ''e'')) =
      Ok \<lparr>rk_private = replicate 32 (CHR ''e''), rk_public = replicate 32 (CHR ''e'')\<rparr>"
    by (simp add: from_private_key_Ok toy_lib_def)
  moreover have "is_ok (derive_shared toy_lib (replicate 32 (CHR ''e'')) (replicate 32 (CHR ''s'')))"
    by (simp add: is_ok_iff derive_shared_def toy_lib_def N_SECRET_def list_all_replicate)
  ultimately show ?thesis
    by (simp add: can_answer_def offer_recipient_key_def)
      (simp add: sample_offer_def sample_terms_def sample_party_def toy_public_key toy_key_def party_signing_bytes_def
        party_key_id_def list_all_replicate dec.simps)
qed

lemma sample_ids: "is_valid_opaque_id ''n1''" "is_valid_opaque_id (replicate 128 (CHR ''n''))"
  by (simp_all add: is_valid_opaque_id_def MAX_OPAQUE_ID_BYTES_def char_eval)

lemma sample_key_id: "length (party_key_id (ft_issuer (sample_terms ''n1''))) \<le> 128"
  by (simp add: sample_terms_def sample_party_def party_key_id_def dec.simps)

section \<open>Properties\<close>

text \<open>C32: validating a body ends although bodies nest envelopes whose bodies are validated in turn: the
  number of unfoldings of \<open>validate_document_body\<close> is enough, whatever is called at the bottom and
  however many more there are, and the function satisfies the recursive equation of the source.\<close>

theorem validation_terminates:
  "validate_iter lib base (MAX_DEPTH + 2 + n) kind body epoch = validate_document_body lib kind body epoch \<and>
   validate_document_body lib kind body epoch = validate_step lib (validate_document_body lib) kind body epoch"
proof
  show "validate_iter lib base (MAX_DEPTH + 2 + n) kind body epoch = validate_document_body lib kind body epoch"
    unfolding validate_document_body_def by (rule validate_iter_enough) simp_all
qed (rule validate_document_body_unfold)

text \<open>C33: an envelope that was signed and sent is read back with the same kind, key id and epoch and
  with its body in canonical order; sending it again gives the same bytes; and it verifies under the
  signer's public key exactly for the signer's key id and for a highest known epoch that is not
  above its own. The strings of the body have to be valid UTF-8, as Rust strings are, and the body
  with the six values that the envelope adds has to stay within the number of values that the parser
  accepts: neither signing nor writing enforces that limit, and an envelope above it is sent but
  cannot be read.\<close>

theorem envelope_roundtrip:
  assumes "ed25519_correct lib" "from_seed lib s = Ok key" "sign lib kind body kid epoch key = Ok e"
    "to_json e = Ok c" "utf8_strings body" "value_count body + 6 \<le> MAX_VALUES"
  shows "\<exists>e'. from_json lib c = Ok e' \<and> se_kind e' = kind \<and> se_body e' = norm body \<and> se_key_id e' = kid \<and>
    se_epoch e' = epoch \<and> to_json e' = Ok c \<and>
    (\<forall>kid' highest. verify lib e' (ed_public_key key) kid' highest = Ok (kid' = kid \<and> highest \<le> epoch))"
proof -
  note f = sign_Ok [OF assms(3)]
  have "from_json lib c = Ok (e\<lparr>se_body := norm (se_body e)\<rparr>)"
    using assms(4) signed_on_wire [OF assms(3,5,6)] f(5) by (rule from_json_to_json)
  moreover have "verify lib (e\<lparr>se_body := norm (se_body e)\<rparr>) (ed_public_key key) kid' highest = Ok (kid' = kid \<and> highest \<le> epoch)"
      for kid' highest
    using verify_signed [OF assms(1-3)] by (simp only: verify_normalized)
  moreover have "to_json (e\<lparr>se_body := norm (se_body e)\<rparr>) = Ok c" using assms(4) by simp
  ultimately show ?thesis using f(1-4) by (intro exI [of _ "e\<lparr>se_body := norm (se_body e)\<rparr>"]) simp
qed

theorem envelope_roundtrip_witness:
  "\<exists>e c e'. sign toy_lib KAuditEvent (audit_body 7) ''k1'' 3 toy_key = Ok e \<and> to_json e = Ok c \<and>
     from_json toy_lib c = Ok e' \<and> se_body e' = audit_body 7 \<and>
     verify toy_lib e' (ed_public_key toy_key) ''k1'' 3 = Ok True \<and>
     verify toy_lib e' (ed_public_key toy_key) ''k1'' 4 = Ok False"
proof -
  obtain e c where e: "sign toy_lib KAuditEvent (audit_body 7) ''k1'' 3 toy_key = Ok e" "to_json e = Ok c"
    using toy_envelope [of 7] by (auto simp: MAX_SAFE_INTEGER_def)
  from envelope_roundtrip [OF toy_lib_laws(3) toy_key_made e] obtain e' where
    "from_json toy_lib c = Ok e'" "se_body e' = norm (audit_body 7)"
    "\<And>kid highest. verify toy_lib e' (ed_public_key toy_key) kid highest = Ok (kid = ''k1'' \<and> highest \<le> 3)"
    by (auto simp: MAX_VALUES_def)
  with e show ?thesis by auto
qed

text \<open>C34: a signature over an envelope covers its kind, key id, epoch and body: two envelopes with the
  same signed bytes agree on all of them, the body up to the order of its members. No signed envelope
  is a message of another protocol: a proof of enrollment, a session challenge or a node event. The
  two envelopes are within the limits of the reader (\<open>on_wire\<close>: valid UTF-8, an ASCII key id, and
  with the envelope's own six values no more values than the parser accepts), as every envelope is
  that was read from text.\<close>

theorem signature_covers:
  assumes "signing_bytes e = Ok m" "signing_bytes e' = Ok m" "on_wire e" "on_wire e'"
  shows "se_kind e = se_kind e' \<and> se_key_id e = se_key_id e' \<and> se_epoch e = se_epoch e' \<and>
    norm (se_body e) = norm (se_body e') \<and>
    enrollment_proof_message token signing recipient \<noteq> Ok m \<and>
    node_session_challenge_message tenant node protocol nonce hash version issuer time expires \<noteq> Ok m \<and>
    node_event_message node event_key event_kind event_body \<noteq> Ok m"
proof -
  from assms(1) obtain c where c: "canonicalize_value (Object (unsigned_fields e)) = Ok c" "m = DOCUMENT_DOMAIN @ c"
    by (auto simp: signing_bytes_def)
  moreover from assms(2) c(2) have "canonicalize_value (Object (unsigned_fields e')) = Ok c"
    by (auto simp: signing_bytes_def)
  ultimately have "norm (Object (unsigned_fields e)) = norm (Object (unsigned_fields e'))"
    using assms(3,4) by (intro canonical_norm_eq) (auto simp: unsigned_fields_def on_wire_def)
  note eq = norm_Object_get [OF this]
  have "kind_str (se_kind e) = kind_str (se_kind e') \<and> se_key_id e = se_key_id e' \<and> se_epoch e = se_epoch e' \<and>
      norm (se_body e) = norm (se_body e')"
    using eq [of "''body''"] eq [of "''epoch''"] eq [of "''kid''"] eq [of "''kind''"] by (simp add: unsigned_fields_def)
  moreover from this have "se_kind e = se_kind e'" using kind_parse_str option.inject by metis
  moreover have "enrollment_proof_message token signing recipient \<noteq> Ok m \<and>
    node_session_challenge_message tenant node protocol nonce hash version issuer time expires \<noteq> Ok m \<and>
    node_event_message node event_key event_kind event_body \<noteq> Ok m"
    by (auto simp: c(2) enrollment_Ok node_session_challenge_message_def node_event_message_def
        node_event_message_bytes_def domain_message_Ok DOCUMENT_DOMAIN_def ENROLLMENT_DOMAIN_def
        NODE_CHALLENGE_DOMAIN_def NODE_EVENT_DOMAIN_def)
  ultimately show ?thesis by blast
qed

theorem signature_covers_witness:
  "\<exists>e e' m m'. sign toy_lib KAuditEvent (audit_body 7) ''k1'' 3 toy_key = Ok e \<and> signing_bytes e = Ok m \<and>
     sign toy_lib KAuditEvent (audit_body 8) ''k1'' 3 toy_key = Ok e' \<and> signing_bytes e' = Ok m' \<and> m \<noteq> m'"
proof -
  obtain e e' where e: "sign toy_lib KAuditEvent (audit_body 7) ''k1'' 3 toy_key = Ok e"
      "sign toy_lib KAuditEvent (audit_body 8) ''k1'' 3 toy_key = Ok e'"
    using toy_envelope [of 7] toy_envelope [of 8] by (auto simp: MAX_SAFE_INTEGER_def)
  obtain m m' where m: "signing_bytes e = Ok m" "signing_bytes e' = Ok m'"
    using sign_Ok(6) [OF e(1)] sign_Ok(6) [OF e(2)] by blast
  have "on_wire e" "on_wire e'"
    using signed_on_wire [OF e(1)] signed_on_wire [OF e(2)] by (auto simp: MAX_VALUES_def)
  from signature_covers [OF m(1) _ this] m sign_Ok(2) [OF e(1)] sign_Ok(2) [OF e(2)] have "m \<noteq> m'" by auto
  with e m show ?thesis by blast
qed

text \<open>C35: a plaintext that a broker seals in answer to an offer and sends reaches the holder of the
  offered key: the recipient verifies the submission against the terms and its own offer, and opening
  its sealed bytes with the private key, under the info and associated data computed from the terms
  and the offer, gives the plaintext.\<close>

theorem sealed_result_opens:
  assumes "ed25519_correct lib" "x25519_agrees lib" "aead_correct lib" "from_seed lib s = Ok key"
    "from_private_key lib sk = Ok pair" "offer_recipient_key offer = Ok (rk_public pair)"
    "seal_submit lib rnd terms offer plaintext key now = Ok e"
  shows "\<exists>submit enc ciphertext info aad. verify_submit lib e terms offer = Ok submit \<and>
    submit_sealed_bytes submit = Ok (enc, ciphertext) \<and> fulfillment_info lib terms = Ok info \<and>
    fulfillment_aad offer = Ok aad \<and> open_with_info lib pair enc ciphertext info aad = Ok plaintext"
proof -
  from submit_accepted [OF assms(1,4,7)] obtain recipient info aad submit and sealed :: sealed_message where
    "verify_submit lib e terms offer = Ok submit" "submit_sealed_bytes submit = Ok (sm_enc sealed, sm_ciphertext sealed)"
    "offer_recipient_key offer = Ok recipient" "fulfillment_info lib terms = Ok info" "fulfillment_aad offer = Ok aad"
    "seal_with_info lib rnd recipient plaintext info aad = Ok sealed" .
  with seal_open [OF assms(2,3,5)] assms(6) show ?thesis by auto
qed

theorem sealed_result_opens_witness:
  "\<exists>digest e submit enc ciphertext info aad.
     seal_submit toy_lib (Some (replicate 32 (CHR ''e''))) (sample_terms ''n1'') (sample_offer digest) ''secret'' toy_key 2000 = Ok e \<and>
     verify_submit toy_lib e (sample_terms ''n1'') (sample_offer digest) = Ok submit \<and>
     submit_sealed_bytes submit = Ok (enc, ciphertext) \<and>
     open_with_info toy_lib toy_pair enc ciphertext info aad = Ok ''secret''"
proof -
  obtain digest where d: "terms_digest_hex toy_lib (sample_terms ''n1'') = Ok digest"
    using sample_terms_digest [OF sample_ids(1)] by auto
  obtain e where e: "seal_submit toy_lib (Some (replicate 32 (CHR ''e''))) (sample_terms ''n1'') (sample_offer digest) ''secret'' toy_key 2000 = Ok e"
    by (rule seal_submit_succeeds [OF toy_lib_answers sample_can_answer [OF d] sample_key_id]) simp
  have k: "offer_recipient_key (sample_offer digest) = Ok (rk_public toy_pair)"
    by (simp add: offer_recipient_key_def sample_offer_def toy_public_key toy_pair_def)
  from sealed_result_opens [OF toy_lib_laws(3,1,2) toy_key_made toy_pair_made k e] e show ?thesis by blast
qed

text \<open>C36: a broker that holds a valid offer matching the terms, the issuer's key, a plaintext within
  the terms' limit and an ephemeral key that agrees with the offered one can answer while the offer
  is open, when the host library answers, exactly if the issuer's key id has at most 128 bytes: then
  sealing succeeds, and the signed submission fits the limit of the node channel. The terms admit an
  issuer whose node id has up to 128 bytes, so its key id, which appends the key version, can be too
  long to sign under; terms with such an issuer are valid, but no offer for them can be answered.\<close>

theorem offer_can_be_answered:
  assumes "lib_answers lib" "can_answer lib r terms offer plaintext key now"
  shows "(\<exists>e c. seal_submit lib (Some r) terms offer plaintext key now = Ok e \<and> to_json e = Ok c \<and>
      length c \<le> max_document_bytes KFulfillmentSubmit) \<longleftrightarrow>
    length (fp_node_id (ft_issuer terms)) + 1 + length (dec (unat (fp_key_version (ft_issuer terms)))) \<le> 128"
proof -
  have len: "length (party_key_id (ft_issuer terms)) =
      length (fp_node_id (ft_issuer terms)) + 1 + length (dec (unat (fp_key_version (ft_issuer terms))))"
    by (simp add: party_key_id_def)
  show ?thesis
  proof
    assume "length (fp_node_id (ft_issuer terms)) + 1 + length (dec (unat (fp_key_version (ft_issuer terms)))) \<le> 128"
    then have "length (party_key_id (ft_issuer terms)) \<le> 128" unfolding len .
    from seal_submit_succeeds [OF assms this] obtain e c where
      "seal_submit lib (Some r) terms offer plaintext key now = Ok e" "to_json e = Ok c" "length c \<le> 13400" .
    then show "\<exists>e c. seal_submit lib (Some r) terms offer plaintext key now = Ok e \<and> to_json e = Ok c \<and>
        length c \<le> max_document_bytes KFulfillmentSubmit"
      by (auto simp: max_document_bytes_def MAX_NODE_DOCUMENT_BYTES_def)
  qed (use seal_submit_key_id len in fastforce)
qed

theorem offer_can_be_answered_witness:
  "(\<exists>digest e c. terms_digest_hex toy_lib (sample_terms ''n1'') = Ok digest \<and>
     seal_submit toy_lib (Some (replicate 32 (CHR ''e''))) (sample_terms ''n1'') (sample_offer digest) ''secret'' toy_key 2000 = Ok e \<and>
     to_json e = Ok c \<and> length c \<le> 65536) \<and>
   (\<exists>terms digest. terms = sample_terms (replicate 128 (CHR ''n'')) \<and> terms_digest_hex toy_lib terms = Ok digest \<and>
     (\<nexists>e c. seal_submit toy_lib (Some (replicate 32 (CHR ''e''))) terms (sample_offer digest) ''secret'' toy_key 2000 = Ok e \<and>
       to_json e = Ok c \<and> length c \<le> max_document_bytes KFulfillmentSubmit))"
proof
  let ?length = "\<lambda>terms. length (fp_node_id (ft_issuer terms)) + 1 + length (dec (unat (fp_key_version (ft_issuer terms))))"
  obtain digest where d: "terms_digest_hex toy_lib (sample_terms ''n1'') = Ok digest"
    using sample_terms_digest [OF sample_ids(1)] by auto
  have "?length (sample_terms ''n1'') \<le> 128" by (simp add: sample_terms_def sample_party_def dec.simps)
  with offer_can_be_answered [OF toy_lib_answers sample_can_answer [OF d]] d
  show "\<exists>digest e c. terms_digest_hex toy_lib (sample_terms ''n1'') = Ok digest \<and>
     seal_submit toy_lib (Some (replicate 32 (CHR ''e''))) (sample_terms ''n1'') (sample_offer digest) ''secret'' toy_key 2000 = Ok e \<and>
     to_json e = Ok c \<and> length c \<le> 65536"
    by (auto simp: max_document_bytes_def MAX_NODE_DOCUMENT_BYTES_def)
  let ?terms = "sample_terms (replicate 128 (CHR ''n''))"
  have n: "replicate 128 (CHR ''n'') \<noteq> ''n2''" by (auto dest: arg_cong [of _ _ length])
  obtain digest' where d': "terms_digest_hex toy_lib ?terms = Ok digest'"
    using sample_terms_digest [OF sample_ids(2) n] by blast
  have "\<not> ?length ?terms \<le> 128" by (simp add: sample_terms_def sample_party_def)
  with offer_can_be_answered [OF toy_lib_answers sample_can_answer [OF d' n]] d'
  show "\<exists>terms digest. terms = ?terms \<and> terms_digest_hex toy_lib terms = Ok digest \<and>
     (\<nexists>e c. seal_submit toy_lib (Some (replicate 32 (CHR ''e''))) terms (sample_offer digest) ''secret'' toy_key 2000 = Ok e \<and>
       to_json e = Ok c \<and> length c \<le> max_document_bytes KFulfillmentSubmit)"
    by blast
qed

end
