(* ===== verification/Recovery_Pages.thy ===== *)
theory Recovery_Pages
  imports Fleet_Messages Wire_Size
begin

text \<open>
  Pages of the consumption history that a broker reports when a controller is restored:
  \<open>recovery/pages.rs\<close>. A report is a manifest and a list of records, cut into pages of 128 records;
  each page repeats the manifest and is signed. The receiver pushes verified pages into an
  accumulator, which recomputes a hash chain over all records and compares it with the manifest.
\<close>

section \<open>Limits and field checks\<close>

definition RECORDS_PER_PAGE :: u64 where "RECORDS_PER_PAGE = 128"
definition MAX_HISTORY_RECORDS :: u64 where "MAX_HISTORY_RECORDS = 1000000"
definition MAX_PAGE_BYTES :: nat where "MAX_PAGE_BYTES = 64 * 1024"
definition MAX_SAFE :: u64 where "MAX_SAFE = 9007199254740991"

definition MANIFEST_FIELDS :: "string list" where
  "MANIFEST_FIELDS =
     [''version'', ''tenant_id'', ''node_id'', ''node_key_version'', ''issuer_key_id'', ''recovery_id'',
      ''recovery_generation'', ''challenge'', ''report_id'', ''observed_issuer_epoch'', ''history_id'',
      ''pruned_through_ms'', ''unmapped_records'', ''total_records'', ''page_count'', ''records_digest'']"

definition RECORD_FIELDS :: "string list" where
  "RECORD_FIELDS = [''grant_id'', ''operation_id'', ''issuer_epoch'', ''expires_at_ms'', ''outcome'']"

definition page_error :: document_error where
  "page_error = Invalid ''recovery report page''"

definition positive :: "u64 \<Rightarrow> bool" where
  "positive n \<longleftrightarrow> 1 \<le> n \<and> n \<le> MAX_SAFE"

definition nonce :: "string \<Rightarrow> bool" where
  "nonce v \<longleftrightarrow> (case base64_url_decode v 32 of Some bytes \<Rightarrow> base64_url_encode bytes = v | None \<Rightarrow> False)"

definition exact :: "json_value \<Rightarrow> string list \<Rightarrow> (unit, document_error) result" where
  "exact v names =
     and_then (ok_or (as_object v) page_error) (\<lambda>members.
     reject_if (length members \<noteq> length names \<or>
       list_ex (\<lambda>name. length (filter (\<lambda>e. fst e = name) members) \<noteq> 1) names) page_error)"

definition page_text :: "json_value \<Rightarrow> string \<Rightarrow> (string, document_error) result" where
  "page_text v name =
     ok_or (Option.bind (Option.bind (get v name) as_str) (\<lambda>t. if length t \<le> 128 then Some t else None)) page_error"

definition optional_text :: "json_value \<Rightarrow> string \<Rightarrow> (string option, document_error) result" where
  "optional_text v name =
     (case get v name of
        Some Null \<Rightarrow> Ok None
      | Some (String t) \<Rightarrow> if length t \<le> 128 then Ok (Some t) else Err page_error
      | _ \<Rightarrow> Err page_error)"

definition page_integer :: "json_value \<Rightarrow> string \<Rightarrow> (u64, document_error) result" where
  "page_integer v name =
     ok_or (Option.bind (Option.bind (get v name) as_u64) (\<lambda>n. if n \<le> MAX_SAFE then Some n else None)) page_error"

text \<open>\<open>u64::div_ceil\<close>.\<close>

definition div_ceil :: "u64 \<Rightarrow> u64 \<Rightarrow> u64" where
  "div_ceil a b = (if 0 < a mod b then a div b + 1 else a div b)"

definition null_or_string :: "string option \<Rightarrow> json_value" where
  "null_or_string x = (case x of None \<Rightarrow> Null | Some s \<Rightarrow> String s)"

section \<open>Identity and coverage of a report\<close>

record report_identity =
  ri_tenant_id :: string
  ri_node_id :: string
  ri_node_key_version :: u64
  ri_issuer_key_id :: string
  ri_recovery_id :: string
  ri_recovery_generation :: u64
  ri_challenge :: string

definition identity_validate :: "report_identity \<Rightarrow> (unit, document_error) result" where
  "identity_validate d =
     reject_if (\<not> list_all is_valid_opaque_id [ri_tenant_id d, ri_node_id d, ri_issuer_key_id d, ri_recovery_id d] \<or>
       \<not> positive (ri_node_key_version d) \<or> \<not> positive (ri_recovery_generation d) \<or> \<not> nonce (ri_challenge d)) page_error"

definition identity_fields :: "report_identity \<Rightarrow> (string \<times> json_value) list" where
  "identity_fields d =
     [(''tenant_id'', String (ri_tenant_id d)),
      (''node_id'', String (ri_node_id d)),
      (''node_key_version'', Unsigned (ri_node_key_version d)),
      (''issuer_key_id'', String (ri_issuer_key_id d)),
      (''recovery_id'', String (ri_recovery_id d)),
      (''recovery_generation'', Unsigned (ri_recovery_generation d)),
      (''challenge'', String (ri_challenge d))]"

definition identity_from_value :: "json_value \<Rightarrow> (report_identity, document_error) result" where
  "identity_from_value v =
     and_then (page_text v ''tenant_id'') (\<lambda>tenant_id.
     and_then (page_text v ''node_id'') (\<lambda>node_id.
     and_then (page_integer v ''node_key_version'') (\<lambda>node_key_version.
     and_then (page_text v ''issuer_key_id'') (\<lambda>issuer_key_id.
     and_then (page_text v ''recovery_id'') (\<lambda>recovery_id.
     and_then (page_integer v ''recovery_generation'') (\<lambda>recovery_generation.
     and_then (page_text v ''challenge'') (\<lambda>challenge.
     let d = \<lparr>ri_tenant_id = tenant_id, ri_node_id = node_id, ri_node_key_version = node_key_version,
         ri_issuer_key_id = issuer_key_id, ri_recovery_id = recovery_id,
         ri_recovery_generation = recovery_generation, ri_challenge = challenge\<rparr>
     in and_then (identity_validate d) (\<lambda>_. Ok d))))))))"

record history_coverage =
  hc_history_id :: "string option"
  hc_pruned_through_ms :: u64
  hc_unmapped_records :: u64

definition covers :: "history_coverage \<Rightarrow> u64 \<Rightarrow> bool" where
  "covers d snapshot_controller_time_ms \<longleftrightarrow>
     positive snapshot_controller_time_ms \<and>
     (case hc_history_id d of Some i \<Rightarrow> nonce i | None \<Rightarrow> False) \<and>
     hc_unmapped_records d = 0 \<and> hc_pruned_through_ms d < snapshot_controller_time_ms"

section \<open>Records\<close>

record intent_record =
  ir_grant_id :: string
  ir_expires_at_ms :: u64
  ir_operation_id :: "string option"
  ir_issuer_epoch :: "u64 option"

definition intent_validate :: "intent_record \<Rightarrow> (unit, document_error) result" where
  "intent_validate d =
     (let correlation = (case (ir_operation_id d, ir_issuer_epoch d) of
          (None, None) \<Rightarrow> True
        | (Some operation, Some epoch) \<Rightarrow> is_valid_opaque_id operation \<and> positive epoch
        | _ \<Rightarrow> False)
      in reject_if (\<not> is_valid_opaque_id (ir_grant_id d) \<or> \<not> positive (ir_expires_at_ms d) \<or> \<not> correlation) page_error)"

definition intent_to_value :: "intent_record \<Rightarrow> (json_value, document_error) result" where
  "intent_to_value d =
     and_then (intent_validate d) (\<lambda>_.
     Ok (Object
       [(''grant_id'', String (ir_grant_id d)),
        (''expires_at_ms'', Unsigned (ir_expires_at_ms d)),
        (''operation_id'', null_or_string (ir_operation_id d)),
        (''issuer_epoch'', case ir_issuer_epoch d of None \<Rightarrow> Null | Some epoch \<Rightarrow> Unsigned epoch),
        (''outcome'', String ''uncertain'')]))"

definition epoch_or_null :: "json_value \<Rightarrow> (u64 option, document_error) result" where
  "epoch_or_null v =
     (case get v ''issuer_epoch'' of
        None \<Rightarrow> Err page_error
      | Some x \<Rightarrow> (if x = Null then Ok None else map_ok Some (ok_or (as_u64 x) page_error)))"

definition intent_from_value :: "json_value \<Rightarrow> (intent_record, document_error) result" where
  "intent_from_value v =
     and_then (exact v RECORD_FIELDS) (\<lambda>_.
     and_then (page_text v ''outcome'') (\<lambda>outcome.
     and_then (reject_if (outcome \<noteq> ''uncertain'') page_error) (\<lambda>_.
     and_then (optional_text v ''operation_id'') (\<lambda>operation_id.
     and_then (epoch_or_null v) (\<lambda>issuer_epoch.
     and_then (page_text v ''grant_id'') (\<lambda>grant_id.
     and_then (page_integer v ''expires_at_ms'') (\<lambda>expires_at_ms.
     let d = \<lparr>ir_grant_id = grant_id, ir_expires_at_ms = expires_at_ms, ir_operation_id = operation_id,
         ir_issuer_epoch = issuer_epoch\<rparr>
     in and_then (intent_validate d) (\<lambda>_. Ok d))))))))"

section \<open>Manifests\<close>

record report_manifest =
  rm_identity :: report_identity
  rm_report_id :: string
  rm_observed_issuer_epoch :: u64
  rm_coverage :: history_coverage
  rm_total_records :: u64
  rm_records_digest :: string

definition page_count :: "report_manifest \<Rightarrow> u64" where
  "page_count d = max (div_ceil (rm_total_records d) RECORDS_PER_PAGE) 1"

definition manifest_validate :: "report_manifest \<Rightarrow> (unit, document_error) result" where
  "manifest_validate d =
     and_then (identity_validate (rm_identity d)) (\<lambda>_.
     reject_if (\<not> nonce (rm_report_id d) \<or> \<not> nonce (rm_records_digest d) \<or> \<not> positive (rm_observed_issuer_epoch d) \<or>
       MAX_HISTORY_RECORDS < rm_total_records d \<or> MAX_SAFE < hc_pruned_through_ms (rm_coverage d) \<or>
       rm_total_records d < hc_unmapped_records (rm_coverage d) \<or>
       (case hc_history_id (rm_coverage d) of Some i \<Rightarrow> \<not> nonce i | None \<Rightarrow> False) \<or>
       hc_history_id (rm_coverage d) = None \<and> hc_pruned_through_ms (rm_coverage d) \<noteq> 0) page_error)"

definition manifest_fields :: "report_manifest \<Rightarrow> (string \<times> json_value) list" where
  "manifest_fields d =
     identity_fields (rm_identity d) @
     [(''version'', Unsigned 2),
      (''report_id'', String (rm_report_id d)),
      (''observed_issuer_epoch'', Unsigned (rm_observed_issuer_epoch d)),
      (''history_id'', null_or_string (hc_history_id (rm_coverage d))),
      (''pruned_through_ms'', Unsigned (hc_pruned_through_ms (rm_coverage d))),
      (''unmapped_records'', Unsigned (hc_unmapped_records (rm_coverage d))),
      (''total_records'', Unsigned (rm_total_records d)),
      (''page_count'', Unsigned (page_count d)),
      (''records_digest'', String (rm_records_digest d))]"

definition manifest_to_value :: "report_manifest \<Rightarrow> (json_value, document_error) result" where
  "manifest_to_value d = and_then (manifest_validate d) (\<lambda>_. Ok (Object (manifest_fields d)))"

definition manifest_from_value :: "json_value \<Rightarrow> (report_manifest, document_error) result" where
  "manifest_from_value v =
     and_then (exact v MANIFEST_FIELDS) (\<lambda>_.
     and_then (page_integer v ''version'') (\<lambda>version.
     and_then (reject_if (version \<noteq> 2) page_error) (\<lambda>_.
     and_then (identity_from_value v) (\<lambda>identity.
     and_then (page_text v ''report_id'') (\<lambda>report_id.
     and_then (page_integer v ''observed_issuer_epoch'') (\<lambda>observed_issuer_epoch.
     and_then (optional_text v ''history_id'') (\<lambda>history_id.
     and_then (page_integer v ''pruned_through_ms'') (\<lambda>pruned_through_ms.
     and_then (page_integer v ''unmapped_records'') (\<lambda>unmapped_records.
     and_then (page_integer v ''total_records'') (\<lambda>total_records.
     and_then (page_text v ''records_digest'') (\<lambda>records_digest.
     let d = \<lparr>rm_identity = identity, rm_report_id = report_id, rm_observed_issuer_epoch = observed_issuer_epoch,
         rm_coverage = \<lparr>hc_history_id = history_id, hc_pruned_through_ms = pruned_through_ms,
           hc_unmapped_records = unmapped_records\<rparr>,
         rm_total_records = total_records, rm_records_digest = records_digest\<rparr>
     in and_then (manifest_validate d) (\<lambda>_.
     and_then (page_integer v ''page_count'') (\<lambda>count.
     and_then (reject_if (count \<noteq> page_count d) page_error) (\<lambda>_.
     Ok d))))))))))))))"

section \<open>Pages\<close>

record report_page =
  rp_manifest :: report_manifest
  rp_page_index :: u64
  rp_records :: "intent_record list"

text \<open>The loop over the records of a page, with its variable \<open>previous\<close>.\<close>

fun check_records :: "u64 \<Rightarrow> string option \<Rightarrow> intent_record list \<Rightarrow> (unit, document_error) result" where
  "check_records observed previous [] = Ok ()"
| "check_records observed previous (d # ds) =
     and_then (intent_validate d) (\<lambda>_.
     and_then (reject_if ((case ir_issuer_epoch d of Some epoch \<Rightarrow> observed < epoch | None \<Rightarrow> False) \<or>
       (case previous of Some i \<Rightarrow> ir_grant_id d \<le> i | None \<Rightarrow> False)) page_error) (\<lambda>_.
     check_records observed (Some (ir_grant_id d)) ds))"

text \<open>The number of records, \<open>records.len() as u64\<close>, is compared as a natural number: a vector is shorter than \<open>2 ^ 64\<close>.\<close>

definition page_to_value :: "report_page \<Rightarrow> (json_value, document_error) result" where
  "page_to_value p =
     and_then (manifest_validate (rp_manifest p)) (\<lambda>_.
     and_then (reject_if (page_count (rp_manifest p) \<le> rp_page_index p) page_error) (\<lambda>_.
     let remaining = rm_total_records (rp_manifest p) - rp_page_index p * RECORDS_PER_PAGE in
     and_then (reject_if (length (rp_records p) \<noteq> unat (min remaining RECORDS_PER_PAGE)) page_error) (\<lambda>_.
     and_then (check_records (rm_observed_issuer_epoch (rp_manifest p)) None (rp_records p)) (\<lambda>_.
     and_then (manifest_to_value (rp_manifest p)) (\<lambda>_.
     and_then (collect_results intent_to_value (rp_records p)) (\<lambda>records.
     let v = Object (manifest_fields (rp_manifest p) @
         [(''page_index'', Unsigned (rp_page_index p)), (''records'', Array records)]) in
     and_then (map_err Canonical (canonicalize_value v)) (\<lambda>bytes.
     and_then (reject_if (MAX_PAGE_BYTES < length bytes) page_error) (\<lambda>_.
     Ok v))))))))"

definition page_from_value :: "json_value \<Rightarrow> (report_page, document_error) result" where
  "page_from_value v =
     and_then (exact v (MANIFEST_FIELDS @ [''page_index'', ''records''])) (\<lambda>_.
     and_then (ok_or (as_object v) page_error) (\<lambda>members.
     let header = Object (filter (\<lambda>e. fst e \<in> set MANIFEST_FIELDS) members) in
     and_then (ok_or (Option.bind (get v ''records'') as_array) page_error) (\<lambda>entries.
     and_then (reject_if (unat RECORDS_PER_PAGE < length entries) page_error) (\<lambda>_.
     and_then (manifest_from_value header) (\<lambda>manifest.
     and_then (page_integer v ''page_index'') (\<lambda>page_index.
     and_then (collect_results intent_from_value entries) (\<lambda>records.
     let p = \<lparr>rp_manifest = manifest, rp_page_index = page_index, rp_records = records\<rparr>
     in and_then (page_to_value p) (\<lambda>_. Ok p))))))))"

definition page_from_json :: "string \<Rightarrow> (report_page, document_error) result" where
  "page_from_json source =
     and_then (reject_if (MAX_PAGE_BYTES < length source) page_error) (\<lambda>_.
     and_then (map_err Canonical (parse_json source)) page_from_value)"

definition page_event :: "report_page \<Rightarrow> string" where
  "page_event p = ''history_'' @ rm_report_id (rp_manifest p) @ ''_'' @ dec (unat (rp_page_index p))"

definition page_signing_message :: "report_page \<Rightarrow> (string, document_error) result" where
  "page_signing_message p =
     and_then (page_to_value p) (\<lambda>body.
     and_then (node_event_message_bytes (ri_node_id (rm_identity (rp_manifest p))) (page_event p)
       ''consumed_report_page'' body) (\<lambda>message.
     and_then (reject_if (MAX_PAGE_BYTES < length message) page_error) (\<lambda>_.
     Ok message)))"

datatype verified_page = VerifiedPage (page: report_page)

definition page_verify ::
    "libcrypto \<Rightarrow> report_page \<Rightarrow> report_identity \<Rightarrow> u64 \<Rightarrow> string \<Rightarrow> string \<Rightarrow> (verified_page, document_error) result" where
  "page_verify lib p expected minimum_observed_epoch public_key signature =
     and_then (identity_validate expected) (\<lambda>_.
     and_then (reject_if (rm_identity (rp_manifest p) \<noteq> expected \<or> \<not> positive minimum_observed_epoch \<or>
         rm_observed_issuer_epoch (rp_manifest p) < minimum_observed_epoch) page_error) (\<lambda>_.
     and_then (page_signing_message p) (\<lambda>message.
     and_then (map_err Crypto (ed25519_verify lib public_key message signature)) (\<lambda>valid.
     and_then (reject_if (\<not> valid) page_error) (\<lambda>_.
     Ok (VerifiedPage p))))))"

section \<open>Requests for pages\<close>

record report_request =
  rq_identity :: report_identity
  rq_broker_challenge :: string
  rq_report_id :: "string option"
  rq_page_index :: u64

definition REQUEST_FIELDS :: "string list" where
  "REQUEST_FIELDS =
     [''version'', ''tenant_id'', ''node_id'', ''node_key_version'', ''issuer_key_id'', ''recovery_id'',
      ''recovery_generation'', ''challenge'', ''broker_challenge'', ''report_id'', ''page_index'']"

definition REQUEST_DOMAIN :: string where
  "REQUEST_DOMAIN = ''blindpass:controller-recovery-report:v1'' @ nul"

definition request_to_value :: "report_request \<Rightarrow> (json_value, document_error) result" where
  "request_to_value d =
     and_then (identity_validate (rq_identity d)) (\<lambda>_.
     and_then (reject_if (\<not> nonce (rq_broker_challenge d) \<or>
         (case rq_report_id d of Some i \<Rightarrow> \<not> nonce i | None \<Rightarrow> False) \<or>
         rq_report_id d = None \<and> rq_page_index d \<noteq> 0 \<or>
         div_ceil MAX_HISTORY_RECORDS RECORDS_PER_PAGE \<le> rq_page_index d) page_error) (\<lambda>_.
     Ok (Object (identity_fields (rq_identity d) @
       [(''version'', Unsigned 1),
        (''broker_challenge'', String (rq_broker_challenge d)),
        (''report_id'', null_or_string (rq_report_id d)),
        (''page_index'', Unsigned (rq_page_index d))]))))"

definition request_from_value :: "json_value \<Rightarrow> (report_request, document_error) result" where
  "request_from_value v =
     and_then (exact v REQUEST_FIELDS) (\<lambda>_.
     and_then (page_integer v ''version'') (\<lambda>version.
     and_then (reject_if (version \<noteq> 1) page_error) (\<lambda>_.
     and_then (identity_from_value v) (\<lambda>identity.
     and_then (page_text v ''broker_challenge'') (\<lambda>broker_challenge.
     and_then (optional_text v ''report_id'') (\<lambda>report_id.
     and_then (page_integer v ''page_index'') (\<lambda>page_index.
     let d = \<lparr>rq_identity = identity, rq_broker_challenge = broker_challenge, rq_report_id = report_id,
         rq_page_index = page_index\<rparr>
     in and_then (request_to_value d) (\<lambda>_. Ok d))))))))"

definition request_signing_message :: "report_request \<Rightarrow> (string, document_error) result" where
  "request_signing_message d =
     and_then (request_to_value d) (\<lambda>v.
     and_then (map_err Canonical (canonicalize_value v)) (\<lambda>canonical.
     Ok (REQUEST_DOMAIN @ canonical)))"

record signed_report_request =
  sr_request :: report_request
  sr_controller_signature :: string

definition request_sign :: "libcrypto \<Rightarrow> report_request \<Rightarrow> ed25519_key_pair \<Rightarrow> (signed_report_request, document_error) result" where
  "request_sign lib request key =
     and_then (request_signing_message request) (\<lambda>message.
     and_then (map_err Crypto (ed25519_sign lib key message)) (\<lambda>signature.
     Ok \<lparr>sr_request = request, sr_controller_signature = base64_url_encode signature\<rparr>))"

definition signed_request_to_value :: "signed_report_request \<Rightarrow> (json_value, document_error) result" where
  "signed_request_to_value d =
     and_then (ok_or (base64_url_decode (sr_controller_signature d) 64) page_error) (\<lambda>bytes.
     and_then (reject_if (base64_url_encode bytes \<noteq> sr_controller_signature d) page_error) (\<lambda>_.
     and_then (request_to_value (sr_request d)) (\<lambda>body.
     Ok (Object [(''body'', body), (''controller_signature'', String (sr_controller_signature d))]))))"

definition signed_request_from_json :: "string \<Rightarrow> (signed_report_request, document_error) result" where
  "signed_request_from_json source =
     and_then (reject_if (4096 < length source) page_error) (\<lambda>_.
     and_then (map_err Canonical (parse_json source)) (\<lambda>v.
     and_then (exact v [''body'', ''controller_signature'']) (\<lambda>_.
     and_then (ok_or (get v ''body'') page_error) (\<lambda>body.
     and_then (request_from_value body) (\<lambda>request.
     and_then (page_text v ''controller_signature'') (\<lambda>controller_signature.
     let d = \<lparr>sr_request = request, sr_controller_signature = controller_signature\<rparr>
     in and_then (signed_request_to_value d) (\<lambda>_. Ok d)))))))"

definition request_verify :: "libcrypto \<Rightarrow> signed_report_request \<Rightarrow> string \<Rightarrow> (unit, document_error) result" where
  "request_verify lib d pinned_controller_public =
     and_then (signed_request_to_value d) (\<lambda>_.
     and_then (ok_or (base64_url_decode (sr_controller_signature d) 64) page_error) (\<lambda>signature.
     and_then (request_signing_message (sr_request d)) (\<lambda>message.
     and_then (map_err Crypto (ed25519_verify lib pinned_controller_public message signature)) (\<lambda>valid.
     reject_if (\<not> valid) page_error))))"

section \<open>The hash chain over records\<close>

definition HISTORY_DOMAIN :: string where
  "HISTORY_DOMAIN = ''blindpass:recovery-history:v2'' @ nul"

record page_digest =
  dg_manifest :: report_manifest
  dg_state :: string
  dg_count :: u64
  dg_unmapped :: u64
  dg_previous :: "string option"

definition digest_new :: "libcrypto \<Rightarrow> report_manifest \<Rightarrow> (page_digest, document_error) result" where
  "digest_new lib manifest =
     and_then (manifest_to_value manifest) (\<lambda>_.
     and_then (map_err Canonical (canonicalize_value (Object
       (filter (\<lambda>e. fst e \<noteq> ''records_digest'') (manifest_fields manifest))))) (\<lambda>canonical.
     and_then (map_err Crypto (sha256 lib (HISTORY_DOMAIN @ canonical))) (\<lambda>state.
     Ok \<lparr>dg_manifest = manifest, dg_state = state, dg_count = 0, dg_unmapped = 0, dg_previous = None\<rparr>)))"

definition digest_push :: "libcrypto \<Rightarrow> page_digest \<Rightarrow> intent_record \<Rightarrow> (page_digest, document_error) result" where
  "digest_push lib g d =
     and_then (intent_validate d) (\<lambda>_.
     and_then (reject_if (rm_total_records (dg_manifest g) \<le> dg_count g \<or>
         (case ir_issuer_epoch d of Some epoch \<Rightarrow> rm_observed_issuer_epoch (dg_manifest g) < epoch | None \<Rightarrow> False) \<or>
         (case dg_previous g of Some i \<Rightarrow> ir_grant_id d \<le> i | None \<Rightarrow> False)) page_error) (\<lambda>_.
     and_then (intent_to_value d) (\<lambda>v.
     and_then (map_err Canonical (canonicalize_value v)) (\<lambda>canonical.
     and_then (map_err Crypto (sha256 lib (dg_state g @ canonical))) (\<lambda>state.
     Ok (g\<lparr>dg_state := state, dg_count := dg_count g + 1,
         dg_unmapped := dg_unmapped g + (if ir_operation_id d = None then 1 else 0),
         dg_previous := Some (ir_grant_id d)\<rparr>))))))"

definition digest_finish :: "page_digest \<Rightarrow> (string, document_error) result" where
  "digest_finish g =
     and_then (reject_if (dg_count g \<noteq> rm_total_records (dg_manifest g) \<or>
       dg_unmapped g \<noteq> hc_unmapped_records (rm_coverage (dg_manifest g))) page_error) (\<lambda>_.
     Ok (base64_url_encode (dg_state g)))"

section \<open>The accumulator\<close>

record page_accumulator =
  ac_digest :: "page_digest option"
  ac_next_page :: u64
  ac_finished :: bool
  ac_poisoned :: bool

definition new_accumulator :: page_accumulator where
  "new_accumulator = \<lparr>ac_digest = None, ac_next_page = 0, ac_finished = False, ac_poisoned = False\<rparr>"

definition complete :: "page_accumulator \<Rightarrow> bool" where
  "complete a \<longleftrightarrow> ac_finished a \<and> \<not> ac_poisoned a"

text \<open>
  The loop that pushes the records of a page. A record that is refused leaves the digest as the
  records before it made it.
\<close>

fun push_records :: "libcrypto \<Rightarrow> page_digest \<Rightarrow> intent_record list \<Rightarrow> page_digest \<times> (unit, document_error) result" where
  "push_records lib g [] = (g, Ok ())"
| "push_records lib g (d # ds) =
     (case digest_push lib g d of Err e \<Rightarrow> (g, Err e) | Ok g' \<Rightarrow> push_records lib g' ds)"

text \<open>The digest that a page is pushed to: the current one, or a new one for the first page.\<close>

definition current_digest :: "libcrypto \<Rightarrow> page_accumulator \<Rightarrow> report_manifest \<Rightarrow> (page_digest, document_error) result" where
  "current_digest lib a manifest = (case ac_digest a of Some g \<Rightarrow> Ok g | None \<Rightarrow> digest_new lib manifest)"

definition push_inner :: "libcrypto \<Rightarrow> page_accumulator \<Rightarrow> report_page \<Rightarrow> page_accumulator \<times> (bool, document_error) result" where
  "push_inner lib a p =
     (if ac_poisoned a \<or> ac_finished a \<or> rp_page_index p \<noteq> ac_next_page a then (a, Err page_error)
      else case current_digest lib a (rp_manifest p) of
        Err e \<Rightarrow> (a, Err e)
      | Ok g \<Rightarrow>
          let a = a\<lparr>ac_digest := Some g\<rparr> in
          if dg_manifest g \<noteq> rp_manifest p then (a, Err page_error)
          else case push_records lib g (rp_records p) of
            (g, Err e) \<Rightarrow> (a\<lparr>ac_digest := Some g\<rparr>, Err e)
          | (g, Ok _) \<Rightarrow>
              let a = a\<lparr>ac_digest := Some g, ac_next_page := ac_next_page a + 1\<rparr> in
              if ac_next_page a \<noteq> page_count (rp_manifest p) then (a, Ok (ac_finished a))
              else
                let a = a\<lparr>ac_digest := None\<rparr> in
                case digest_finish g of
                  Err e \<Rightarrow> (a, Err e)
                | Ok computed \<Rightarrow>
                    if computed \<noteq> rm_records_digest (rp_manifest p) then (a, Err page_error)
                    else (a\<lparr>ac_finished := True\<rparr>, Ok True))"

definition accumulator_push ::
    "libcrypto \<Rightarrow> page_accumulator \<Rightarrow> verified_page \<Rightarrow> page_accumulator \<times> (bool, document_error) result" where
  "accumulator_push lib a verified =
     (let (a, r) = push_inner lib a (page verified) in (if is_ok r then a else a\<lparr>ac_poisoned := True\<rparr>, r))"

end
