(* ===== verification/Recovery_Codec.thy ===== *)
theory Recovery_Codec
  imports Recovery_Pages
begin

text \<open>
  The codecs of records, manifests, pages and requests obey the contract of a document codec: each
  document is read back unchanged from its canonical bytes, whatever order its members come in. A
  page that passes its checks always fits the size bound, so it can be written and signed.
\<close>

section \<open>Fields\<close>

lemma length_filter_key: "length (filter (\<lambda>e. fst e = k) members) = count (mset (map fst members)) k"
  by (induction members) auto

lemma exact_Ok:
  assumes "distinct names"
  shows "exact v names = Ok u \<longleftrightarrow> expect_fields v names [] = Ok u"
proof (cases v)
  case (Object members)
  let ?keys = "map fst members"
  have "length ?keys = length names \<and> (\<forall>n \<in> set names. count (mset ?keys) n = 1) \<longleftrightarrow>
      distinct ?keys \<and> set ?keys = set names"
  proof
    assume l: "length ?keys = length names \<and> (\<forall>n \<in> set names. count (mset ?keys) n = 1)"
    then have sub: "set names \<subseteq> set ?keys" by (metis count_mset_0_iff subsetI zero_neq_one)
    then have "card (set ?keys) = length ?keys"
      using l assms by (metis List.finite_set card_length card_mono distinct_card le_antisym)
    then have "distinct ?keys" by (rule card_distinct)
    with sub l assms show "distinct ?keys \<and> set ?keys = set names"
      by (metis List.finite_set card_subset_eq distinct_card)
  next
    assume d: "distinct ?keys \<and> set ?keys = set names"
    then have "length ?keys = length names" using assms by (metis distinct_card)
    moreover have "count (mset ?keys) n = 1" if "n \<in> set names" for n
      using d that distinct_count_atmost_1 [of ?keys] by metis
    ultimately show "length ?keys = length names \<and> (\<forall>n \<in> set names. count (mset ?keys) n = 1)" by blast
  qed
  then show ?thesis
    by (auto simp: Object exact_def expect_fields_Ok list_ex_iff length_filter_key simp del: mset_map)
qed (auto simp: exact_def expect_fields_Ok)

lemma exact_Err: "exact v names = Err e \<Longrightarrow> e = page_error"
  by (cases "as_object v") (auto simp: exact_def reject_if_def split: if_splits)

lemma exact_norm:
  assumes "distinct names"
  shows "exact (norm v) names = exact v names"
proof (cases "exact v names")
  case (Ok u)
  then have "exact (norm v) names = Ok u" unfolding exact_Ok [OF assms] expect_fields_norm .
  with Ok show ?thesis by simp
next
  case (Err e)
  then have "exact v names \<noteq> Ok u" for u by simp
  then have "exact (norm v) names \<noteq> Ok u" for u unfolding exact_Ok [OF assms] expect_fields_norm .
  moreover note Err
  ultimately show ?thesis using exact_Err by (cases "exact (norm v) names") (auto dest!: exact_Err)
qed

lemma norm_scalar:
  "norm x = String s \<longleftrightarrow> x = String s" "norm x = Unsigned n \<longleftrightarrow> as_u64 x = Some n" "norm x = Null \<longleftrightarrow> x = Null"
  by (cases x; auto split: if_splits)+

text \<open>A field of \<open>v\<close>, up to the spelling of numbers.\<close>

definition field_is :: "json_value \<Rightarrow> string \<times> json_value \<Rightarrow> bool" where
  "field_is v e \<longleftrightarrow> map_option norm (get v (fst e)) = Some (snd e)"

lemma page_field_Ok:
  "page_text v k = Ok s \<longleftrightarrow> field_is v (k, String s) \<and> length s \<le> 128"
  "page_integer v k = Ok n \<longleftrightarrow> field_is v (k, Unsigned n) \<and> n \<le> MAX_SAFE"
  "optional_text v k = Ok os \<longleftrightarrow> field_is v (k, null_or_string os) \<and> (\<forall>s. os = Some s \<longrightarrow> length s \<le> 128)"
  "epoch_or_null v = Ok oe \<longleftrightarrow> field_is v (''issuer_epoch'', case oe of None \<Rightarrow> Null | Some e \<Rightarrow> Unsigned e)"
proof -
  have s: "as_str x = Some t \<longleftrightarrow> x = String t" for x t by (cases x) auto
  then show "page_text v k = Ok s \<longleftrightarrow> field_is v (k, String s) \<and> length s \<le> 128"
    by (auto simp: page_text_def Option.bind_eq_Some_conv field_is_def norm_scalar)
  show "optional_text v k = Ok os \<longleftrightarrow> field_is v (k, null_or_string os) \<and> (\<forall>s. os = Some s \<longrightarrow> length s \<le> 128)"
    by (cases os) (auto simp: optional_text_def null_or_string_def field_is_def norm_scalar split: option.splits json_value.splits)
  show "page_integer v k = Ok n \<longleftrightarrow> field_is v (k, Unsigned n) \<and> n \<le> MAX_SAFE"
    by (auto simp: page_integer_def Option.bind_eq_Some_conv field_is_def norm_scalar)
  show "epoch_or_null v = Ok oe \<longleftrightarrow> field_is v (''issuer_epoch'', case oe of None \<Rightarrow> Null | Some e \<Rightarrow> Unsigned e)"
    by (cases oe) (auto simp: epoch_or_null_def field_is_def norm_scalar split: option.splits)
qed

lemma field_is_norm:
  "expect_fields v names [] = Ok u \<Longrightarrow> field_is (norm v) e \<longleftrightarrow> field_is v e"
  by (simp add: field_is_def get_norm option.map_comp comp_def)

text \<open>The two readings of an object that has all its fields.\<close>

lemma fields_of_object:
  "distinct (map fst members) \<Longrightarrow> list_all (\<lambda>e. norm (snd e) = snd e) members \<Longrightarrow>
    list_all (field_is (Object members)) members"
  by (force simp: field_is_def list_all_iff)

lemma norm_of_members:
  assumes "expect_fields v names [] = Ok u" "list_all (\<lambda>e. map_option norm (get v (fst e)) = Some (norm (snd e))) members"
    "distinct (map fst members)" "set (map fst members) = set names" "list_all is_ascii names"
  shows "norm (Object members) = norm v"
proof (rule norm_eq_of_fields [OF assms(1,3)])
  have "map_option norm (map_of members k) = map_option norm (get v k)" if k: "k \<in> set names" for k
  proof -
    from k assms(4) obtain w where w: "(k, w) \<in> set members" by force
    then have "map_option norm (get v k) = Some (norm w)" using assms(2) by (auto simp: list_all_iff)
    moreover have "map_of members k = Some w" using w assms(3) by simp
    ultimately show ?thesis by auto
  qed
  then show "list_all (\<lambda>k. map_option norm (map_of members k) = map_option norm (get v k)) (names @ [])"
    by (simp add: list_all_iff)
qed (use assms(4,5) in \<open>auto simp: list_all_iff\<close>)

lemma field_is_member: "field_is v e \<Longrightarrow> map_option norm (get v (fst e)) = Some (norm (snd e))"
  by (metis field_is_def norm_norm option.map_disc_iff option.map_sel option.sel option.exhaust_sel option.distinct(1))

lemma norm_of_fields:
  assumes "expect_fields v names [] = Ok u" "list_all (field_is v) members" "distinct (map fst members)"
    "set (map fst members) = set names" "list_all is_ascii names"
  shows "norm (Object members) = norm v"
  using norm_of_members [OF assms(1) list.pred_mono_strong [OF assms(2) field_is_member] assms(3-5)] .

lemma page_field_norm:
  assumes "expect_fields v names [] = Ok u"
  shows "page_text (norm v) k = page_text v k" "page_integer (norm v) k = page_integer v k"
    "optional_text (norm v) k = optional_text v k" "epoch_or_null (norm v) = epoch_or_null v"
proof -
  note g = get_norm [OF assms]
  show "page_text (norm v) k = page_text v k" "page_integer (norm v) k = page_integer v k"
    by (cases "get v k"; simp add: g page_text_def page_integer_def)+
  show "optional_text (norm v) k = optional_text v k"
    by (cases "get v k"; cases "the (get v k)"; simp add: g optional_text_def)
  show "epoch_or_null (norm v) = epoch_or_null v"
    by (cases "get v ''issuer_epoch''"; simp add: g epoch_or_null_def norm_scalar)
qed

lemma field_names [simp]: "distinct MANIFEST_FIELDS" "distinct RECORD_FIELDS" "distinct REQUEST_FIELDS"
    "distinct (MANIFEST_FIELDS @ [''page_index'', ''records''])"
  by (simp_all add: MANIFEST_FIELDS_def RECORD_FIELDS_def REQUEST_FIELDS_def)

lemma nonce_iff: "nonce s \<longleftrightarrow> (\<exists>b. length b = 32 \<and> s = base64_url_encode b)"
proof
  assume "nonce s"
  then obtain b where "base64_url_decode s 32 = Some b" by (auto simp: nonce_def split: option.splits)
  then show "\<exists>b. length b = 32 \<and> s = base64_url_encode b" by (blast dest: base64_decode_Some)
next
  assume "\<exists>b. length b = 32 \<and> s = base64_url_encode b"
  then obtain b where b: "length b = 32" "s = base64_url_encode b" by blast
  then have "b \<noteq> []" by auto
  from base64_decode_encode [OF this] b show "nonce s" by (simp add: nonce_def)
qed

lemma nonce_text: "nonce s \<Longrightarrow> plain s \<and> length s = 43"
  by (auto simp: nonce_iff length_base64_url_encode)

lemma nonce_ascii [simp]: "nonce s \<Longrightarrow> is_ascii s"
  using nonce_text plain_ascii by blast

lemma opaque_id_short: "is_valid_opaque_id s \<Longrightarrow> length s \<le> 128"
  using opaque_id_plain by blast

lemmas field_shapes = opaque_id_short nonce_text positive_def

section \<open>Records\<close>

definition intent_fields :: "intent_record \<Rightarrow> (string \<times> json_value) list" where
  "intent_fields d =
     [(''grant_id'', String (ir_grant_id d)),
      (''expires_at_ms'', Unsigned (ir_expires_at_ms d)),
      (''operation_id'', null_or_string (ir_operation_id d)),
      (''issuer_epoch'', case ir_issuer_epoch d of None \<Rightarrow> Null | Some epoch \<Rightarrow> Unsigned epoch),
      (''outcome'', String ''uncertain'')]"

lemma intent_to_value_Ok: "intent_to_value d = Ok v \<longleftrightarrow> intent_validate d = Ok () \<and> v = Object (intent_fields d)"
  by (auto simp: intent_to_value_def intent_fields_def)

lemma intent_validate_Ok:
  "intent_validate d = Ok u \<longleftrightarrow>
     is_valid_opaque_id (ir_grant_id d) \<and> positive (ir_expires_at_ms d) \<and>
     (ir_operation_id d = None \<and> ir_issuer_epoch d = None \<or>
      (\<exists>operation epoch. ir_operation_id d = Some operation \<and> ir_issuer_epoch d = Some epoch \<and>
         is_valid_opaque_id operation \<and> positive epoch))"
  by (auto simp: intent_validate_def split: option.splits)

lemma intent_from_value_Ok:
  "intent_from_value v = Ok d \<longleftrightarrow>
     expect_fields v RECORD_FIELDS [] = Ok () \<and> intent_validate d = Ok () \<and> list_all (field_is v) (intent_fields d)"
  by (cases d) (auto simp: intent_from_value_def exact_Ok page_field_Ok Let_def intent_fields_def intent_validate_Ok
      field_shapes)

lemma intent_field_names: "distinct (map fst (intent_fields d))" "set (map fst (intent_fields d)) = set RECORD_FIELDS"
    "list_all is_ascii RECORD_FIELDS" "list_all (\<lambda>e. norm (snd e) = snd e) (intent_fields d)"
  by (auto simp: intent_fields_def RECORD_FIELDS_def null_or_string_def split: option.split)

lemma object_fields: "distinct (map fst members) \<Longrightarrow> set (map fst members) = set names \<Longrightarrow>
    expect_fields (Object members) names [] = Ok ()"
  by (simp add: expect_fields_Ok)

interpretation intents: exact_codec intent_from_value intent_to_value
proof unfold_locales
  show "intent_from_value (norm v) = intent_from_value v" for v
    unfolding intent_from_value_def
    by (intro and_then_cong [OF exact_norm]) (simp_all add: exact_Ok page_field_norm)
  show "intent_from_value v = Ok d" if "intent_to_value d = Ok v" for d v
    using that intent_field_names by (auto simp: intent_to_value_Ok intent_from_value_Ok object_fields fields_of_object)
  show "\<exists>w. intent_to_value d = Ok w" if "intent_from_value v = Ok d" for v d
    using that by (simp add: intent_from_value_Ok intent_to_value_Ok)
  show "wire_safe v" if "intent_to_value d = Ok v" for d v
    using that by (auto simp: intent_to_value_Ok intent_validate_Ok wire_safe_def null_or_string_def intent_fields_def)
  show "norm w = norm v" if "intent_from_value v = Ok d" "intent_to_value d = Ok w" for v d w
    using that norm_of_fields intent_field_names by (auto simp: intent_to_value_Ok intent_from_value_Ok)
qed

section \<open>Manifests\<close>

lemma identity_validate_Ok:
  "identity_validate d = Ok u \<longleftrightarrow>
     is_valid_opaque_id (ri_tenant_id d) \<and> is_valid_opaque_id (ri_node_id d) \<and> is_valid_opaque_id (ri_issuer_key_id d) \<and>
     is_valid_opaque_id (ri_recovery_id d) \<and> positive (ri_node_key_version d) \<and> positive (ri_recovery_generation d) \<and>
     nonce (ri_challenge d)"
  by (auto simp: identity_validate_def)

lemma identity_from_value_Ok:
  "identity_from_value v = Ok d \<longleftrightarrow> identity_validate d = Ok () \<and> list_all (field_is v) (identity_fields d)"
  by (cases d) (auto simp: identity_from_value_def page_field_Ok Let_def identity_fields_def identity_validate_Ok field_shapes)

lemma page_count_small: "rm_total_records m \<le> MAX_HISTORY_RECORDS \<Longrightarrow> page_count m \<le> MAX_SAFE"
proof -
  assume "rm_total_records m \<le> MAX_HISTORY_RECORDS"
  then have le: "unat (rm_total_records m) div 128 + 1 \<le> 7813" 
    by (simp add: MAX_HISTORY_RECORDS_def word_le_nat_alt)
  have "unat (rm_total_records m div 128) = unat (rm_total_records m) div 128" by (simp add: unat_div)
  then have "unat (div_ceil (rm_total_records m) RECORDS_PER_PAGE) \<le> 7813"
    using le by (auto simp: div_ceil_def RECORDS_PER_PAGE_def unat_plus_if')
  then show ?thesis by (simp add: page_count_def word_le_nat_alt MAX_SAFE_def max_def)
qed

lemma manifest_validate_Ok:
  "manifest_validate d = Ok u \<longleftrightarrow>
     identity_validate (rm_identity d) = Ok () \<and> nonce (rm_report_id d) \<and> nonce (rm_records_digest d) \<and>
     positive (rm_observed_issuer_epoch d) \<and> rm_total_records d \<le> MAX_HISTORY_RECORDS \<and>
     hc_pruned_through_ms (rm_coverage d) \<le> MAX_SAFE \<and> hc_unmapped_records (rm_coverage d) \<le> rm_total_records d \<and>
     (\<forall>i. hc_history_id (rm_coverage d) = Some i \<longrightarrow> nonce i) \<and>
     (hc_history_id (rm_coverage d) = None \<longrightarrow> hc_pruned_through_ms (rm_coverage d) = 0)"
  by (auto simp: manifest_validate_def not_less split: option.splits)

lemma manifest_from_value_Ok:
  "manifest_from_value v = Ok d \<longleftrightarrow>
     expect_fields v MANIFEST_FIELDS [] = Ok () \<and> manifest_validate d = Ok () \<and> list_all (field_is v) (manifest_fields d)"
  (is "?l \<longleftrightarrow> ?r")
proof
  show "?l \<Longrightarrow> ?r"
    by (auto simp: manifest_from_value_def exact_Ok page_field_Ok Let_def manifest_fields_def identity_from_value_Ok)
  show "?r \<Longrightarrow> ?l"
    using page_count_small [of d]
    by (cases d; cases "rm_coverage d") (auto simp: manifest_from_value_def exact_Ok page_field_Ok Let_def manifest_fields_def
      identity_from_value_Ok manifest_validate_Ok field_shapes MAX_HISTORY_RECORDS_def MAX_SAFE_def intro: order_trans)
qed

lemma manifest_field_names: "distinct (map fst (manifest_fields d))" "set (map fst (manifest_fields d)) = set MANIFEST_FIELDS"
    "list_all is_ascii MANIFEST_FIELDS" "list_all (\<lambda>e. norm (snd e) = snd e) (manifest_fields d)"
  by (auto simp: manifest_fields_def identity_fields_def MANIFEST_FIELDS_def null_or_string_def split: option.split)

interpretation manifests: exact_codec manifest_from_value manifest_to_value
proof unfold_locales
  show "manifest_from_value (norm v) = manifest_from_value v" for v
    unfolding manifest_from_value_def identity_from_value_def
    by (intro and_then_cong [OF exact_norm]) (simp_all add: exact_Ok page_field_norm)
  show "manifest_from_value v = Ok d" if "manifest_to_value d = Ok v" for d v
    using that manifest_field_names by (auto simp: manifest_to_value_def manifest_from_value_Ok object_fields fields_of_object)
  show "\<exists>w. manifest_to_value d = Ok w" if "manifest_from_value v = Ok d" for v d
    using that by (simp add: manifest_from_value_Ok manifest_to_value_def)
  show "wire_safe v" if "manifest_to_value d = Ok v" for d v
    using that by (auto simp: manifest_to_value_def manifest_validate_Ok identity_validate_Ok wire_safe_def
        null_or_string_def manifest_fields_def identity_fields_def split: option.split)
  show "norm w = norm v" if "manifest_from_value v = Ok d" "manifest_to_value d = Ok w" for v d w
    using that norm_of_fields manifest_field_names by (auto simp: manifest_to_value_def manifest_from_value_Ok)
qed

section \<open>Pages\<close>

definition page_valid :: "report_page \<Rightarrow> bool" where
  "page_valid p \<longleftrightarrow>
     manifest_validate (rp_manifest p) = Ok () \<and> rp_page_index p < page_count (rp_manifest p) \<and>
     length (rp_records p) =
       unat (min (rm_total_records (rp_manifest p) - rp_page_index p * RECORDS_PER_PAGE) RECORDS_PER_PAGE) \<and>
     check_records (rm_observed_issuer_epoch (rp_manifest p)) None (rp_records p) = Ok ()"

definition page_fields :: "report_page \<Rightarrow> (string \<times> json_value) list" where
  "page_fields p =
     manifest_fields (rp_manifest p) @
     [(''page_index'', Unsigned (rp_page_index p)),
      (''records'', Array (map (\<lambda>d. Object (intent_fields d)) (rp_records p)))]"

lemma check_records_valid: "check_records observed previous ds = Ok u \<Longrightarrow> d \<in> set ds \<Longrightarrow> intent_validate d = Ok ()"
  by (induction observed previous ds rule: check_records.induct) auto

lemma page_valid_records:
  "page_valid p \<Longrightarrow> length (rp_records p) \<le> 128 \<and> (\<forall>d \<in> set (rp_records p). intent_validate d = Ok ())"
  using check_records_valid by (auto simp: page_valid_def RECORDS_PER_PAGE_def min_def word_le_nat_alt)

lemma safe_number: "n \<le> MAX_SAFE \<Longrightarrow> unat n \<le> MAX_SAFE_INTEGER" "positive n \<Longrightarrow> unat n \<le> MAX_SAFE_INTEGER"
  by (simp_all add: positive_def MAX_SAFE_def MAX_SAFE_INTEGER_def word_le_nat_alt)

lemma opaque_id_text: "is_valid_opaque_id s \<Longrightarrow> plain s" "is_valid_opaque_id s \<Longrightarrow> utf8_valid s"
    "nonce s \<Longrightarrow> plain s" "nonce s \<Longrightarrow> utf8_valid s"
  using opaque_id_plain nonce_text plain_utf8 by blast+

text \<open>Every part of a page is small, shallow and made of plain text.\<close>

lemma intent_shape:
  assumes "intent_validate d = Ok ()" "k \<le> 10"
  shows "well_formed k (Object (intent_fields d))" "plain_value (Object (intent_fields d))"
    "plain_size (Object (intent_fields d)) \<le> 400"
proof -
  from assms(1) have v: "is_valid_opaque_id (ir_grant_id d)" "positive (ir_expires_at_ms d)"
      "\<And>i. ir_operation_id d = Some i \<Longrightarrow> is_valid_opaque_id i" "\<And>e. ir_issuer_epoch d = Some e \<Longrightarrow> positive e"
    by (auto simp: intent_validate_Ok)
  note t = opaque_id_text(1,2) [OF v(1)] opaque_id_short [OF v(1)] opaque_id_short [OF v(3)] opaque_id_text(1,2) [OF v(3)]
    safe_number(2) [OF v(2)] safe_number(2) [OF v(4)]
  show "well_formed k (Object (intent_fields d))"
    using t assms(2) by (auto simp: intent_fields_def null_or_string_def MAX_DEPTH_def split: option.split)
  show "plain_value (Object (intent_fields d))"
    using t by (auto simp: intent_fields_def null_or_string_def plain_char_def split: option.split)
  have "plain_size (null_or_string (ir_operation_id d)) \<le> 130" "plain_size (case ir_issuer_epoch d of None \<Rightarrow> Null | Some epoch \<Rightarrow> Unsigned epoch) \<le> 16"
    using t(4) by (auto simp: null_or_string_def split: option.split)
  then show "plain_size (Object (intent_fields d)) \<le> 400" using t(3) by (simp add: intent_fields_def)
qed

lemma manifest_shape:
  assumes "manifest_validate m = Ok ()"
  shows "\<forall>e \<in> set (manifest_fields m). plain (fst e) \<and> plain_value (snd e)"
    "\<forall>e \<in> set (manifest_fields m). well_formed 3 (snd e)"
    "sum_list (map (\<lambda>e. length (fst e) + 4 + plain_size (snd e)) (manifest_fields m)) \<le> 1500"
proof -
  from assms have v: "is_valid_opaque_id (ri_tenant_id (rm_identity m))" "is_valid_opaque_id (ri_node_id (rm_identity m))"
      "is_valid_opaque_id (ri_issuer_key_id (rm_identity m))" "is_valid_opaque_id (ri_recovery_id (rm_identity m))"
      "nonce (ri_challenge (rm_identity m))" "nonce (rm_report_id m)" "nonce (rm_records_digest m)"
      "\<And>i. hc_history_id (rm_coverage m) = Some i \<Longrightarrow> nonce i"
    and n: "positive (ri_node_key_version (rm_identity m))" "positive (ri_recovery_generation (rm_identity m))"
      "positive (rm_observed_issuer_epoch m)" "hc_pruned_through_ms (rm_coverage m) \<le> MAX_SAFE"
      "rm_total_records m \<le> MAX_HISTORY_RECORDS" "hc_unmapped_records (rm_coverage m) \<le> rm_total_records m"
    by (auto simp: manifest_validate_Ok identity_validate_Ok)
  from n(5,6) have n': "hc_unmapped_records (rm_coverage m) \<le> MAX_SAFE" "rm_total_records m \<le> MAX_SAFE"
    by (auto simp: MAX_HISTORY_RECORDS_def MAX_SAFE_def word_le_nat_alt)
  note t = v(1-4) [THEN opaque_id_text(1)] v(1-4) [THEN opaque_id_text(2)] v(5-8) [THEN opaque_id_text(3)]
    v(5-8) [THEN opaque_id_text(4)] v(1-4) [THEN opaque_id_short] v(5-8) [THEN nonce_text, THEN conjunct2]
    n(1-3) [THEN safe_number(2)] n(4) [THEN safe_number(1)] n' [THEN safe_number(1)]
    page_count_small [OF n(5), THEN safe_number(1)]
  show "\<forall>e \<in> set (manifest_fields m). plain (fst e) \<and> plain_value (snd e)"
    using t by (auto simp: manifest_fields_def identity_fields_def null_or_string_def plain_char_def split: option.split)
  show "\<forall>e \<in> set (manifest_fields m). well_formed 3 (snd e)"
    using t by (auto simp: manifest_fields_def identity_fields_def null_or_string_def MAX_DEPTH_def MAX_SAFE_INTEGER_def split: option.split)
  have "plain_size (null_or_string (hc_history_id (rm_coverage m))) \<le> 45"
    using v(8) [THEN nonce_text] by (auto simp: null_or_string_def split: option.split)
  then show "sum_list (map (\<lambda>e. length (fst e) + 4 + plain_size (snd e)) (manifest_fields m)) \<le> 1500"
    using t by (simp add: manifest_fields_def identity_fields_def)
qed

lemma page_shape:
  assumes "page_valid p"
  shows "well_formed 1 (Object (page_fields p))" "plain_value (Object (page_fields p))"
    "plain_size (Object (page_fields p)) \<le> 53000"
proof -
  note m = manifest_shape [of "rp_manifest p"]
  have v: "manifest_validate (rp_manifest p) = Ok ()" using assms by (simp add: page_valid_def)
  note r = page_valid_records [OF assms]
  have "rp_page_index p \<le> MAX_SAFE"
    using assms page_count_small [of "rp_manifest p"] by (auto simp: page_valid_def manifest_validate_Ok)
  note index = safe_number(1) [OF this]
  have fields: "utf8_valid (fst e) \<and> well_formed 2 (snd e)" if "e \<in> set (manifest_fields (rp_manifest p))" for e
    using m(1,2) [OF v] that plain_utf8 well_formed_shallower [of 3 "snd e" 2] by simp
  have intents: "well_formed 3 (Object (intent_fields d))" if "d \<in> set (rp_records p)" for d
    using r that by (intro intent_shape(1)) simp_all
  have "well_formed 2 (Array (map (\<lambda>d. Object (intent_fields d)) (rp_records p)))"
    using intents by (simp add: MAX_DEPTH_def del: well_formed.simps(7))
  with fields index have "\<forall>e \<in> set (page_fields p). utf8_valid (fst e) \<and> well_formed 2 (snd e)"
    by (auto simp: page_fields_def MAX_DEPTH_def simp del: well_formed.simps(6))
  moreover have "distinct (map fst (page_fields p))"
    by (simp add: page_fields_def manifest_fields_def identity_fields_def)
  ultimately show "well_formed 1 (Object (page_fields p))" by (simp add: MAX_DEPTH_def numeral_2_eq_2)
  have "plain_value (Object (intent_fields d))" "plain_size (Object (intent_fields d)) + 1 \<le> 401"
      if "d \<in> set (rp_records p)" for d
    using r that intent_shape(2,3) [of d 0] by auto
  note intents = this
  have "list_all (\<lambda>e. plain (fst e) \<and> plain_value (snd e)) (page_fields p)"
    using m(1) [OF v] intents(1) by (simp add: page_fields_def list_all_iff plain_char_def del: plain_value.simps(3))
  then show "plain_value (Object (page_fields p))" by simp
  have "sum_list (map (\<lambda>v. plain_size v + 1) (map (\<lambda>d. Object (intent_fields d)) (rp_records p)))
      \<le> sum_list (map (\<lambda>_. 401) (map (\<lambda>d. Object (intent_fields d)) (rp_records p)))"
    using intents(2) by (intro sum_list_le) (auto simp del: plain_size.simps)
  also have "\<dots> \<le> 401 * 128" using r by (simp add: sum_list_triv comp_def)
  finally show "plain_size (Object (page_fields p)) \<le> 53000"
    using m(3) [OF v] by (simp add: page_fields_def)
qed

lemma collect_intents:
  "collect_results intent_to_value ds = Ok vs \<longleftrightarrow>
     (\<forall>d \<in> set ds. intent_validate d = Ok ()) \<and> vs = map (\<lambda>d. Object (intent_fields d)) ds"
  by (induction ds arbitrary: vs) (auto simp: intent_to_value_Ok)

text \<open>The size check of \<open>to_value\<close> never fails on a page that passed the other checks.\<close>

lemma page_to_value_Ok: "page_to_value p = Ok v \<longleftrightarrow> page_valid p \<and> v = Object (page_fields p)"
proof
  assume "page_to_value p = Ok v"
  then show "page_valid p \<and> v = Object (page_fields p)"
    by (auto simp: page_to_value_def page_valid_def page_fields_def collect_intents Let_def not_le)
next
  assume p: "page_valid p \<and> v = Object (page_fields p)"
  then have "well_formed 0 v" using page_shape(1) well_formed_shallower by fastforce
  then obtain c where c: "canonicalize_value v = Ok c" "length c \<le> plain_size v"
    using p page_shape(2,3) [of p] canonicalize_plain [of v] by (fastforce simp: MAX_CANONICAL_JSON_BYTES_def)
  with p page_shape(3) [of p] have "length c \<le> MAX_PAGE_BYTES" by (simp add: MAX_PAGE_BYTES_def)
  with c p page_valid_records [of p] show "page_to_value p = Ok v"
    by (auto simp: page_to_value_def page_valid_def page_fields_def collect_intents Let_def manifest_to_value_def not_le not_less)
qed

lemma page_event_text:
  assumes "page_valid p"
  shows "plain (page_event p)" "length (page_event p) \<le> 80"
proof -
  have m: "manifest_validate (rp_manifest p) = Ok ()" using assms by (simp add: page_valid_def)
  then have n: "nonce (rm_report_id (rp_manifest p))" by (simp add: manifest_validate_Ok)
  have "rp_page_index p \<le> MAX_SAFE"
    using assms m page_count_small [of "rp_manifest p"] by (auto simp: page_valid_def manifest_validate_Ok)
  then have d: "length (dec (unat (rp_page_index p))) \<le> 16" using safe_number(1) safe_dec by blast
  have "plain (dec k)" for k
    by (auto simp: plain_def list_all_iff dest!: dec_digits dest: alnum_plain)
  then show "plain (page_event p)" using nonce_text [OF n] by (simp add: page_event_def plain_char_def)
  show "length (page_event p) \<le> 80" using nonce_text [OF n] d by (simp add: page_event_def)
qed

lemma page_signing_message_Ok:
  assumes "page_valid p"
  shows "\<exists>m. page_signing_message p = Ok m \<and> length m \<le> MAX_PAGE_BYTES"
proof -
  let ?v = "Object [(''body'', Object (page_fields p)), (''idempotency_key'', String (page_event p)),
      (''kind'', String ''consumed_report_page''), (''node_id'', String (ri_node_id (rm_identity (rp_manifest p))))]"
  have i: "is_valid_opaque_id (ri_node_id (rm_identity (rp_manifest p)))"
    using assms by (simp add: page_valid_def manifest_validate_Ok identity_validate_Ok)
  note s = page_shape [OF assms] and e = page_event_text [OF assms] and t = opaque_id_text(1,2) [OF i] opaque_id_short [OF i]
  have "well_formed 0 ?v" using s(1) e(1) plain_utf8 t by (simp add: MAX_DEPTH_def)
  moreover have "plain_value ?v" using s(2) e(1) t by (simp add: plain_char_def)
  moreover have size: "plain_size ?v \<le> 60000" using s(3) e(2) t(3) by simp
  ultimately obtain c where "canonicalize_value ?v = Ok c" "length c \<le> plain_size ?v"
    using canonicalize_plain [of ?v] by (fastforce simp: MAX_CANONICAL_JSON_BYTES_def)
  then show ?thesis
    using assms size by (simp add: page_signing_message_def page_to_value_Ok node_event_message_bytes_def
        canonical_domain_message_def NODE_EVENT_DOMAIN_def MAX_PAGE_BYTES_def)
qed

text \<open>The header of a page: the members that a manifest has.\<close>

lemma header_norm:
  "Object (filter (\<lambda>e. fst e \<in> names) (map norm_member (by_key members))) =
    norm (Object (filter (\<lambda>e. fst e \<in> names) members))"
  by (simp add: norm_Object filter_map comp_def filter_sort del: norm.simps)

lemma header_page_fields: "filter (\<lambda>e. fst e \<in> set MANIFEST_FIELDS) (page_fields p) = manifest_fields (rp_manifest p)"
  by (simp add: page_fields_def manifest_fields_def identity_fields_def MANIFEST_FIELDS_def)

lemma collect_intents_norm: "collect_results intent_from_value (map norm vs) = collect_results intent_from_value vs"
  by (induction vs) (simp_all add: intents.reorder)

lemma collect_intents_back:
  "\<forall>d \<in> set ds. intent_validate d = Ok () \<Longrightarrow>
    collect_results intent_from_value (map (\<lambda>d. Object (intent_fields d)) ds) = Ok ds"
  by (induction ds) (simp_all add: intents.read_back intent_to_value_Ok)

lemma collect_intents_faithful:
  "collect_results intent_from_value vs = Ok ds \<Longrightarrow>
    map norm (map (\<lambda>d. Object (intent_fields d)) ds) = map norm vs"
proof (induction vs arbitrary: ds)
  case (Cons v vs)
  then obtain d ds' where d: "intent_from_value v = Ok d" "collect_results intent_from_value vs = Ok ds'" "ds = d # ds'"
    by auto
  then have "norm (Object (intent_fields d)) = norm v"
    by (intro intents.faithful [OF d(1)]) (simp add: intent_to_value_Ok intent_from_value_Ok)
  with Cons.IH [OF d(2)] d(3) show ?case by (simp del: norm.simps)
qed simp

lemma page_index_small: "page_valid p \<Longrightarrow> rp_page_index p \<le> MAX_SAFE"
  using page_count_small [of "rp_manifest p"] by (auto simp: page_valid_def manifest_validate_Ok)

lemma page_names: "distinct (map fst (page_fields p))"
    "set (map fst (page_fields p)) = set (MANIFEST_FIELDS @ [''page_index'', ''records''])"
    "list_all is_ascii (MANIFEST_FIELDS @ [''page_index'', ''records''])"
  by (auto simp: page_fields_def manifest_fields_def identity_fields_def MANIFEST_FIELDS_def)

lemma page_get:
  "get (Object (page_fields p)) ''records'' = Some (Array (map (\<lambda>d. Object (intent_fields d)) (rp_records p)))"
  "get (Object (page_fields p)) ''page_index'' = Some (Unsigned (rp_page_index p))"
  by (simp_all add: page_fields_def manifest_fields_def identity_fields_def)

lemma page_read_back:
  assumes "page_to_value p = Ok v"
  shows "page_from_value v = Ok p"
proof -
  from assms have p: "page_valid p" "v = Object (page_fields p)" by (simp_all add: page_to_value_Ok)
  have "exact v (MANIFEST_FIELDS @ [''page_index'', ''records'']) = Ok ()"
    unfolding exact_Ok [OF field_names(4)] p(2) by (rule object_fields [OF page_names(1,2)])
  moreover have "manifest_from_value (Object (manifest_fields (rp_manifest p))) = Ok (rp_manifest p)"
    using p(1) by (intro manifests.read_back) (simp add: manifest_to_value_def page_valid_def)
  moreover have "page_integer v ''page_index'' = Ok (rp_page_index p)"
    using page_index_small [OF p(1)] by (simp add: page_field_Ok field_is_def p(2) page_get del: get.simps)
  moreover have eta: "\<lparr>rp_manifest = rp_manifest p, rp_page_index = rp_page_index p, rp_records = rp_records p\<rparr> = p" by simp
  ultimately show ?thesis
    using page_valid_records [OF p(1)] assms
    by (simp add: eta page_from_value_def p(2) page_get header_page_fields collect_intents_back RECORDS_PER_PAGE_def Let_def del: get.simps)
qed

lemma as_array_Some: "as_array x = Some items \<Longrightarrow> x = Array items"
  by (cases x) auto

lemma map_of_filter_in: "fst e \<in> names \<Longrightarrow> map_of (filter (\<lambda>e. fst e \<in> names) members) (fst e) = map_of members (fst e)"
  by (induction members) auto

lemma as_object_Some: "as_object x = Some members \<Longrightarrow> x = Object members"
  by (cases x) auto

lemma page_from_value_cases:
  assumes "page_from_value v = Ok p"
  obtains members entries where "v = Object members"
    "expect_fields v (MANIFEST_FIELDS @ [''page_index'', ''records'']) [] = Ok ()"
    "get v ''records'' = Some (Array entries)" "collect_results intent_from_value entries = Ok (rp_records p)"
    "manifest_from_value (Object (filter (\<lambda>e. fst e \<in> set MANIFEST_FIELDS) members)) = Ok (rp_manifest p)"
    "field_is v (''page_index'', Unsigned (rp_page_index p))"
  using assms unfolding page_from_value_def Let_def and_then_eq_Ok exact_Ok [OF field_names(4)] ok_or_eq_Ok page_field_Ok
    Option.bind_eq_Some_conv
  by (auto dest!: as_array_Some as_object_Some simp del: get.simps as_object.simps)

lemma page_faithful:
  assumes "page_from_value v = Ok p" "page_to_value p = Ok w"
  shows "norm w = norm v"
proof -
  from assms(1) obtain members entries where v: "v = Object members"
      "expect_fields v (MANIFEST_FIELDS @ [''page_index'', ''records'']) [] = Ok ()"
      "get v ''records'' = Some (Array entries)" "collect_results intent_from_value entries = Ok (rp_records p)"
      "manifest_from_value (Object (filter (\<lambda>e. fst e \<in> set MANIFEST_FIELDS) members)) = Ok (rp_manifest p)"
      "field_is v (''page_index'', Unsigned (rp_page_index p))"
    by (rule page_from_value_cases)
  have "field_is v e" if e: "e \<in> set (manifest_fields (rp_manifest p))" for e
  proof -
    have "fst e \<in> set MANIFEST_FIELDS" using e manifest_field_names(2) by fastforce
    then have "get (Object (filter (\<lambda>e. fst e \<in> set MANIFEST_FIELDS) members)) (fst e) = get v (fst e)"
      by (simp add: v(1) map_of_filter_in)
    moreover have "field_is (Object (filter (\<lambda>e. fst e \<in> set MANIFEST_FIELDS) members)) e"
      using v(5) e by (simp add: manifest_from_value_Ok list_all_iff)
    ultimately show ?thesis by (simp only: field_is_def)
  qed
  moreover have "map_option norm (get v ''records'') = Some (norm (Array (map (\<lambda>d. Object (intent_fields d)) (rp_records p))))"
    using collect_intents_faithful [OF v(4)] by (simp add: v(3) del: get.simps norm.simps(7))
  ultimately have "list_all (\<lambda>e. map_option norm (get v (fst e)) = Some (norm (snd e))) (page_fields p)"
    using field_is_member v(6) by (auto simp: page_fields_def list_all_iff simp del: norm.simps get.simps)
  then show ?thesis
    using norm_of_members [OF v(2)] page_names assms(2) by (simp add: page_to_value_Ok del: norm.simps)
qed

lemma page_wire_safe:
  assumes "page_valid p"
  shows "wire_safe (Object (page_fields p))"
proof -
  have "value_count (Object (intent_fields d)) = 6" for d
    by (simp add: intent_fields_def null_or_string_def split: option.split)
  then have "value_count (Array (map (\<lambda>d. Object (intent_fields d)) (rp_records p))) = 1 + length (rp_records p) * 6"
    by (simp add: comp_def sum_list_triv del: value_count.simps(7))
  moreover have "value_count (null_or_string x) = 1" for x by (cases x) (simp_all add: null_or_string_def)
  ultimately have "value_count (Object (page_fields p)) \<le> 1000"
    using page_valid_records [OF assms] by (simp add: page_fields_def manifest_fields_def identity_fields_def)
  then show ?thesis using well_formed_utf8_strings [OF page_shape(1) [OF assms]] by (simp add: wire_safe_def)
qed

interpretation report_pages: exact_codec page_from_value page_to_value
proof unfold_locales
  show "page_from_value (norm v) = page_from_value v" for v
  proof (cases v)
    case (Object members)
    have norm: "as_object (norm v) = Some (map norm_member (by_key members))" by (simp add: Object norm_Object del: norm.simps)
    show ?thesis
    proof (cases "exact v (MANIFEST_FIELDS @ [''page_index'', ''records''])")
      case (Ok u)
      then have f: "expect_fields v (MANIFEST_FIELDS @ [''page_index'', ''records'']) [] = Ok u"
        by (simp only: exact_Ok field_names)
      have "as_object v = Some members" by (simp add: Object)
      moreover have "ok_or (Option.bind (get (norm v) k) as_array) e = map_ok (map norm) (ok_or (Option.bind (get v k) as_array) e)"
          for k and e :: document_error
        by (cases "get v k"; cases "Option.bind (get v k) as_array") (auto simp: get_norm [OF f])
      ultimately show ?thesis
        by (simp add: page_from_value_def exact_norm [OF field_names(4)] norm header_norm manifests.reorder page_field_norm [OF f]
            collect_intents_norm del: get.simps as_object.simps norm.simps)
    qed (simp add: page_from_value_def exact_norm [OF field_names(4)])
  qed (simp_all add: page_from_value_def exact_def)
  show "\<exists>w. page_to_value p = Ok w" if "page_from_value v = Ok p" for v p
    using that by (auto simp: page_from_value_def Let_def)
  show "wire_safe v" if "page_to_value p = Ok v" for p v
    using that page_wire_safe by (simp add: page_to_value_Ok)
qed (fact page_read_back page_faithful)+

section \<open>Requests\<close>

definition request_valid :: "report_request \<Rightarrow> bool" where
  "request_valid d \<longleftrightarrow>
     identity_validate (rq_identity d) = Ok () \<and> nonce (rq_broker_challenge d) \<and>
     (\<forall>i. rq_report_id d = Some i \<longrightarrow> nonce i) \<and> (rq_report_id d = None \<longrightarrow> rq_page_index d = 0) \<and>
     rq_page_index d < div_ceil MAX_HISTORY_RECORDS RECORDS_PER_PAGE"

definition request_fields :: "report_request \<Rightarrow> (string \<times> json_value) list" where
  "request_fields d =
     identity_fields (rq_identity d) @
     [(''version'', Unsigned 1),
      (''broker_challenge'', String (rq_broker_challenge d)),
      (''report_id'', null_or_string (rq_report_id d)),
      (''page_index'', Unsigned (rq_page_index d))]"

lemma request_to_value_Ok: "request_to_value d = Ok v \<longleftrightarrow> request_valid d \<and> v = Object (request_fields d)"
  by (auto simp: request_to_value_def request_valid_def request_fields_def not_le split: option.splits)

lemma request_index_small: "request_valid d \<Longrightarrow> rq_page_index d \<le> MAX_SAFE"
  by (auto simp: request_valid_def div_ceil_def MAX_HISTORY_RECORDS_def RECORDS_PER_PAGE_def MAX_SAFE_def word_less_nat_alt word_le_nat_alt)

lemma request_from_value_Ok:
  "request_from_value v = Ok d \<longleftrightarrow>
     expect_fields v REQUEST_FIELDS [] = Ok () \<and> request_valid d \<and> list_all (field_is v) (request_fields d)"
  (is "?l \<longleftrightarrow> ?r")
proof
  show "?l \<Longrightarrow> ?r"
    by (auto simp: request_from_value_def exact_Ok page_field_Ok Let_def request_fields_def identity_from_value_Ok request_to_value_Ok)
  show "?r \<Longrightarrow> ?l"
    using request_index_small [of d]
    by (cases d) (auto simp: request_from_value_def exact_Ok page_field_Ok Let_def request_fields_def
      identity_from_value_Ok request_valid_def request_to_value_Ok field_shapes MAX_SAFE_def)
qed

lemma request_names: "distinct (map fst (request_fields d))" "set (map fst (request_fields d)) = set REQUEST_FIELDS"
    "list_all is_ascii REQUEST_FIELDS" "list_all (\<lambda>e. norm (snd e) = snd e) (request_fields d)"
  by (auto simp: request_fields_def identity_fields_def REQUEST_FIELDS_def null_or_string_def split: option.split)

lemma request_shape:
  assumes "request_valid d"
  shows "well_formed 1 (Object (request_fields d))" "plain_value (Object (request_fields d))"
    "plain_size (Object (request_fields d)) \<le> 1200" "value_count (Object (request_fields d)) \<le> 20"
proof -
  from assms have v: "is_valid_opaque_id (ri_tenant_id (rq_identity d))" "is_valid_opaque_id (ri_node_id (rq_identity d))"
      "is_valid_opaque_id (ri_issuer_key_id (rq_identity d))" "is_valid_opaque_id (ri_recovery_id (rq_identity d))"
      "nonce (ri_challenge (rq_identity d))" "nonce (rq_broker_challenge d)" "\<And>i. rq_report_id d = Some i \<Longrightarrow> nonce i"
    and n: "positive (ri_node_key_version (rq_identity d))" "positive (ri_recovery_generation (rq_identity d))"
    by (auto simp: request_valid_def identity_validate_Ok)
  note t = v(1-4) [THEN opaque_id_text(1)] v(1-4) [THEN opaque_id_text(2)] v(5-7) [THEN opaque_id_text(3)]
    v(5-7) [THEN opaque_id_text(4)] v(1-4) [THEN opaque_id_short] v(5-7) [THEN nonce_text, THEN conjunct2]
    n [THEN safe_number(2)] request_index_small [OF assms, THEN safe_number(1)]
  show "well_formed 1 (Object (request_fields d))"
    using t by (auto simp: request_fields_def identity_fields_def null_or_string_def MAX_DEPTH_def MAX_SAFE_INTEGER_def split: option.split)
  show "plain_value (Object (request_fields d))"
    using t by (auto simp: request_fields_def identity_fields_def null_or_string_def plain_char_def split: option.split)
  have "plain_size (null_or_string (rq_report_id d)) \<le> 45" "value_count (null_or_string (rq_report_id d)) = 1"
    using v(7) [THEN nonce_text] by (auto simp: null_or_string_def split: option.split)
  then show "plain_size (Object (request_fields d)) \<le> 1200" "value_count (Object (request_fields d)) \<le> 20"
    using t by (simp_all add: request_fields_def identity_fields_def)
qed

interpretation requests: exact_codec request_from_value request_to_value
proof unfold_locales
  show "request_from_value (norm v) = request_from_value v" for v
    unfolding request_from_value_def identity_from_value_def
    by (intro and_then_cong [OF exact_norm]) (simp_all add: exact_Ok page_field_norm)
  show "request_from_value v = Ok d" if "request_to_value d = Ok v" for d v
    using that request_names by (auto simp: request_to_value_Ok request_from_value_Ok object_fields fields_of_object)
  show "\<exists>w. request_to_value d = Ok w" if "request_from_value v = Ok d" for v d
    using that by (simp add: request_from_value_Ok request_to_value_Ok)
  show "wire_safe v" if "request_to_value d = Ok v" for d v
    using that request_shape(4) [of d] well_formed_utf8_strings [OF request_shape(1) [of d]]
    by (simp add: request_to_value_Ok wire_safe_def)
  show "norm w = norm v" if "request_from_value v = Ok d" "request_to_value d = Ok w" for v d w
    using that norm_of_fields request_names by (auto simp: request_to_value_Ok request_from_value_Ok)
qed

text \<open>A signed request, as \<open>to_value\<close> writes it.\<close>

lemma signed_request_to_value_Ok:
  "signed_request_to_value s = Ok v \<longleftrightarrow>
     (\<exists>b. length b = 64 \<and> sr_controller_signature s = base64_url_encode b) \<and> request_valid (sr_request s) \<and>
     v = Object [(''body'', Object (request_fields (sr_request s))), (''controller_signature'', String (sr_controller_signature s))]"
proof -
  have "(\<exists>b. base64_url_decode t 64 = Some b \<and> base64_url_encode b = t) \<longleftrightarrow> (\<exists>b. length b = 64 \<and> t = base64_url_encode b)" for t
  proof
    assume "\<exists>b. base64_url_decode t 64 = Some b \<and> base64_url_encode b = t"
    then show "\<exists>b. length b = 64 \<and> t = base64_url_encode b" by (blast dest: base64_decode_Some)
  next
    assume "\<exists>b. length b = 64 \<and> t = base64_url_encode b"
    then obtain b where b: "length b = 64" "t = base64_url_encode b" by blast
    then have "b \<noteq> []" by auto
    from base64_decode_encode [OF this] b show "\<exists>b. base64_url_decode t 64 = Some b \<and> base64_url_encode b = t" by auto
  qed
  from this [of "sr_controller_signature s"] show ?thesis
    unfolding signed_request_to_value_def and_then_eq_Ok reject_if_eq_Ok ok_or_eq_Ok not_not request_to_value_Ok result.inject
    by blast
qed

end
