(* ===== verification/Recovery_History.thy ===== *)
theory Recovery_History
  imports Recovery_Codec
begin

text \<open>
  What the receiver of a consumption history in pages knows. The accumulator of
  \<open>recovery/pages.rs\<close> is related to the digest of the whole history, computed without pages.
\<close>

section \<open>The accumulator implements the unpaged digest\<close>

text \<open>What the accumulator promises: the digest of a whole history, and when pages make up that history.\<close>

definition history_digest :: "libcrypto \<Rightarrow> report_manifest \<Rightarrow> intent_record list \<Rightarrow> (string, document_error) result" where
  "history_digest lib m records =
     and_then (digest_new lib m) (\<lambda>g.
     case push_records lib g records of (g, Err e) \<Rightarrow> Err e | (g, Ok _) \<Rightarrow> digest_finish g)"

definition in_order :: "report_manifest \<Rightarrow> report_page list \<Rightarrow> bool" where
  "in_order m ps \<longleftrightarrow>
     list_all (\<lambda>p. rp_manifest p = m) ps \<and> map rp_page_index ps = map of_nat [0..<length ps]"

definition history_delivered :: "libcrypto \<Rightarrow> report_page list \<Rightarrow> bool" where
  "history_delivered lib ps \<longleftrightarrow>
     (case ps of
        [] \<Rightarrow> False
      | p # _ \<Rightarrow>
          let m = rp_manifest p in
          in_order m ps \<and> length ps = unat (page_count m) \<and>
          history_digest lib m (concat (map rp_records ps)) = Ok (rm_records_digest m))"

definition accumulate :: "libcrypto \<Rightarrow> report_page list \<Rightarrow> page_accumulator" where
  "accumulate lib ps = foldl (\<lambda>a p. fst (accumulator_push lib a (VerifiedPage p))) new_accumulator ps"

lemma accumulate_Nil: "accumulate lib [] = new_accumulator"
  by (simp add: accumulate_def)

lemma accumulate_snoc: "accumulate lib (ps @ [p]) = fst (accumulator_push lib (accumulate lib ps) (VerifiedPage p))"
  by (simp add: accumulate_def)

text \<open>The digest after some pages of a history.\<close>

definition progress :: "libcrypto \<Rightarrow> report_manifest \<Rightarrow> report_page list \<Rightarrow> page_digest \<Rightarrow> bool" where
  "progress lib m ps g \<longleftrightarrow>
     in_order m ps \<and>
     (\<exists>g0. digest_new lib m = Ok g0 \<and> push_records lib g0 (concat (map rp_records ps)) = (g, Ok ()))"

lemma in_order_snoc:
  "in_order m (ps @ [p]) \<longleftrightarrow> in_order m ps \<and> rp_manifest p = m \<and> rp_page_index p = of_nat (length ps)"
  by (auto simp: in_order_def)

lemma push_records_append:
  "push_records lib g (xs @ ys) = (g', Ok ()) \<longleftrightarrow>
     (\<exists>h. push_records lib g xs = (h, Ok ()) \<and> push_records lib h ys = (g', Ok ()))"
  by (induction xs arbitrary: g) (auto split: result.split)

lemma digest_push_manifest: "digest_push lib g d = Ok g' \<Longrightarrow> dg_manifest g' = dg_manifest g"
  by (auto simp: digest_push_def)

lemma push_records_manifest: "push_records lib g ds = (g', r) \<Longrightarrow> dg_manifest g' = dg_manifest g"
  by (induction ds arbitrary: g) (auto split: result.splits dest: digest_push_manifest)

lemma digest_new_manifest: "digest_new lib m = Ok g \<Longrightarrow> dg_manifest g = m"
  by (auto simp: digest_new_def)

lemma progress_manifest: "progress lib m ps g \<Longrightarrow> dg_manifest g = m"
  using push_records_manifest digest_new_manifest unfolding progress_def by fastforce

lemma progress_snoc:
  "progress lib m (ps @ [p]) g' \<longleftrightarrow>
     rp_manifest p = m \<and> rp_page_index p = of_nat (length ps) \<and>
     (\<exists>g. progress lib m ps g \<and> push_records lib g (rp_records p) = (g', Ok ()))"
  by (auto simp: progress_def in_order_snoc push_records_append)

lemma progress_unique: "progress lib m ps g \<Longrightarrow> progress lib m ps g' \<Longrightarrow> g = g'"
  by (auto simp: progress_def)

lemma progress_same_manifest: "ps \<noteq> [] \<Longrightarrow> progress lib m ps g \<Longrightarrow> progress lib m' ps g' \<Longrightarrow> m = m'"
  by (cases ps) (auto simp: progress_def in_order_def)

lemma history_digest_Ok:
  "history_digest lib m rs = Ok out \<longleftrightarrow>
     (\<exists>g0 g. digest_new lib m = Ok g0 \<and> push_records lib g0 rs = (g, Ok ()) \<and> digest_finish g = Ok out)"
proof (cases "digest_new lib m")
  case (Ok g)
  obtain h r where "push_records lib g rs = (h, r)" by fastforce
  with Ok show ?thesis by (cases r) (auto simp: history_digest_def)
qed (simp add: history_digest_def)

lemma history_delivered_iff:
  "history_delivered lib ps \<longleftrightarrow>
     (\<exists>m g. ps \<noteq> [] \<and> progress lib m ps g \<and> length ps = unat (page_count m) \<and> digest_finish g = Ok (rm_records_digest m))"
proof (cases ps)
  case (Cons p qs)
  have "in_order m ps \<Longrightarrow> m = rp_manifest p" for m by (simp add: Cons in_order_def)
  then show ?thesis by (auto simp: Cons history_delivered_def progress_def history_digest_Ok Let_def)
qed (simp add: history_delivered_def)

lemma page_count_pos: "0 < unat (page_count m)"
proof -
  have "1 \<le> page_count m" by (simp add: page_count_def)
  then show ?thesis by (simp add: word_le_nat_alt)
qed

lemma next_page_last:
  assumes "n < unat (w :: u64)"
  shows "(of_nat n + 1 = w) = (n + 1 = unat w)" "unat (of_nat n + 1 :: u64) = n + 1"
proof -
  have "n + 1 \<le> unat w" using assms by simp
  also have "\<dots> < 2 ^ LENGTH(64)" by (rule unsigned_less)
  finally have "unat (of_nat (n + 1) :: u64) = n + 1" unfolding unat_of_nat by (rule mod_less)
  then show *: "unat (of_nat n + 1 :: u64) = n + 1" by (simp only: of_nat_add of_nat_1)
  then show "(of_nat n + 1 = w) = (n + 1 = unat w)" by (metis word_unat_eq_iff)
qed

text \<open>The state of the accumulator, as a function of the pages pushed so far.\<close>

definition progressing :: "libcrypto \<Rightarrow> report_page list \<Rightarrow> page_accumulator \<Rightarrow> bool" where
  "progressing lib ps a \<longleftrightarrow>
     (\<exists>m g. progress lib m ps g \<and> length ps < unat (page_count m) \<and>
        a = \<lparr>ac_digest = Some g, ac_next_page = of_nat (length ps), ac_finished = False, ac_poisoned = False\<rparr>)"

definition can_progress :: "libcrypto \<Rightarrow> report_page list \<Rightarrow> bool" where
  "can_progress lib ps \<longleftrightarrow> (\<exists>m g. progress lib m ps g \<and> length ps < unat (page_count m))"

definition accumulated :: "libcrypto \<Rightarrow> report_page list \<Rightarrow> page_accumulator \<Rightarrow> bool" where
  "accumulated lib ps a \<longleftrightarrow>
     ps = [] \<and> a = new_accumulator \<or>
     ps \<noteq> [] \<and> progressing lib ps a \<or>
     ps \<noteq> [] \<and> history_delivered lib ps \<and> \<not> can_progress lib ps \<and> complete a \<or>
     ps \<noteq> [] \<and> \<not> history_delivered lib ps \<and> \<not> can_progress lib ps \<and> ac_poisoned a"

lemma delivered_not_progress: "history_delivered lib ps \<Longrightarrow> \<not> can_progress lib ps"
  using progress_same_manifest by (fastforce simp: history_delivered_iff can_progress_def)

lemma prefix_progress:
  "history_delivered lib (ps @ [p]) \<or> can_progress lib (ps @ [p]) \<Longrightarrow> can_progress lib ps"
  by (fastforce simp: history_delivered_iff can_progress_def progress_snoc)

text \<open>One push, when the pages so far are in order; \<open>g\<close> is the digest that the records are pushed to.\<close>

lemma progress_extends:
  assumes "progress lib m ps g" "ps \<noteq> [] \<or> rp_manifest p = m"
  shows "progress lib m' (ps @ [p]) g' \<longleftrightarrow>
     m' = m \<and> rp_manifest p = m \<and> rp_page_index p = of_nat (length ps) \<and> push_records lib g (rp_records p) = (g', Ok ())"
  using assms progress_unique [OF assms(1)] progress_same_manifest [OF _ assms(1)] unfolding progress_snoc by metis

lemma accumulated_poisoned:
  "(\<And>m g. \<not> progress lib m ps g) \<Longrightarrow> ps \<noteq> [] \<Longrightarrow> ac_poisoned a \<Longrightarrow> accumulated lib ps a"
  by (auto simp: accumulated_def history_delivered_iff can_progress_def)

lemma push_progress:
  assumes g: "progress lib m ps g" and count: "length ps < unat (page_count m)"
    and a: "ac_next_page a = of_nat (length ps)" "\<not> ac_finished a" "\<not> ac_poisoned a"
    and current: "current_digest lib a (rp_manifest p) = Ok g" and p: "ps \<noteq> [] \<or> rp_manifest p = m"
  shows "accumulated lib (ps @ [p]) (fst (accumulator_push lib a (VerifiedPage p)))"
proof (cases "\<exists>g'. progress lib m (ps @ [p]) g'")
  case False
  then have no: "\<not> progress lib m' (ps @ [p]) g'" for m' g' using progress_extends [OF g p] by blast
  have "rp_page_index p = of_nat (length ps) \<Longrightarrow> rp_manifest p = m \<Longrightarrow>
      \<exists>g' e. push_records lib g (rp_records p) = (g', Err e)"
    using False progress_extends [OF g p] by (metis (full_types) old.unit.exhaust result.exhaust surj_pair)
  then have "ac_poisoned (fst (accumulator_push lib a (VerifiedPage p)))"
    using a current progress_manifest [OF g] by (auto simp: accumulator_push_def push_inner_def Let_def)
  with no show ?thesis by (simp add: accumulated_poisoned)
next
  case True
  then obtain g' where g': "progress lib m (ps @ [p]) g'" by blast
  then have step: "rp_manifest p = m" "rp_page_index p = of_nat (length ps)" "push_records lib g (rp_records p) = (g', Ok ())"
    using progress_extends [OF g p] by auto
  have push: "push_inner lib a p =
      (let a = a\<lparr>ac_digest := Some g', ac_next_page := of_nat (length ps) + 1\<rparr> in
       if length ps + 1 \<noteq> unat (page_count m) then (a, Ok False)
       else case digest_finish g' of
           Err e \<Rightarrow> (a\<lparr>ac_digest := None\<rparr>, Err e)
         | Ok computed \<Rightarrow> if computed \<noteq> rm_records_digest m then (a\<lparr>ac_digest := None\<rparr>, Err page_error)
             else (a\<lparr>ac_digest := None, ac_finished := True\<rparr>, Ok True))"
    using a current step progress_manifest [OF g] next_page_last(1) [OF count]
    by (simp add: push_inner_def Let_def split: result.split)
  consider "length ps + 1 < unat (page_count m)" | "length ps + 1 = unat (page_count m)" using count by linarith
  then show ?thesis
  proof cases
    case 1
    have "a\<lparr>ac_digest := Some g', ac_next_page := of_nat (length ps) + 1\<rparr> =
        \<lparr>ac_digest = Some g', ac_next_page = of_nat (length (ps @ [p])), ac_finished = False, ac_poisoned = False\<rparr>"
      using a by (cases a) (simp add: add.commute)
    with 1 g' have "progressing lib (ps @ [p]) (fst (accumulator_push lib a (VerifiedPage p)))"
      unfolding progressing_def by (intro exI [of _ m] exI [of _ g']) (simp add: accumulator_push_def push)
    then show ?thesis by (simp add: accumulated_def)
  next
    case 2
    have no: "\<not> can_progress lib (ps @ [p])"
      using 2 progress_extends [OF g p] by (auto simp: can_progress_def)
    have "history_delivered lib (ps @ [p]) \<longleftrightarrow> digest_finish g' = Ok (rm_records_digest m)"
      using 2 g' step progress_extends [OF g p] by (auto simp: history_delivered_iff)
    then show ?thesis
      using no a 2 by (auto simp: accumulated_def accumulator_push_def push complete_def Let_def split: result.splits if_splits)
  qed
qed

lemma accumulate_accumulated: "accumulated lib ps (accumulate lib ps)"
proof (induction ps rule: rev_induct)
  case Nil
  show ?case by (simp add: accumulated_def accumulate_Nil)
next
  case (snoc p ps)
  let ?a = "accumulate lib ps"
  consider "ps = []" "?a = new_accumulator" | "ps \<noteq> []" "progressing lib ps ?a"
    | "\<not> can_progress lib ps" "ac_finished ?a \<or> ac_poisoned ?a"
    using snoc by (auto simp: accumulated_def complete_def)
  then show ?case
  proof cases
    case 1
    show ?thesis
    proof (cases "digest_new lib (rp_manifest p)")
      case (Ok g)
      then show ?thesis
        using push_progress [of lib "rp_manifest p" "[]" g new_accumulator p] 1 page_count_pos [of "rp_manifest p"]
        unfolding accumulate_snoc by (simp add: progress_def in_order_def new_accumulator_def current_digest_def)
    next
      case (Err e)
      then have "\<not> progress lib m [p] g" for m g by (auto simp: progress_def in_order_def)
      moreover have "ac_poisoned (accumulate lib [p])"
        using Err by (simp add: accumulate_def accumulator_push_def push_inner_def new_accumulator_def current_digest_def)
      ultimately show ?thesis using 1 by (simp add: accumulated_poisoned)
    qed
  next
    case 2
    then obtain m g where g: "progress lib m ps g" "length ps < unat (page_count m)"
      and a: "?a = \<lparr>ac_digest = Some g, ac_next_page = of_nat (length ps), ac_finished = False, ac_poisoned = False\<rparr>"
      by (auto simp: progressing_def)
    show ?thesis
      unfolding accumulate_snoc by (rule push_progress [OF g]) (simp_all add: a current_digest_def 2)
  next
    case 3
    then have "ac_poisoned (accumulate lib (ps @ [p]))"
      by (auto simp: accumulate_snoc accumulator_push_def push_inner_def)
    with 3 show ?thesis using prefix_progress by (auto simp: accumulated_def)
  qed
qed

lemma complete_iff_delivered:
  "complete (accumulate lib ps) \<longleftrightarrow> history_delivered lib ps"
proof
  assume "complete (accumulate lib ps)"
  then show "history_delivered lib ps"
    using accumulate_accumulated [of lib ps]
    by (auto simp: accumulated_def complete_def progressing_def new_accumulator_def)
next
  assume delivered: "history_delivered lib ps"
  then have "ps \<noteq> []" by (auto simp: history_delivered_def)
  then show "complete (accumulate lib ps)"
    using accumulate_accumulated [of lib ps] delivered delivered_not_progress [OF delivered]
    unfolding accumulated_def progressing_def can_progress_def by blast
qed

text \<open>C37: the receiver of a history in pages. However many verified pages are pushed, in whatever order
  and with whatever repetitions, the accumulator is complete exactly when they are all the pages of
  one manifest, each once and in order, and the digest of all their records, computed in one pass
  without pages, is the digest that the manifest announces.
\<close>

theorem accumulator_complete_iff:
  "complete (accumulate lib ps) \<longleftrightarrow> history_delivered lib ps"
  by (rule complete_iff_delivered)

section \<open>The digest commits to the history\<close>

text \<open>The bytes that are hashed for a manifest and for a record.\<close>

definition manifest_bytes :: "report_manifest \<Rightarrow> string" where
  "manifest_bytes m =
     (case canonicalize_value (Object (filter (\<lambda>e. fst e \<noteq> ''records_digest'') (manifest_fields m))) of
        Ok c \<Rightarrow> c | Err _ \<Rightarrow> [])"

definition record_bytes :: "intent_record \<Rightarrow> string" where
  "record_bytes d = (case canonicalize_value (Object (intent_fields d)) of Ok c \<Rightarrow> c | Err _ \<Rightarrow> [])"

text \<open>The messages that are hashed, one after the other, for a history.\<close>

fun record_inputs :: "libcrypto \<Rightarrow> page_digest \<Rightarrow> intent_record list \<Rightarrow> string list" where
  "record_inputs lib g [] = []"
| "record_inputs lib g (d # ds) =
     (dg_state g @ record_bytes d) #
     (case digest_push lib g d of Ok g' \<Rightarrow> record_inputs lib g' ds | Err _ \<Rightarrow> [])"

definition history_inputs :: "libcrypto \<Rightarrow> report_manifest \<Rightarrow> intent_record list \<Rightarrow> string list" where
  "history_inputs lib m ds =
     (HISTORY_DOMAIN @ manifest_bytes m) #
     (case digest_new lib m of Ok g \<Rightarrow> record_inputs lib g ds | Err _ \<Rightarrow> [])"

text \<open>Two different messages, one hashed for each of the histories, with the same hash.\<close>

definition histories_collide ::
    "libcrypto \<Rightarrow> report_manifest \<Rightarrow> intent_record list \<Rightarrow> report_manifest \<Rightarrow> intent_record list \<Rightarrow> bool" where
  "histories_collide lib m ds m' ds' \<longleftrightarrow>
     (\<exists>x \<in> set (history_inputs lib m ds). \<exists>y \<in> set (history_inputs lib m' ds').
        x \<noteq> y \<and> is_ok (sha256 lib x) \<and> sha256 lib x = sha256 lib y)"

lemma digest_new_Ok:
  "digest_new lib m = Ok g \<longleftrightarrow>
     manifest_validate m = Ok () \<and>
     (\<exists>state. is_ok (canonicalize_value (Object (filter (\<lambda>e. fst e \<noteq> ''records_digest'') (manifest_fields m)))) \<and>
        sha256 lib (HISTORY_DOMAIN @ manifest_bytes m) = Ok state \<and>
        g = \<lparr>dg_manifest = m, dg_state = state, dg_count = 0, dg_unmapped = 0, dg_previous = None\<rparr>)"
  by (auto simp: digest_new_def manifest_to_value_def manifest_bytes_def is_ok_iff)

lemma digest_push_state:
  assumes "digest_push lib g d = Ok g'"
  shows "intent_validate d = Ok ()" "is_ok (canonicalize_value (Object (intent_fields d)))"
    "sha256 lib (dg_state g @ record_bytes d) = Ok (dg_state g')"
  using assms by (auto simp: digest_push_def intent_to_value_Ok record_bytes_def is_ok_iff)

lemma record_inputs_snoc:
  "push_records lib g ds = (h, Ok ()) \<Longrightarrow> record_inputs lib g (ds @ [d]) = record_inputs lib g ds @ [dg_state h @ record_bytes d]"
  by (induction ds arbitrary: g) (auto split: result.splits)

lemma history_inputs_snoc:
  "digest_new lib m = Ok g \<Longrightarrow> push_records lib g ds = (h, Ok ()) \<Longrightarrow>
    history_inputs lib m (ds @ [d]) = history_inputs lib m ds @ [dg_state h @ record_bytes d]"
  by (simp add: history_inputs_def record_inputs_snoc)

lemma first_input: "HISTORY_DOMAIN @ manifest_bytes m \<in> set (history_inputs lib m ds)"
  by (simp add: history_inputs_def)

lemma last_input:
  "digest_new lib m = Ok g \<Longrightarrow> push_records lib g ds = (h, Ok ()) \<Longrightarrow>
    dg_state h @ record_bytes d \<in> set (history_inputs lib m (ds @ [d]))"
  by (simp add: history_inputs_snoc)

lemma collideI:
  "x \<in> set (history_inputs lib m ds) \<Longrightarrow> y \<in> set (history_inputs lib m' ds') \<Longrightarrow> x \<noteq> y \<Longrightarrow>
    sha256 lib x = Ok s \<Longrightarrow> sha256 lib y = Ok s \<Longrightarrow> histories_collide lib m ds m' ds'"
  unfolding histories_collide_def is_ok_iff by (rule bexI [of _ x], rule bexI [of _ y]) auto

lemma collide_snoc:
  assumes "digest_new lib m = Ok g" "push_records lib g ds = (h, Ok ())" "digest_new lib m' = Ok g'"
    "push_records lib g' ds' = (h', Ok ())" "histories_collide lib m ds m' ds'"
  shows "histories_collide lib m (ds @ [d]) m' (ds' @ [d'])"
  using assms(5) by (auto simp: histories_collide_def history_inputs_snoc [OF assms(1,2)] history_inputs_snoc [OF assms(3,4)])

lemma record_bytes_inj:
  assumes "intent_validate d = Ok ()" "intent_validate d' = Ok ()" "is_ok (canonicalize_value (Object (intent_fields d)))"
    "is_ok (canonicalize_value (Object (intent_fields d')))" "record_bytes d = record_bytes d'"
  shows "d = d'"
proof -
  obtain c where c: "canonicalize_value (Object (intent_fields d)) = Ok c" "canonicalize_value (Object (intent_fields d')) = Ok c"
    using assms(3-5) by (auto simp: record_bytes_def is_ok_iff)
  show ?thesis
    using intents.bytes_determine [of d "Object (intent_fields d)" c d' "Object (intent_fields d')"] c assms(1,2)
    by (simp add: intent_to_value_Ok)
qed

lemma canonical_brace: "canonicalize_value (Object members) = Ok c \<Longrightarrow> \<exists>t. c = CHR ''{'' # t"
  by (auto simp: canonicalize_value_def write_value.simps split: if_splits)

lemma canonical_first_key:
  assumes c: "canonicalize_value (Object members) = Ok c" and ne: "members \<noteq> []" and d: "distinct (map fst members)"
    and keys: "\<forall>e \<in> set members. plain (fst e) \<and> fst e \<noteq> [] \<and> hd (fst e) \<noteq> CHR ''{''"
  shows "\<exists>a t. c = CHR ''{'' # quote # a # t \<and> a \<noteq> CHR ''{''"
proof -
  from c have "write_value (Object members) 0 = Ok c" by (auto simp: canonicalize_value_def)
  then obtain out where out: "collect_results (write_member 0) (by_key members) = Ok out" "c = ''{'' @ join '','' out @ ''}''"
    using write_value_Object [OF d, of 0] by (cases "collect_results (write_member 0) (by_key members)") auto
  from ne obtain e es where e: "by_key members = e # es" by (metis list.exhaust set_sort set_empty)
  then have "e \<in> set members" by (metis list.set_intros(1) set_sort)
  then obtain a k where k: "fst e = a # k" "plain (fst e)" "a \<noteq> CHR ''{''" using keys by (metis list.exhaust_sel)
  from out(1) e obtain x xs where "out = x # xs" "write_member 0 e = Ok x" by auto
  moreover have "write_string (fst e) = quote # fst e @ [quote]"
    using k(2) by (subst write_string_plain) (simp_all add: plain_def plain_char_def list_all_iff)
  ultimately show ?thesis using out(2) k by (cases xs) (auto simp: write_member_def)
qed

abbreviation unsealed_fields :: "report_manifest \<Rightarrow> (string \<times> json_value) list" where
  "unsealed_fields m \<equiv> filter (\<lambda>e. fst e \<noteq> ''records_digest'') (manifest_fields m)"

lemma unsealed_get: "k \<noteq> ''records_digest'' \<Longrightarrow> map_of (unsealed_fields m) k = map_of (manifest_fields m) k"
  using map_of_filter_in [of "(k, undefined)" "{k. k \<noteq> ''records_digest''}" "manifest_fields m"] by simp

lemma manifest_bytes_inj:
  assumes v: "manifest_validate m = Ok ()" "manifest_validate m' = Ok ()"
    and c: "canonicalize_value (Object (unsealed_fields m)) = Ok c" "canonicalize_value (Object (unsealed_fields m')) = Ok c"
    and digest: "rm_records_digest m = rm_records_digest m'"
  shows "m = m'"
proof -
  have safe: "utf8_strings (Object (unsealed_fields m)) \<and> value_count (Object (unsealed_fields m)) \<le> MAX_VALUES"
    if "manifest_validate m = Ok ()" for m
  proof -
    have w: "wire_safe (Object (manifest_fields m))"
      using that by (intro manifests.safe [of m]) (simp add: manifest_to_value_def)
    have "sum_list (map f (filter P xs)) \<le> (sum_list (map f xs) :: nat)" for f :: "string \<times> json_value \<Rightarrow> nat" and P xs
      by (induction xs) auto
    then have "value_count (Object (unsealed_fields m)) \<le> value_count (Object (manifest_fields m))" by simp
    with w show ?thesis by (auto simp: wire_safe_def MAX_VALUES_def)
  qed
  have d: "distinct (map fst (unsealed_fields m))" for m
    using manifest_field_names(1) by (rule distinct_map_filter)
  have "norm (Object (unsealed_fields m)) = norm (Object (unsealed_fields m'))"
    using safe [OF v(1)] safe [OF v(2)] canonical_norm_eq [OF c] by blast
  note get = norm_Object_get [OF this d d]
  have same: "map_option norm (map_of (manifest_fields m') k) = map_option norm (map_of (manifest_fields m) k)" for k
  proof (cases "k = ''records_digest''")
    case True
    then show ?thesis using digest by (simp add: manifest_fields_def identity_fields_def)
  qed (use get [of k] in \<open>simp add: unsealed_get\<close>)
  have "list_all (\<lambda>e. map_option norm (get (Object (manifest_fields m')) (fst e)) = Some (norm (snd e))) (manifest_fields m)"
    using same manifest_field_names(1) [of m] by (auto simp: list_all_iff)
  then have "norm (Object (manifest_fields m)) = norm (Object (manifest_fields m'))"
    using manifest_field_names by (intro norm_of_members [OF object_fields, of _ MANIFEST_FIELDS]) simp_all
  moreover have "manifest_from_value (Object (manifest_fields m)) = Ok m"
      "manifest_from_value (Object (manifest_fields m')) = Ok m'"
    using v by (auto intro!: manifests.read_back simp: manifest_to_value_def)
  ultimately show ?thesis using manifests.reorder by (metis result.inject(1))
qed

lemma manifest_bytes_head:
  assumes "canonicalize_value (Object (unsealed_fields m)) = Ok c" "canonicalize_value (Object (intent_fields d)) = Ok c'"
    "length state = 32"
  shows "HISTORY_DOMAIN @ c \<noteq> state @ c'"
proof
  assume eq: "HISTORY_DOMAIN @ c = state @ c'"
  have "\<exists>a t. c = CHR ''{'' # quote # a # t \<and> a \<noteq> CHR ''{''"
    by (rule canonical_first_key [OF assms(1)]) (auto simp: manifest_fields_def identity_fields_def plain_char_def)
  then obtain a t where c: "c = CHR ''{'' # quote # a # t" "a \<noteq> CHR ''{''" by blast
  obtain t' where c': "c' = CHR ''{'' # t'" using canonical_brace [OF assms(2)] by blast
  have "(HISTORY_DOMAIN @ c) ! 32 = a" by (simp add: c HISTORY_DOMAIN_def nth_append)
  moreover have "(state @ c') ! 32 = CHR ''{''" using assms(3) by (simp add: c' nth_append)
  ultimately show False using eq c(2) by simp
qed

lemma push_state_length:
  assumes "digest_new lib m = Ok g" "push_records lib g ds = (h, Ok ())"
  shows "length (dg_state h) = 32"
proof -
  have "length (dg_state g) = 32" using assms(1) by (auto simp: digest_new_Ok dest: sha256_length)
  with assms(2) show ?thesis
    by (induction ds arbitrary: g) (auto split: result.splits dest!: digest_push_state(3) sha256_length)
qed

lemma push_records_snoc:
  "push_records lib g (ds @ [d]) = (g', Ok ()) \<longleftrightarrow>
    (\<exists>h. push_records lib g ds = (h, Ok ()) \<and> digest_push lib h d = Ok g')"
proof -
  have "push_records lib h [d] = (g', Ok ()) \<longleftrightarrow> digest_push lib h d = Ok g'" for h
    by (cases "digest_push lib h d") auto
  then show ?thesis by (simp only: push_records_append)
qed

lemma chain_binding:
  assumes new: "digest_new lib m = Ok g0" "digest_new lib m' = Ok g0'"
    and "push_records lib g0 ds = (g, Ok ())" "push_records lib g0' ds' = (g', Ok ())" "dg_state g = dg_state g'"
  shows "manifest_bytes m = manifest_bytes m' \<and> ds = ds' \<or> histories_collide lib m ds m' ds'"
  using assms(3-5)
proof (induction ds arbitrary: ds' g g' rule: rev_induct)
  case Nil
  have g: "sha256 lib (HISTORY_DOMAIN @ manifest_bytes m) = Ok (dg_state g')"
    using new(1) Nil by (auto simp: digest_new_Ok)
  show ?case
  proof (cases ds' rule: rev_cases)
    case Nil
    then have "sha256 lib (HISTORY_DOMAIN @ manifest_bytes m') = Ok (dg_state g')"
      using new(2) Nil.prems by (auto simp: digest_new_Ok)
    with g Nil show ?thesis
      using collideI [OF first_input first_input, of m m' lib "dg_state g'" "[]" "[]"] by auto
  next
    case (snoc es d)
    then obtain h where h: "push_records lib g0' es = (h, Ok ())" "digest_push lib h d = Ok g'"
      using Nil.prems(2) push_records_snoc by blast
    note push = digest_push_state [OF h(2)]
    have "length (dg_state h) = 32" by (rule push_state_length [OF new(2) h(1)])
    then have "HISTORY_DOMAIN @ manifest_bytes m \<noteq> dg_state h @ record_bytes d"
      using manifest_bytes_head push(2) new(1) by (auto simp: manifest_bytes_def record_bytes_def digest_new_Ok is_ok_iff)
    then show ?thesis unfolding snoc by (intro disjI2 collideI [OF first_input last_input [OF new(2) h(1)] _ g push(3)])
  qed
next
  case (snoc d ds)
  then obtain h where h: "push_records lib g0 ds = (h, Ok ())" "digest_push lib h d = Ok g"
    using push_records_snoc by blast
  note push = digest_push_state [OF h(2)]
  have l: "length (dg_state h) = 32" by (rule push_state_length [OF new(1) h(1)])
  show ?case
  proof (cases ds' rule: rev_cases)
    case Nil
    then have g': "sha256 lib (HISTORY_DOMAIN @ manifest_bytes m') = Ok (dg_state g)"
      using new(2) snoc.prems by (auto simp: digest_new_Ok)
    have ne: "HISTORY_DOMAIN @ manifest_bytes m' \<noteq> dg_state h @ record_bytes d"
      using manifest_bytes_head l push(2) new(2) by (auto simp: manifest_bytes_def record_bytes_def digest_new_Ok is_ok_iff)
    show ?thesis
      unfolding Nil by (rule disjI2, rule collideI [OF last_input [OF new(1) h(1)] first_input not_sym [OF ne] push(3) g'])
  next
    case (snoc es e)
    then obtain h' where h': "push_records lib g0' es = (h', Ok ())" "digest_push lib h' e = Ok g'"
      using snoc.prems(2) push_records_snoc by blast
    note push' = digest_push_state [OF h'(2)]
    have l': "length (dg_state h') = 32" by (rule push_state_length [OF new(2) h'(1)])
    show ?thesis
    proof (cases "dg_state h @ record_bytes d = dg_state h' @ record_bytes e")
      case True
      then have "dg_state h = dg_state h'" "record_bytes d = record_bytes e" using l l' by auto
      then have "d = e" using record_bytes_inj push(1,2) push'(1,2) by blast
      with snoc.IH [OF h(1) h'(1) \<open>dg_state h = dg_state h'\<close>] show ?thesis
        using collide_snoc [OF new(1) h(1) new(2) h'(1)] snoc by blast
    next
      case False
      then show ?thesis
        unfolding snoc using push'(3) snoc.prems(3)
        by (intro disjI2 collideI [OF last_input [OF new(1) h(1)] last_input [OF new(2) h'(1)] _ push(3)]) simp_all
    qed
  qed
qed

lemma history_digest_binds:
  assumes "history_digest lib m ds = Ok out" "history_digest lib m' ds' = Ok out" "rm_records_digest m = rm_records_digest m'"
  shows "m = m' \<and> ds = ds' \<or> histories_collide lib m ds m' ds'"
proof -
  from assms(1,2) obtain g0 g g0' g' where g: "digest_new lib m = Ok g0" "push_records lib g0 ds = (g, Ok ())" "digest_finish g = Ok out"
      "digest_new lib m' = Ok g0'" "push_records lib g0' ds' = (g', Ok ())" "digest_finish g' = Ok out"
    by (auto simp: history_digest_Ok)
  have "base64_url_encode (dg_state g) = base64_url_encode (dg_state g')" using g(3,6) by (auto simp: digest_finish_def)
  moreover have "length (dg_state g) = length (dg_state g')"
    unfolding push_state_length [OF g(1,2)] push_state_length [OF g(4,5)] ..
  ultimately have "dg_state g = dg_state g'" using base64_url_encode_inj by blast
  from chain_binding [OF g(1,4,2,5) this] show ?thesis
  proof
    assume eq: "manifest_bytes m = manifest_bytes m' \<and> ds = ds'"
    from g(1,4) obtain c c' where v: "manifest_validate m = Ok ()" "manifest_validate m' = Ok ()"
        "canonicalize_value (Object (unsealed_fields m)) = Ok c" "canonicalize_value (Object (unsealed_fields m')) = Ok c'"
      by (auto simp: digest_new_Ok is_ok_iff)
    with eq have "c = c'" by (simp add: manifest_bytes_def)
    with v eq manifest_bytes_inj [OF v(1,2,3)] assms(3) show ?thesis by blast
  qed blast
qed

lemma same_cut:
  assumes "in_order m ps" "in_order m qs" "length ps = length qs" "list_all (\<lambda>p. is_ok (page_to_value p)) ps"
    "list_all (\<lambda>p. is_ok (page_to_value p)) qs" "concat (map rp_records ps) = concat (map rp_records qs)"
  shows "ps = qs"
proof -
  have l: "length (rp_records p) =
      unat (min (rm_total_records (rp_manifest p) - rp_page_index p * RECORDS_PER_PAGE) RECORDS_PER_PAGE)"
    if "is_ok (page_to_value p)" for p
    using that by (auto simp: is_ok_iff page_to_value_Ok page_valid_def)
  have "map rp_page_index ps = map rp_page_index qs" using assms(1-3) by (simp add: in_order_def)
  then have i: "rp_manifest (ps ! k) = m" "rp_manifest (qs ! k) = m" "rp_page_index (ps ! k) = rp_page_index (qs ! k)"
    if "k < length ps" for k
    using that assms(1-3) by (auto simp: in_order_def list_all_length) (metis nth_map)
  have "length (rp_records (ps ! k)) = length (rp_records (qs ! k))" if "k < length ps" for k
    using that i [OF that] assms(3-5) l [of "ps ! k"] l [of "qs ! k"] by (auto simp: list_all_length)
  then have "map rp_records ps = map rp_records qs"
    using assms(3,6) by (subst concat_eq_concat_iff [symmetric]) (auto simp: set_zip)
  then have "rp_records (ps ! k) = rp_records (qs ! k)" if "k < length ps" for k
    using that assms(3) by (metis nth_map)
  with i assms(3) show ?thesis by (intro nth_equalityI) (auto intro: report_page.equality)
qed

section \<open>The pages of a history\<close>

definition epoch_observed :: "u64 \<Rightarrow> intent_record \<Rightarrow> bool" where
  "epoch_observed observed d \<longleftrightarrow> (case ir_issuer_epoch d of Some epoch \<Rightarrow> epoch \<le> observed | None \<Rightarrow> True)"

text \<open>What the checks of pages and digests ask of a list of records.\<close>

definition records_ok :: "u64 \<Rightarrow> string option \<Rightarrow> intent_record list \<Rightarrow> bool" where
  "records_ok observed previous ds \<longleftrightarrow>
     list_all (\<lambda>d. intent_validate d = Ok () \<and> epoch_observed observed d) ds \<and>
     sorted_wrt (<) (map ir_grant_id ds) \<and>
     (case previous of Some i \<Rightarrow> list_all (\<lambda>d. i < ir_grant_id d) ds | None \<Rightarrow> True)"

lemma records_ok_Cons:
  "records_ok observed previous (d # ds) \<longleftrightarrow>
     intent_validate d = Ok () \<and> epoch_observed observed d \<and> (\<forall>i. previous = Some i \<longrightarrow> i < ir_grant_id d) \<and>
     records_ok observed (Some (ir_grant_id d)) ds"
  by (auto simp: records_ok_def list_all_iff split: option.split)

lemma check_records_Ok: "check_records observed previous ds = Ok () \<longleftrightarrow> records_ok observed previous ds"
  by (induction observed previous ds rule: check_records.induct)
    (auto simp: records_ok_Cons epoch_observed_def not_le not_less split: option.splits, auto simp: records_ok_def split: option.splits)

lemma records_ok_part: "records_ok observed None ds \<Longrightarrow> records_ok observed None (take n (drop k ds))"
  by (auto simp: records_ok_def list_all_iff take_map drop_map sorted_wrt_take sorted_wrt_drop simp flip: take_map drop_map
      dest: in_set_takeD in_set_dropD)

definition unmapped_count :: "intent_record list \<Rightarrow> nat" where
  "unmapped_count ds = length (filter (\<lambda>d. ir_operation_id d = None) ds)"

lemma record_canonical:
  "intent_validate d = Ok () \<Longrightarrow> \<exists>c. canonicalize_value (Object (intent_fields d)) = Ok c \<and> length c \<le> 400"
  using canonicalize_plain [OF intent_shape(1,2) [of d 0]] intent_shape(3) [of d 0]
  by (fastforce simp: MAX_CANONICAL_JSON_BYTES_def)

lemma push_records_answers:
  assumes "\<And>x. is_ok (sha256 lib x)" "records_ok (rm_observed_issuer_epoch (dg_manifest g)) (dg_previous g) ds"
    "unat (dg_count g) + length ds \<le> unat (rm_total_records (dg_manifest g))"
  shows "\<exists>g'. push_records lib g ds = (g', Ok ()) \<and> dg_manifest g' = dg_manifest g \<and>
    dg_count g' = dg_count g + of_nat (length ds) \<and> dg_unmapped g' = dg_unmapped g + of_nat (unmapped_count ds)"
  using assms(2,3)
proof (induction ds arbitrary: g)
  case (Cons d ds)
  have d: "intent_validate d = Ok ()" "epoch_observed (rm_observed_issuer_epoch (dg_manifest g)) d"
      "\<And>i. dg_previous g = Some i \<Longrightarrow> i < ir_grant_id d" using Cons.prems(1) by (auto simp: records_ok_Cons)
  obtain c where c: "canonicalize_value (Object (intent_fields d)) = Ok c" using record_canonical [OF d(1)] by blast
  obtain s where s: "sha256 lib (dg_state g @ c) = Ok s" using assms(1) by (auto simp: is_ok_iff)
  have count: "dg_count g < rm_total_records (dg_manifest g)" using Cons.prems(2) by (simp add: word_less_nat_alt)
  define g1 where "g1 = g\<lparr>dg_state := s, dg_count := dg_count g + 1,
      dg_unmapped := dg_unmapped g + (if ir_operation_id d = None then 1 else 0), dg_previous := Some (ir_grant_id d)\<rparr>"
  have push: "digest_push lib g d = Ok g1"
    using d c s count by (auto simp: digest_push_def g1_def intent_to_value_def intent_fields_def epoch_observed_def
        not_le not_less split: option.splits)
  have "unat (dg_count g + 1) = unat (dg_count g) + 1"
    using next_page_last(2) [of "unat (dg_count g)" "rm_total_records (dg_manifest g)"] count by (simp add: word_less_nat_alt)
  then have "unat (dg_count g1) + length ds \<le> unat (rm_total_records (dg_manifest g1))"
    using Cons.prems(2) by (simp add: g1_def)
  moreover have "records_ok (rm_observed_issuer_epoch (dg_manifest g1)) (dg_previous g1) ds"
    using Cons.prems(1) by (simp add: g1_def records_ok_Cons)
  ultimately obtain g' where "push_records lib g1 ds = (g', Ok ())" "dg_manifest g' = dg_manifest g1"
      "dg_count g' = dg_count g1 + of_nat (length ds)" "dg_unmapped g' = dg_unmapped g1 + of_nat (unmapped_count ds)"
    using Cons.IH by blast
  then show ?case using push by (auto simp: g1_def unmapped_count_def)
qed (simp add: unmapped_count_def)

lemma manifest_canonical:
  assumes "manifest_validate m = Ok ()"
  shows "is_ok (canonicalize_value (Object (unsealed_fields m)))"
proof -
  note m = manifest_shape [OF assms]
  have "well_formed 1 (snd e)" "utf8_valid (fst e)" if "e \<in> set (manifest_fields m)" for e
    using m that well_formed_shallower [of 3 "snd e" 1] plain_utf8 by simp_all
  then have "well_formed 0 (Object (unsealed_fields m))"
    using distinct_map_filter [OF manifest_field_names(1)] by (simp add: MAX_DEPTH_def)
  moreover have "plain_value (Object (unsealed_fields m))" using m(1) by (simp add: list_all_iff)
  moreover
  have "sum_list (map f (filter P xs)) \<le> (sum_list (map f xs) :: nat)" for f :: "string \<times> json_value \<Rightarrow> nat" and P xs
    by (induction xs) auto
  from this [of "\<lambda>e. length (fst e) + 4 + plain_size (snd e)" "\<lambda>e. fst e \<noteq> ''records_digest''" "manifest_fields m"]
  have "plain_size (Object (unsealed_fields m)) \<le> 1502" using m(3) by simp
  ultimately show ?thesis
    using canonicalize_plain [of "Object (unsealed_fields m)"] by (fastforce simp: MAX_CANONICAL_JSON_BYTES_def is_ok_iff)
qed

text \<open>A manifest that describes a list of records.\<close>

definition describes :: "report_manifest \<Rightarrow> intent_record list \<Rightarrow> bool" where
  "describes m ds \<longleftrightarrow>
     manifest_validate m = Ok () \<and> records_ok (rm_observed_issuer_epoch m) None ds \<and>
     length ds = unat (rm_total_records m) \<and> unmapped_count ds = unat (hc_unmapped_records (rm_coverage m))"

lemma history_digest_answers:
  assumes "\<And>x. is_ok (sha256 lib x)" "describes m ds"
  shows "\<exists>b. length b = 32 \<and> history_digest lib m ds = Ok (base64_url_encode b)"
proof -
  have v: "manifest_validate m = Ok ()" using assms(2) by (simp add: describes_def)
  obtain s where s: "sha256 lib (HISTORY_DOMAIN @ manifest_bytes m) = Ok s" using assms(1) by (auto simp: is_ok_iff)
  let ?g = "\<lparr>dg_manifest = m, dg_state = s, dg_count = 0, dg_unmapped = 0, dg_previous = None\<rparr>"
  have new: "digest_new lib m = Ok ?g" using v s manifest_canonical [OF v] by (simp add: digest_new_Ok)
  obtain g' where g': "push_records lib ?g ds = (g', Ok ())" "dg_manifest g' = m"
      "dg_count g' = of_nat (length ds)" "dg_unmapped g' = of_nat (unmapped_count ds)"
    using push_records_answers [OF assms(1), of ?g ds] assms(2) by (auto simp: describes_def)
  have "digest_finish g' = Ok (base64_url_encode (dg_state g'))"
    using assms(2) g'(2-4) by (simp add: digest_finish_def describes_def)
  with new g'(1) show ?thesis
    using push_state_length [OF new g'(1)] by (auto simp: history_digest_Ok)
qed

definition pages_of :: "report_manifest \<Rightarrow> intent_record list \<Rightarrow> report_page list" where
  "pages_of m ds =
     map (\<lambda>i. \<lparr>rp_manifest = m, rp_page_index = of_nat i, rp_records = take 128 (drop (128 * i) ds)\<rparr>)
       [0..<unat (page_count m)]"

lemma ceil_128: "(if 0 < t mod 128 then t div 128 + 1 else t div 128) = (t + 127) div (128 :: nat)"
proof -
  have "(t + 127) div 128 = (t mod 128 + 127 + 128 * (t div 128)) div 128" by (simp add: mod_mult_div_eq add.commute add.left_commute)
  also have "\<dots> = t div 128 + (t mod 128 + 127) div 128" by (subst div_mult_self2) simp_all
  also have "(t mod 128 + 127) div 128 = (if 0 < t mod 128 then 1 else 0)"
    by (cases "0 < t mod 128") (auto intro!: div_nat_eqI)
  finally show ?thesis by simp
qed

lemma unat_page_count:
  assumes "rm_total_records m \<le> MAX_HISTORY_RECORDS"
  shows "unat (page_count m) = max ((unat (rm_total_records m) + 127) div 128) 1"
proof -
  let ?t = "unat (rm_total_records m)"
  have t: "?t \<le> 1000000" using assms by (simp add: MAX_HISTORY_RECORDS_def word_le_nat_alt)
  have div: "unat (rm_total_records m div 128) = ?t div 128" "unat (rm_total_records m mod 128) = ?t mod 128"
    by (simp_all add: unat_div unat_mod)
  have "unat (rm_total_records m div 128 + 1) = ?t div 128 + 1"
    using t div(1) by (simp add: unat_plus_if')
  then have "unat (div_ceil (rm_total_records m) RECORDS_PER_PAGE) = (if 0 < ?t mod 128 then ?t div 128 + 1 else ?t div 128)"
    using div by (simp add: div_ceil_def RECORDS_PER_PAGE_def word_less_nat_alt)
  also have "\<dots> = (?t + 127) div 128" by (rule ceil_128)
  finally show ?thesis by (simp add: page_count_def max_def word_le_nat_alt)
qed

lemma concat_parts: "concat (map (\<lambda>i. take 128 (drop (128 * i) ds)) [0..<k]) = take (128 * k) ds"
proof (induction k)
  case (Suc k)
  then show ?case using take_add [of "128 * k" 128 ds] by (simp add: add.commute)
qed simp

lemma unat_of_nat_small: "n < 2 ^ 64 \<Longrightarrow> unat (of_nat n :: u64) = n"
  by (simp add: unat_of_nat)

lemma unat_sub_le: "a \<le> b \<Longrightarrow> unat (b - a) = unat b - unat (a :: u64)"
  by (simp add: unat_sub_if' word_le_nat_alt)

lemma page_start:
  assumes "describes m ds" "i < unat (page_count m)"
  shows "128 * i \<le> length ds" "unat (rm_total_records m - of_nat i * RECORDS_PER_PAGE) = length ds - 128 * i"
    "(of_nat i :: u64) < page_count m"
proof -
  have t: "length ds = unat (rm_total_records m)" "rm_total_records m \<le> MAX_HISTORY_RECORDS"
    using assms(1) by (simp_all add: describes_def manifest_validate_Ok)
  have le: "length ds \<le> 1000000" using t by (simp add: MAX_HISTORY_RECORDS_def word_le_nat_alt)
  have "i < max ((length ds + 127) div 128) 1" using assms(2) t by (simp add: unat_page_count)
  then show start: "128 * i \<le> length ds" by (auto simp: max_def split: if_splits)
  have i: "unat (of_nat (128 * i) :: u64) = 128 * i"
    using start le by (intro unat_of_nat_small) simp
  have "(of_nat i * RECORDS_PER_PAGE :: u64) = of_nat (128 * i)" by (simp add: RECORDS_PER_PAGE_def mult.commute)
  then have "unat (rm_total_records m - of_nat i * RECORDS_PER_PAGE) = unat (rm_total_records m - of_nat (128 * i))" by (simp only:)
  also have "\<dots> = unat (rm_total_records m) - unat (of_nat (128 * i) :: u64)"
    using start i t(1) by (intro unat_sub_le) (simp add: word_le_nat_alt)
  finally show "unat (rm_total_records m - of_nat i * RECORDS_PER_PAGE) = length ds - 128 * i" using i t(1) by simp
  have "unat (of_nat i :: u64) = i" using start le by (intro unat_of_nat_small) simp
  then show "(of_nat i :: u64) < page_count m" using assms(2) by (simp add: word_less_nat_alt)
qed

lemma pages_of_valid:
  assumes "describes m ds" "p \<in> set (pages_of m ds)"
  shows "page_valid p"
proof -
  from assms(2) obtain i where i: "i < unat (page_count m)"
      "p = \<lparr>rp_manifest = m, rp_page_index = of_nat i, rp_records = take 128 (drop (128 * i) ds)\<rparr>"
    by (auto simp: pages_of_def)
  note s = page_start [OF assms(1) i(1)]
  have "unat (min (rm_total_records m - of_nat i * RECORDS_PER_PAGE) RECORDS_PER_PAGE) = min (length ds - 128 * i) 128"
    using s(2) by (simp add: min_def RECORDS_PER_PAGE_def word_le_nat_alt)
  then show ?thesis
    using assms(1) s(3) records_ok_part [of _ ds 128 "128 * i"]
    by (simp add: page_valid_def i(2) describes_def check_records_Ok)
qed

lemma pages_of_concat:
  assumes "describes m ds"
  shows "concat (map rp_records (pages_of m ds)) = ds"
proof -
  have "rm_total_records m \<le> MAX_HISTORY_RECORDS" "length ds = unat (rm_total_records m)"
    using assms by (simp_all add: describes_def manifest_validate_Ok)
  moreover have "n \<le> 128 * max ((n + 127) div 128) 1" for n :: nat
  proof -
    have "n + 127 < 128 * ((n + 127) div 128) + 128" using dividend_less_div_times [of 128 "n + 127"] by (simp add: mult.commute)
    then have "n \<le> 128 * ((n + 127) div 128)" by linarith
    then show ?thesis by (simp add: max_def)
  qed
  ultimately have "length ds \<le> 128 * unat (page_count m)" by (simp add: unat_page_count)
  then show ?thesis by (simp add: pages_of_def comp_def concat_parts)
qed

lemma pages_of_delivered:
  assumes "describes m ds" "history_digest lib m ds = Ok (rm_records_digest m)"
  shows "history_delivered lib (pages_of m ds)"
proof -
  have "in_order m (pages_of m ds)"
    by (simp add: in_order_def pages_of_def list_all_iff comp_def)
  moreover have "length (pages_of m ds) = unat (page_count m)" by (simp add: pages_of_def)
  moreover from this page_count_pos [of m] obtain p ps where "pages_of m ds = p # ps" by (cases "pages_of m ds") auto
  moreover from this have "rp_manifest p = m" using \<open>in_order m (pages_of m ds)\<close> by (simp add: in_order_def)
  ultimately show ?thesis
    using pages_of_concat [OF assms(1)] assms(2) by (simp add: history_delivered_def Let_def)
qed

text \<open>The digest does not depend on the digest that a manifest announces.\<close>

lemma history_digest_sealed:
  assumes d: "nonce d" and digest: "history_digest lib m ds = Ok out"
  shows "history_digest lib (m\<lparr>rm_records_digest := d\<rparr>) ds = Ok out"
proof -
  let ?m = "m\<lparr>rm_records_digest := d\<rparr>"
  let ?f = "\<lambda>g. g\<lparr>dg_manifest := ?m\<rparr> :: page_digest"
  from digest obtain g0 g where g: "digest_new lib m = Ok g0" "push_records lib g0 ds = (g, Ok ())" "digest_finish g = Ok out"
    by (auto simp: history_digest_Ok)
  have "unsealed_fields ?m = unsealed_fields m" by (simp add: manifest_fields_def page_count_def)
  then have "digest_new lib ?m = Ok (?f g0)"
    using g(1) d by (auto simp: digest_new_Ok manifest_validate_Ok manifest_bytes_def)
  moreover have "digest_push lib (?f h) x = Ok (?f h')" if "digest_push lib h x = Ok h'" "dg_manifest h = m" for h h' x
    using that by (auto simp: digest_push_def split: option.split_asm)
  then have "push_records lib (?f h) ds = (?f h', Ok ())" if "push_records lib h ds = (h', Ok ())" "dg_manifest h = m" for h h' ds
    using that
  proof (induction ds arbitrary: h)
    case (Cons x ds)
    then show ?case by (cases "digest_push lib h x") (auto dest: digest_push_manifest)
  qed simp
  from this [OF g(2) digest_new_manifest [OF g(1)]] have "push_records lib (?f g0) ds = (?f g, Ok ())" .
  moreover have "dg_manifest g = m" using g(2) push_records_manifest digest_new_manifest [OF g(1)] by fastforce
  then have "digest_finish (?f g) = Ok out" using g(3) by (simp add: digest_finish_def)
  ultimately show ?thesis by (auto simp: history_digest_Ok)
qed

section \<open>A small history\<close>

definition sample_intents :: "intent_record list" where
  "sample_intents =
     [\<lparr>ir_grant_id = ''g1'', ir_expires_at_ms = 5000, ir_operation_id = Some ''op1'', ir_issuer_epoch = Some 3\<rparr>,
      \<lparr>ir_grant_id = ''g2'', ir_expires_at_ms = 6000, ir_operation_id = None, ir_issuer_epoch = None\<rparr>]"

definition sample_nonce :: string where
  "sample_nonce = base64_url_encode (replicate 32 (CHR 0x00))"

definition sample_report_identity :: report_identity where
  "sample_report_identity = \<lparr>ri_tenant_id = ''t1'', ri_node_id = ''n1'', ri_node_key_version = 1, ri_issuer_key_id = ''k1'',
     ri_recovery_id = ''r1'', ri_recovery_generation = 4, ri_challenge = sample_nonce\<rparr>"

definition unsealed_manifest :: report_manifest where
  "unsealed_manifest = \<lparr>rm_identity = sample_report_identity, rm_report_id = sample_nonce, rm_observed_issuer_epoch = 3,
     rm_coverage = \<lparr>hc_history_id = None, hc_pruned_through_ms = 0, hc_unmapped_records = 1\<rparr>,
     rm_total_records = 2, rm_records_digest = sample_nonce\<rparr>"

definition sample_manifest :: report_manifest where
  "sample_manifest = unsealed_manifest\<lparr>rm_records_digest :=
     (case history_digest toy_lib unsealed_manifest sample_intents of Ok d \<Rightarrow> d | Err _ \<Rightarrow> [])\<rparr>"

lemma sample_nonce_ok: "nonce sample_nonce"
  unfolding nonce_iff sample_nonce_def by (rule exI [of _ "replicate 32 (CHR 0x00)"]) simp

lemma sample_describes: "describes unsealed_manifest sample_intents"
  using sample_nonce_ok
  by (simp add: describes_def unsealed_manifest_def sample_intents_def sample_report_identity_def manifest_validate_Ok
      identity_validate_Ok records_ok_def epoch_observed_def intent_validate_Ok positive_def MAX_SAFE_def unmapped_count_def
      MAX_HISTORY_RECORDS_def is_valid_opaque_id_def MAX_OPAQUE_ID_BYTES_def char_eval)

lemma toy_digests: "is_ok (sha256 toy_lib x)"
  by (simp add: sha256_def toy_lib_def checksum_def N_SECRET_def)

lemma sample_sealed: "describes sample_manifest sample_intents"
    "history_digest toy_lib sample_manifest sample_intents = Ok (rm_records_digest sample_manifest)"
proof -
  obtain b where b: "length b = 32" "history_digest toy_lib unsealed_manifest sample_intents = Ok (base64_url_encode b)"
    using history_digest_answers [OF toy_digests sample_describes] by blast
  then have n: "nonce (base64_url_encode b)" by (auto simp: nonce_iff)
  from b have m: "sample_manifest = unsealed_manifest\<lparr>rm_records_digest := base64_url_encode b\<rparr>" by (simp add: sample_manifest_def)
  show "history_digest toy_lib sample_manifest sample_intents = Ok (rm_records_digest sample_manifest)"
    using history_digest_sealed [OF n b(2)] by (simp add: m)
  show "describes sample_manifest sample_intents"
    using sample_describes n by (simp add: m describes_def manifest_validate_Ok)
qed

definition sample_page :: report_page where
  "sample_page = \<lparr>rp_manifest = sample_manifest, rp_page_index = 0, rp_records = sample_intents\<rparr>"

lemma sample_pages: "pages_of sample_manifest sample_intents = [sample_page]"
proof -
  have "page_count sample_manifest = 1"
    by (simp add: page_count_def sample_manifest_def unsealed_manifest_def div_ceil_def RECORDS_PER_PAGE_def)
  then show ?thesis by (simp add: pages_of_def sample_page_def sample_intents_def)
qed

lemma sample_complete: "complete (accumulate toy_lib [sample_page])"
  using pages_of_delivered [OF sample_sealed] by (simp add: sample_pages complete_iff_delivered)

lemma sample_page_valid: "is_ok (page_to_value sample_page)"
  using pages_of_valid [OF sample_sealed(1), of sample_page] by (simp add: sample_pages is_ok_iff page_to_value_Ok)

text \<open>C38: the digest in a manifest commits to the whole history. Two sequences of pages that both
  complete an accumulator and announce the same digest are the same pages, or two messages that were
  hashed for them collide under SHA-256.
\<close>

theorem completed_history_unique:
  assumes "complete (accumulate lib (p # ps))" "complete (accumulate lib (q # qs))"
    "list_all (\<lambda>p. is_ok (page_to_value p)) (p # ps)" "list_all (\<lambda>p. is_ok (page_to_value p)) (q # qs)"
    "rm_records_digest (rp_manifest p) = rm_records_digest (rp_manifest q)"
  shows "p # ps = q # qs \<or>
    histories_collide lib (rp_manifest p) (concat (map rp_records (p # ps)))
      (rp_manifest q) (concat (map rp_records (q # qs)))"
proof -
  have d: "history_delivered lib (p # ps)" "history_delivered lib (q # qs)"
    using assms(1,2) complete_iff_delivered by blast+
  then have "history_digest lib (rp_manifest p) (concat (map rp_records (p # ps))) = Ok (rm_records_digest (rp_manifest p))"
      "history_digest lib (rp_manifest q) (concat (map rp_records (q # qs))) = Ok (rm_records_digest (rp_manifest p))"
    using assms(5) by (simp_all add: history_delivered_def Let_def)
  from history_digest_binds [OF this assms(5)] show ?thesis
  proof
    assume eq: "rp_manifest p = rp_manifest q \<and> concat (map rp_records (p # ps)) = concat (map rp_records (q # qs))"
    have "in_order (rp_manifest p) (p # ps)" "in_order (rp_manifest p) (q # qs)" "length (p # ps) = length (q # qs)"
      using d eq by (simp_all add: history_delivered_def Let_def)
    with same_cut assms(3,4) eq show ?thesis by blast
  qed blast
qed

theorem completed_history_unique_witness:
  "complete (accumulate toy_lib [sample_page]) \<and> is_ok (page_to_value sample_page) \<and>
   ([sample_page] = [sample_page] \<or>
    histories_collide toy_lib (rp_manifest sample_page) (concat (map rp_records [sample_page]))
      (rp_manifest sample_page) (concat (map rp_records [sample_page])))"
  using completed_history_unique [OF sample_complete sample_complete] sample_complete sample_page_valid by simp

end
