(* ===== verification/Spec2Isabelle.thy ===== *)
theory Spec2Isabelle
  imports Canon_Roundtrip Signing Clock Protocol Delivery Policy Envelope_Flow Recovery_History
begin

text \<open>
  A verification development of BlindPass, which hands secrets to workloads and agents without
  showing them to the agents. The program is a Rust workspace. \<open>blindpass-core\<close> holds the data
  model, the document formats and the cryptographic protocols; the broker (\<open>blindpass-broker\<close>), the
  controller, the node agent and the command line are built on it. A controller signs documents
  (registrations, policies, grants, revocations, fulfillment terms); nodes relay them; a broker
  verifies them, identifies the workload that asks, and delivers or seals a secret.

  \<^bold>\<open>The theories\<close>, with the files of \<open>src/crates/blindpass-core/src\<close> they model. Every definition
  that models code has the name of the Rust item where Isabelle allows it; a Rust \<open>Result\<close> is a
  \<open>result\<close> with one branch per error, a struct a record, an enum a datatype, \<open>u64\<close> and \<open>i64\<close> are
  64-bit words, bytes and strings are lists of \<open>char\<close>.
  \<^item> \<open>Prelude\<close>, \<open>Rust_Str\<close>: results and their combinators, checked and saturating arithmetic, and what
    the code uses of the standard library on strings (UTF-8, UTF-16, \<open>trim\<close>, \<open>split\<close>,
    \<open>split_once\<close>, decimal and hexadecimal text).
  \<^item> \<open>Canon\<close>, \<open>Canon_Parse\<close>, \<open>Canon_Roundtrip\<close> (\<open>canon.rs\<close>): the canonical JSON subset, its recursive
    parser and its writer. Everything that is signed, hashed or sent goes through them.
  \<^item> \<open>Base64\<close>, \<open>Crypto\<close>, \<open>Signing\<close> (\<open>signing.rs\<close>, \<open>signing/ed25519.rs\<close>, the digests of \<open>custody.rs\<close>):
    base64url, the checks around the cryptographic library, browser and fleet capabilities.
  \<^item> \<open>Clock\<close> (\<open>clock.rs\<close>): the checks of database and host clocks against the elapsed time.
  \<^item> \<open>Identity\<close>, \<open>Protocol\<close>, \<open>Delivery\<close> (\<open>identity.rs\<close>, \<open>protocol.rs\<close>, \<open>delivery.rs\<close>): who may ask over
    the local sockets, how a request is spelled, and the registry that delivers credentials.
  \<^item> \<open>Policy\<close> (\<open>policy.rs\<close>): normalisation and first-match evaluation of exchange policies, and the
    digest of a decision.
  \<^item> \<open>Fleet_Codec\<close>, \<open>Fleet\<close>, \<open>Fleet_Messages\<close> (\<open>fleet.rs\<close>): the ten signed documents with their readers
    and writers, and the messages of enrollment, sessions and node events. The locales
    \<open>document_codec\<close> and \<open>exact_codec\<close> state what a pair of reader and writer promises; each
    document is an interpretation.
  \<^item> \<open>Custody\<close> (\<open>custody.rs\<close>): HPKE sealing and opening over the library's primitives, and the store
    of ephemeral recipient keys as a state with two clocks.
  \<^item> \<open>Provisioning\<close> (\<open>provisioning.rs\<close>), \<open>Fulfillment\<close> (\<open>fulfillment.rs\<close>): browser provisioning
    bindings; terms, offers and submissions of a fulfillment.
  \<^item> \<open>Wire_Size\<close>: how long the canonical form of a document can be.
  \<^item> \<open>Envelope\<close>, \<open>Envelope_Flow\<close> (the envelopes of \<open>fleet.rs\<close> and the sealing of
    \<open>fulfillment.rs\<close>): signing, reading and verifying envelopes, whose bodies contain envelopes.
  \<^item> \<open>Recovery_Pages\<close>, \<open>Recovery_Codec\<close>, \<open>Recovery_History\<close> (\<open>recovery/pages.rs\<close>): the paged report
    of a broker's consumption history, its hash chain, and the accumulator that receives it.

  \<^bold>\<open>What is shown.\<close>
  \<^item> Canonical JSON (C1 to C7): the parser always returns; parsing inverts writing; canonical bytes
    identify a value; exactly which values can be written; and that the writer, unlike the parser,
    does not limit the number of values.
  \<^item> Encodings and capabilities (C8 to C12): base64url decoding is strict; a capability is accepted
    exactly when it is unexpired and carries the signer's code for that request and scope.
  \<^item> Clocks, identity, local protocol, delivery (C13 to C19): each check is characterised by what it
    accepts; a registry only ever delivers what passed its policy, whatever its history.
  \<^item> Policies (C20, C21): the evaluation of a normalised document is the first applicable rule of the
    document as written; the digest of a decision identifies it.
  \<^item> Fleet documents (C22 to C27): documents are read back from their canonical bytes; limits of
    grants; signed messages and keys determine what they name.
  \<^item> Provisioning and custody (C28 to C31): bindings and their windows; opening inverts sealing; a
    key is opened at most once and in time, in every run of the store.
  \<^item> Envelopes (C32 to C36): validation of nested bodies ends; an envelope that is sent is read back
    and verifies; a signature covers every field; a sealed answer reaches the holder of the offered
    key; and exactly when an offer can be answered.
  \<^item> Recovery (C37, C38): the stateful accumulator refines the abstract statement that one history
    was delivered in order and entire; an announced digest commits to one history.

  Statements about hashes name the two messages that would have to collide; they assume nothing of
  the hash function.

  \<^bold>\<open>Parameters.\<close> OpenSSL is the record \<open>libcrypto\<close>: digests, HMAC, X25519, AEAD and Ed25519 as
  functions that may fail. What the code relies on is stated as hypotheses where it is used
  (\<open>ed25519_correct\<close>, \<open>x25519_agrees\<close>, \<open>aead_correct\<close>, \<open>lib_answers\<close>), and \<open>toy_lib\<close> is a library that
  satisfies all of them, on which the witnesses are evaluated. Clock readings, random bytes and the
  writer of a delivery are arguments.

  \<^bold>\<open>Bounds and fuel.\<close> \<open>parse_json\<close> runs the recursive parser with \<open>parse_fuel\<close>, which is linear in
  the length of the source; C4 shows that it is never used up. \<open>validate_document_body\<close> unfolds the
  recursion through nested envelopes \<open>MAX_DEPTH + 2\<close> times; C32 shows that more make no difference,
  because every nested envelope is one level deeper in a value of bounded depth. All other recursion
  is structural or has a termination proof.

  \<^bold>\<open>Not modelled.\<close> Wiping memory on drop (\<open>secret.rs\<close>) and the file of open flags have no meaning in
  a pure model. \<open>recovery.rs\<close> reads and verifies one signed report of consumed grants that fits in a
  single document; the paged report of \<open>recovery/pages.rs\<close> is the one that is modelled. The
  broker's journals, keys and sessions, the controller's routes and store, the node agent and the
  command line are mostly input and output: files with owner and mode checks, SQL, HTTP, sockets,
  subprocesses. What they decide is decided by the functions above. The web console, the gateway
  packages and the deployment scripts are other languages around the same documents.
\<close>

end
